(* ===== verification/Nata_Prelude.thy ===== *)
theory Nata_Prelude
  imports Main "HOL-Library.Word"
begin

text \<open>
  Shared vocabulary of the development: machine integers, the result type of the modelled Rust
  functions, lists of bits and bytes, and the lemmas about them that every component uses.

  A Rust function returns a value, returns an error, panics, or does not return.  The type
  \<open>outcome\<close> has one constructor for each; \<open>obind\<close> is the \<open>?\<close> operator.  Bits are kept most
  significant first, the order in which the wire formats of the repository are written.
\<close>

unbundle bit_operations_syntax

named_theorems outcome_simps \<open>unfolding of the outcome combinators\<close>
named_theorems bits_simps \<open>conversions between numbers, bits and bytes\<close>

type_synonym u8 = "8 word"
type_synonym u16 = "16 word"
type_synonym u32 = "32 word"
type_synonym u128 = "128 word"
type_synonym bytes = "u8 list"

section \<open>Outcomes\<close>

datatype ('e, 'a) outcome = Ok 'a | Err 'e | Panic string | Diverge

fun obind :: "('e, 'a) outcome \<Rightarrow> ('a \<Rightarrow> ('e, 'b) outcome) \<Rightarrow> ('e, 'b) outcome" where
  "obind (Ok a) f = f a"
| "obind (Err e) f = Err e"
| "obind (Panic m) f = Panic m"
| "obind Diverge f = Diverge"

fun omap :: "('a \<Rightarrow> 'b) \<Rightarrow> ('e, 'a) outcome \<Rightarrow> ('e, 'b) outcome" where
  "omap f (Ok a) = Ok (f a)"
| "omap f (Err e) = Err e"
| "omap f (Panic m) = Panic m"
| "omap f Diverge = Diverge"

fun map_err :: "('e \<Rightarrow> 'd) \<Rightarrow> ('e, 'a) outcome \<Rightarrow> ('d, 'a) outcome" where
  "map_err f (Ok a) = Ok a"
| "map_err f (Err e) = Err (f e)"
| "map_err f (Panic m) = Panic m"
| "map_err f Diverge = Diverge"

text \<open>\<open>Option::ok_or_else\<close>.\<close>

fun ok_or :: "'e \<Rightarrow> 'a option \<Rightarrow> ('e, 'a) outcome" where
  "ok_or e None = Err e"
| "ok_or e (Some a) = Ok a"

text \<open>The function returned: a value or an error, no panic and no divergence.\<close>

fun returns :: "('e, 'a) outcome \<Rightarrow> bool" where
  "returns (Ok a) = True"
| "returns (Err e) = True"
| "returns (Panic m) = False"
| "returns Diverge = False"

text \<open>
  A method that takes \<open>&mut self\<close> leaves a state behind whatever it returns: the pair of the new
  state and the outcome.  \<open>try_in s r k\<close> is \<open>?\<close> inside such a method: when \<open>r\<close> is no value, the
  method stops and the state is \<open>s\<close>.
\<close>

fun try_in :: "'s \<Rightarrow> ('e, 'a) outcome \<Rightarrow> ('a \<Rightarrow> 's \<times> ('e, 'b) outcome) \<Rightarrow> 's \<times> ('e, 'b) outcome" where
  "try_in s (Ok a) k = k a"
| "try_in s (Err e) k = (s, Err e)"
| "try_in s (Panic m) k = (s, Panic m)"
| "try_in s Diverge k = (s, Diverge)"

lemma obind_Ok_iff [outcome_simps]:
  "obind r f = Ok b \<longleftrightarrow> (\<exists>a. r = Ok a \<and> f a = Ok b)"
  by (cases r) auto

lemma omap_Ok_iff [outcome_simps]: "omap f r = Ok b \<longleftrightarrow> (\<exists>a. r = Ok a \<and> b = f a)"
  by (cases r) auto

lemma omap_Err_iff [outcome_simps]: "omap f r = Err e \<longleftrightarrow> r = Err e"
  by (cases r) auto

lemma map_err_Ok_iff [outcome_simps]: "map_err f r = Ok a \<longleftrightarrow> r = Ok a"
  by (cases r) auto

lemma map_err_Err_iff [outcome_simps]: "map_err f r = Err d \<longleftrightarrow> (\<exists>e. r = Err e \<and> d = f e)"
  by (cases r) auto

lemma ok_or_Ok_iff [outcome_simps]: "ok_or e x = Ok a \<longleftrightarrow> x = Some a"
  by (cases x) auto

lemma returns_obind:
  assumes "returns r" and "\<And>a. r = Ok a \<Longrightarrow> returns (f a)"
  shows "returns (obind r f)"
  using assms by (cases r) auto

lemma returns_omap [simp]: "returns (omap f r) = returns r"
  by (cases r) auto

lemma returns_map_err [simp]: "returns (map_err f r) = returns r"
  by (cases r) auto

lemma returns_ok_or [simp]: "returns (ok_or e x)"
  by (cases x) auto

lemma returns_iff: "returns r \<longleftrightarrow> (\<exists>a. r = Ok a) \<or> (\<exists>e. r = Err e)"
  by (cases r) auto

lemma obind_assoc: "obind (obind r f) g = obind r (\<lambda>a. obind (f a) g)"
  by (cases r) auto

section \<open>Methods of \<open>Result\<close> and \<open>Iterator\<close>\<close>

text \<open>
  A \<open>Result\<close> of a library, which returns, is a sum; a loop that may not end gives an option.  \<open>Result::ok\<close>,
  \<open>Result::expect\<close>, \<open>Iterator::find_map\<close>.
\<close>

fun of_result :: "'e + 'a \<Rightarrow> ('e, 'a) outcome" where
  "of_result (Inl e) = Err e"
| "of_result (Inr a) = Ok a"

fun of_run :: "('e, 'a) outcome option \<Rightarrow> ('e, 'a) outcome" where
  "of_run None = Diverge"
| "of_run (Some r) = r"

fun result_ok :: "('e, 'a) outcome \<Rightarrow> ('d, 'a option) outcome" where
  "result_ok (Ok a) = Ok (Some a)"
| "result_ok (Err e) = Ok None"
| "result_ok (Panic m) = Panic m"
| "result_ok Diverge = Diverge"

fun expect_ok :: "string \<Rightarrow> ('e, 'a) outcome \<Rightarrow> ('d, 'a) outcome" where
  "expect_ok msg (Ok a) = Ok a"
| "expect_ok msg (Err e) = Panic msg"
| "expect_ok msg (Panic m) = Panic m"
| "expect_ok msg Diverge = Diverge"

fun find_map :: "('a \<Rightarrow> 'b option) \<Rightarrow> 'a list \<Rightarrow> 'b option" where
  "find_map f [] = None"
| "find_map f (x # xs) = (case f x of Some y \<Rightarrow> Some y | None \<Rightarrow> find_map f xs)"

lemma find_map_Some: "find_map f xs = Some y \<Longrightarrow> \<exists>x \<in> set xs. f x = Some y"
  by (induction xs) (auto split: option.splits)

lemma obind_omap_pair:
  "obind (omap f r) (\<lambda>(a, b). Ok a) = omap (\<lambda>i. fst (f i)) r"
  "obind (omap f r) (\<lambda>(a, b). Ok b) = omap (\<lambda>i. snd (f i)) r"
  by (cases r; simp add: split_beta)+

lemma omap_omap: "omap f (omap g r) = omap (\<lambda>x. f (g x)) r"
  by (cases r) simp_all

lemma find_split:
  assumes "find P xs = Some x"
  shows "\<exists>pre post. xs = pre @ x # post \<and> P x \<and> list_all (\<lambda>y. \<not> P y) pre"
  using assms
proof (induction xs)
  case (Cons a xs)
  show ?case
  proof (cases "P a")
    case True
    with Cons.prems have "a # xs = [] @ x # xs \<and> P x \<and> list_all (\<lambda>y. \<not> P y) []" by simp
    then show ?thesis by blast
  next
    case False
    with Cons obtain pre post where "xs = pre @ x # post" "P x" "list_all (\<lambda>y. \<not> P y) pre" by auto
    with False have "a # xs = (a # pre) @ x # post \<and> P x \<and> list_all (\<lambda>y. \<not> P y) (a # pre)" by simp
    then show ?thesis by blast
  qed
qed simp

lemma map_retract:
  assumes "map f xs = map g ys" and "\<And>x y. x \<in> set xs \<Longrightarrow> f x = g y \<Longrightarrow> h y = k x"
  shows "map h ys = map k xs"
  using assms by (induction xs arbitrary: ys) auto

section \<open>Array stores that panic out of range\<close>

definition index_msg :: string where
  "index_msg = ''index out of bounds''"

definition set_byte :: "bytes \<Rightarrow> nat \<Rightarrow> u8 \<Rightarrow> ('e, bytes) outcome" where
  "set_byte xs i v = (if i < length xs then Ok (xs[i := v]) else Panic index_msg)"

definition slice_to :: "'a list \<Rightarrow> nat \<Rightarrow> ('e, 'a list) outcome" where
  "slice_to xs n = (if n \<le> length xs then Ok (take n xs) else Panic index_msg)"

section \<open>Byte string literals\<close>

definition ascii :: "string \<Rightarrow> bytes" where
  "ascii s = map of_char s"

section \<open>Decimal rendering, as \<open>format!\<close> prints an unsigned integer\<close>

fun show_nat :: "nat \<Rightarrow> string" where
  "show_nat n =
     (if n < 10 then [char_of (48 + n)] else show_nat (n div 10) @ [char_of (48 + n mod 10)])"

declare show_nat.simps [simp del]

section \<open>Numbers as bits, most significant first\<close>

fun bits_be :: "nat \<Rightarrow> nat \<Rightarrow> bool list" where
  "bits_be 0 v = []"
| "bits_be (Suc n) v = odd (v div 2 ^ n) # bits_be n v"

fun nat_of_bits :: "bool list \<Rightarrow> nat" where
  "nat_of_bits [] = 0"
| "nat_of_bits (b # bs) = of_bool b * 2 ^ length bs + nat_of_bits bs"

lemma length_bits_be [simp, bits_simps]: "length (bits_be n v) = n"
  by (induction n) auto

lemma nat_of_bits_less: "nat_of_bits bs < 2 ^ length bs"
  by (induction bs) auto

lemma nat_of_bits_bits_be [bits_simps]: "nat_of_bits (bits_be n v) = v mod 2 ^ n"
proof (induction n)
  case (Suc n)
  have "v mod 2 ^ Suc n = (v div 2 ^ n mod 2) * 2 ^ n + v mod 2 ^ n"
    using mod_mult2_eq [of v "2 ^ n" 2] by (simp add: mult.commute)
  then show ?case
    using Suc by (simp add: of_bool_odd_eq_mod_2)
qed auto

lemma bits_be_cong:
  assumes "\<And>i. i < n \<Longrightarrow> odd (u div 2 ^ i) = odd (v div 2 ^ i)"
  shows "bits_be n u = bits_be n v"
  using assms by (induction n) auto

lemma bits_be_add_mult: "bits_be n (k * 2 ^ n + v) = bits_be n v"
proof (rule bits_be_cong)
  fix i assume "i < n"
  then have split: "k * 2 ^ n = (2 * (k * 2 ^ (n - Suc i))) * (2::nat) ^ i"
    by (simp flip: power_Suc power_add)
  show "odd ((k * 2 ^ n + v) div 2 ^ i) = odd (v div 2 ^ i)"
    unfolding split by simp
qed

lemma bits_be_nat_of_bits [bits_simps]: "bits_be (length bs) (nat_of_bits bs) = bs"
proof (induction bs)
  case (Cons b bs)
  have less: "nat_of_bits bs < 2 ^ length bs"
    by (rule nat_of_bits_less)
  then have "(of_bool b * 2 ^ length bs + nat_of_bits bs) div 2 ^ length bs = of_bool b"
    by (cases b) (simp_all add: div_add_self1)
  with Cons show ?case
    by (simp add: bits_be_add_mult)
qed auto

lemma bits_be_append: "bits_be (m + n) v = bits_be m (v div 2 ^ n) @ bits_be n v"
  proof (induction m)
  case (Suc m)
  have "v div 2 ^ (m + n) = v div 2 ^ n div 2 ^ m"
    by (simp add: power_add div_mult2_eq mult.commute [of "2 ^ m"])
  with Suc show ?case by simp
qed simp

lemma nat_of_bits_append:
  "nat_of_bits (xs @ ys) = nat_of_bits xs * 2 ^ length ys + nat_of_bits ys"
  by (induction xs) (auto simp: algebra_simps power_add)

section \<open>Bytes as bits\<close>

definition byte_bits :: "u8 \<Rightarrow> bool list" where
  "byte_bits b = bits_be 8 (unat b)"

definition bytes_bits :: "bytes \<Rightarrow> bool list" where
  "bytes_bits bs = concat (map byte_bits bs)"

fun pack :: "bool list \<Rightarrow> bytes" where
  "pack [] = []"
| "pack bs = word_of_nat (nat_of_bits (take 8 bs)) # pack (drop 8 bs)"

declare pack.simps(2) [simp del]

lemma length_byte_bits [simp]: "length (byte_bits b) = 8"
  by (simp add: byte_bits_def)

lemma bytes_bits_simps [simp]:
  "bytes_bits [] = []"
  "bytes_bits (b # bs) = byte_bits b @ bytes_bits bs"
  "bytes_bits (xs @ ys) = bytes_bits xs @ bytes_bits ys"
  by (simp_all add: bytes_bits_def)

lemma length_bytes_bits [simp]: "length (bytes_bits bs) = 8 * length bs"
  by (induction bs) auto

lemma drop_bytes_bits: "drop (8 * k) (bytes_bits bs) = bytes_bits (drop k bs)"
proof (induction bs arbitrary: k)
  case (Cons b bs)
  then show ?case by (cases k) simp_all
qed simp

lemma take_bytes_bits: "take (8 * k) (bytes_bits bs) = bytes_bits (take k bs)"
proof (induction bs arbitrary: k)
  case (Cons b bs)
  then show ?case by (cases k) simp_all
qed simp

lemma byte_of_byte_bits: "word_of_nat (nat_of_bits (byte_bits b)) = b"
proof -
  have "unat b < 2 ^ LENGTH(8)"
    by (rule unsigned_less)
  then show ?thesis
    by (simp add: byte_bits_def bits_simps)
qed

lemma byte_bits_of_bits:
  assumes "length bs = 8"
  shows "byte_bits (word_of_nat (nat_of_bits bs)) = bs"
proof -
  have "nat_of_bits bs < 2 ^ 8"
    using nat_of_bits_less [of bs] assms by simp
  then have "unat (word_of_nat (nat_of_bits bs) :: u8) = nat_of_bits bs"
    by (simp add: unat_of_nat take_bit_nat_eq_self)
  then show ?thesis
    using bits_be_nat_of_bits [of bs] assms by (simp add: byte_bits_def)
qed

lemma pack_byte_bits_append [simp]: "pack (byte_bits b @ bs) = b # pack bs"
proof -
  obtain x xs where eq: "byte_bits b @ bs = x # xs"
    by (cases "byte_bits b @ bs") (auto dest: arg_cong [where f = length])
  have "pack (byte_bits b @ bs)
      = word_of_nat (nat_of_bits (take 8 (byte_bits b @ bs))) # pack (drop 8 (byte_bits b @ bs))"
    unfolding eq by (rule pack.simps)
  then show ?thesis
    by (simp add: byte_of_byte_bits)
qed

lemma pack_bytes_bits [simp]: "pack (bytes_bits bs) = bs"
  by (induction bs) auto

lemma bytes_bits_pack:
  assumes "8 dvd length bs"
  shows "bytes_bits (pack bs) = bs"
proof -
  obtain k where "length bs = 8 * k"
    using assms by (auto elim: dvdE)
  then show ?thesis
  proof (induction k arbitrary: bs)
    case (Suc k)
    then obtain x xs where "bs = x # xs"
      by (cases bs) auto
    then have "pack bs = word_of_nat (nat_of_bits (take 8 bs)) # pack (drop 8 bs)"
      using pack.simps(2) [of x xs] by simp
    moreover have "bytes_bits (pack (drop 8 bs)) = drop 8 bs"
      using Suc by simp
    ultimately show ?case
      using Suc.prems by (simp add: byte_bits_of_bits)
  qed simp
qed

lemma pack_append:
  assumes "8 dvd length xs"
  shows "pack (xs @ ys) = pack xs @ pack ys"
proof -
  have "pack (bytes_bits bs @ ys) = bs @ pack ys" for bs
    by (induction bs) auto
  from this [of "pack xs"] show ?thesis
    using bytes_bits_pack [OF assms] by simp
qed

lemma length_pack:
  assumes "8 dvd length bs"
  shows "8 * length (pack bs) = length bs"
  using arg_cong [OF bytes_bits_pack [OF assms], of length] by simp

lemma bytes_bits_inject [simp]: "bytes_bits xs = bytes_bits ys \<longleftrightarrow> xs = ys"
  using pack_bytes_bits by metis

lemma pack_bits_be_8: "pack (bits_be 8 v) = [word_of_nat v]"
proof -
  have "bits_be 8 v = byte_bits (word_of_nat v)"
    unfolding byte_bits_def
  proof (rule bits_be_cong)
    fix i :: nat assume "i < 8"
    then show "odd (v div 2 ^ i) = odd (unat (word_of_nat v :: u8) div 2 ^ i)"
      by (simp add: unat_of_nat take_bit_eq_mod [of 8, simplified, symmetric] bit_take_bit_iff
          flip: bit_iff_odd)
  qed
  then show ?thesis
    using pack_bytes_bits [of "[word_of_nat v]"] by simp
qed

text \<open>The two halves of a byte.\<close>

lemma nat_of_bits_nibbles:
  "nat_of_bits (take 4 (byte_bits b)) = unat b div 16" "nat_of_bits (drop 4 (byte_bits b)) = unat b mod 16"
proof -
  have split: "byte_bits b = bits_be 4 (unat b div 16) @ bits_be 4 (unat b)"
    using bits_be_append [of 4 4 "unat b"] by (simp add: byte_bits_def)
  have "unat b < 2 ^ LENGTH(8)"
    by (rule unsigned_less)
  then have "unat b div 16 < 16"
    by (simp add: less_mult_imp_div_less)
  then show "nat_of_bits (take 4 (byte_bits b)) = unat b div 16"
    unfolding split by (simp add: nat_of_bits_bits_be)
  show "nat_of_bits (drop 4 (byte_bits b)) = unat b mod 16"
    unfolding split by (simp add: nat_of_bits_bits_be)
qed

lemma pack_bits_be_16: "pack (bits_be 16 v) = [word_of_nat (v div 256), word_of_nat v]"
proof -
  have "bits_be 16 v = bits_be 8 (v div 256) @ bits_be 8 v"
    using bits_be_append [of 8 8 v] by simp
  then show ?thesis
    by (simp add: pack_append pack_bits_be_8)
qed

end
