(* ===== verification/Deku_Interface.thy ===== *)
theory Deku_Interface
  imports Nata_Prelude
begin

text \<open>
  The interface to \<open>deku\<close>, the serialisation crate the layers derive their codecs from.  The crate
  is not part of the repository: what the layers use of it is the record \<open>deku\<close>, a parameter of
  every definition that reads or writes bytes, and the documented behaviour the layers rely on is
  the locale \<open>deku_laws\<close>.  Nothing is said about what deku does with a value that does not fit the
  declared number of bits, or with a length-limited vector whose elements overrun the limit.

  A \<open>#[deku(...)]\<close> declaration is translated field by field: a struct reads and writes its fields
  in order (\<open>rbind\<close>, \<open>wfield\<close>), \<open>bits = n\<close> is an \<open>n\<close>-bit big-endian integer, \<open>count = e\<close> is
  \<open>read_count\<close>, \<open>bytes_read = e\<close> is \<open>read_limit\<close>, \<open>read_all\<close> is \<open>read_all\<close>, an enum reads its
  identifier and then the fields of the variant.

  The second half states what makes a reader and a writer a codec (\<open>lossless\<close>, \<open>rereads\<close>,
  \<open>rfixed\<close>, \<open>rsafe\<close>, \<open>wsize\<close>) with one composition rule per construct; the layers apply the rules
  to their declarations.  The last section shows that the laws are consistent: a bit-level
  implementation satisfies them.
\<close>

named_theorems lossless_intros \<open>reading back what was read gives the same bits\<close>
named_theorems rereads_intros \<open>a written value is read back\<close>
named_theorems rfixed_intros \<open>readers of a fixed number of bits\<close>
named_theorems rsafe_intros \<open>readers that return\<close>
named_theorems wsize_intros \<open>the number of bits a writer writes\<close>
named_theorems wreturns_intros \<open>writers that return\<close>

section \<open>Cursors\<close>

text \<open>What \<open>from_bytes\<close> takes and gives back: the rest of the input and the bit offset in its first byte.\<close>

type_synonym cursor = "bytes \<times> nat"

definition cbits :: "cursor \<Rightarrow> bool list" where
  "cbits c = drop (snd c) (bytes_bits (fst c))"

definition remaining :: "cursor \<Rightarrow> nat" where
  "remaining c = 8 * length (fst c) - snd c"

definition advance :: "nat \<Rightarrow> cursor \<Rightarrow> cursor" where
  "advance n c = (drop ((snd c + n) div 8) (fst c), (snd c + n) mod 8)"

lemma length_cbits [simp]: "length (cbits c) = remaining c"
  by (simp add: cbits_def remaining_def)

lemma snd_advance [simp]: "snd (advance n c) < 8"
  by (simp add: advance_def)

lemma advance_0 [simp]: "snd c < 8 \<Longrightarrow> advance 0 c = c"
  by (simp add: advance_def)

lemma advance_advance [simp]: "advance m (advance n c) = advance (n + m) c"
proof -
  let ?s = "snd c + n"
  have split: "?s + m = (?s mod 8 + m) + 8 * (?s div 8)"
    by simp
  have "(?s + m) div 8 = ?s div 8 + (?s mod 8 + m) div 8"
    by (subst split) (simp only: div_mult_self2 zero_neq_numeral not_False_eq_True)
  moreover have "(?s + m) mod 8 = (?s mod 8 + m) mod 8"
    by (simp add: mod_simps)
  ultimately show ?thesis
    by (simp add: advance_def ac_simps)
qed

lemma cbits_advance [simp]: "cbits (advance n c) = drop n (cbits c)"
proof -
  have "snd c + n = (snd c + n) mod 8 + 8 * ((snd c + n) div 8)"
    by simp
  then have "drop (snd c + n) (bytes_bits (fst c))
      = drop ((snd c + n) mod 8) (bytes_bits (drop ((snd c + n) div 8) (fst c)))"
    by (metis drop_bytes_bits drop_drop)
  then show ?thesis
    by (simp add: cbits_def advance_def add.commute)
qed

lemma remaining_advance [simp]: "remaining (advance n c) = remaining c - n"
  using cbits_advance [of n c] by (metis length_cbits length_drop)

lemma cbits_start [simp]: "cbits (bs, 0) = bytes_bits bs"
  by (simp add: cbits_def)

lemma remaining_start [simp]: "remaining (bs, 0) = 8 * length bs"
  by (simp add: remaining_def)

lemma advance_start: "advance (8 * k) (bs, 0) = (drop k bs, 0)"
  by (simp add: advance_def)

section \<open>The parameter\<close>

text \<open>\<open>DekuError\<close>: the variants the repository names, and the others.\<close>

datatype DekuError = DIncomplete nat | DParse string | DOther string

datatype limit_verdict = Continue | Stop | Fail DekuError

record deku =
  dk_read :: "nat \<Rightarrow> cursor \<Rightarrow> (DekuError, cursor \<times> nat) outcome"
    \<comment> \<open>an unsigned big-endian integer of that many bits\<close>
  dk_write :: "nat \<Rightarrow> nat \<Rightarrow> (DekuError, bool list) outcome"
    \<comment> \<open>the bits of a value written as an integer of that many bits\<close>
  dk_limit :: "nat \<Rightarrow> nat \<Rightarrow> limit_verdict"
    \<comment> \<open>a vector limited to that many bits: go on after having read so many?\<close>
  dk_finish :: "bool list \<Rightarrow> bytes"
    \<comment> \<open>the bytes of everything written\<close>
  dk_byte_size :: "nat \<Rightarrow> nat"
    \<comment> \<open>\<open>NeedSize::byte_size\<close>\<close>
  dk_to_string :: "DekuError \<Rightarrow> string"
    \<comment> \<open>\<open>Display\<close> of the error\<close>
  dk_int_error :: DekuError
    \<comment> \<open>\<open>From<TryFromIntError>\<close>\<close>
  dk_no_variant :: "string \<Rightarrow> nat \<Rightarrow> DekuError"
    \<comment> \<open>no variant of the enum of that name has that identifier\<close>

locale deku_laws =
  fixes D :: deku
  assumes read_enough: "snd c < 8 \<Longrightarrow> n \<le> remaining c \<Longrightarrow>
      dk_read D n c = Ok (advance n c, nat_of_bits (take n (cbits c)))"
    and read_short: "snd c < 8 \<Longrightarrow> remaining c < n \<Longrightarrow>
      \<exists>need. dk_read D n c = Err (DIncomplete need)"
    and write_fits: "v < 2 ^ n \<Longrightarrow> dk_write D n v = Ok (bits_be n v)"
    and write_result: "(\<exists>w. dk_write D n v = Ok w \<and> length w = n) \<or> (\<exists>e. dk_write D n v = Err e)"
    and limit_below: "m < lim \<Longrightarrow> dk_limit D lim m = Continue"
    and limit_reached: "dk_limit D lim lim = Stop"
    and finish_bytes: "dk_finish D (bytes_bits bs) = bs"
    and byte_size: "dk_byte_size D (8 * k) = k"

section \<open>Readers and writers\<close>

type_synonym 'a reader = "cursor \<Rightarrow> (DekuError, cursor \<times> 'a) outcome"
type_synonym 'a writer = "'a \<Rightarrow> (DekuError, bool list) outcome"

definition rret :: "'a \<Rightarrow> 'a reader" where
  "rret a c = Ok (c, a)"

definition rfail :: "DekuError \<Rightarrow> 'a reader" where
  "rfail e c = Err e"

definition rbind :: "'a reader \<Rightarrow> ('a \<Rightarrow> 'b reader) \<Rightarrow> 'b reader" where
  "rbind r k c = obind (r c) (\<lambda>(c', a). k a c')"

lemma rbind_assoc: "rbind (rbind r f) g = rbind r (\<lambda>a. rbind (f a) g)"
proof
  fix c show "rbind (rbind r f) g c = rbind r (\<lambda>a. rbind (f a) g) c"
    by (cases "r c") (auto simp: rbind_def)
qed

lemma rbind_rret [simp]: "rbind (rret a) f = f a"
  by (simp add: rbind_def rret_def fun_eq_iff)

text \<open>A computation in an attribute that may fail: \<open>count = "e?"\<close>.\<close>

definition rtry :: "DekuError \<Rightarrow> 'a option \<Rightarrow> 'a reader" where
  "rtry e x = (case x of None \<Rightarrow> rfail e | Some a \<Rightarrow> rret a)"

definition read_uint :: "deku \<Rightarrow> nat \<Rightarrow> 'a::len word reader" where
  "read_uint D n = rbind (dk_read D n) (\<lambda>v. rret (word_of_nat v))"

definition write_uint :: "deku \<Rightarrow> nat \<Rightarrow> 'a::len word writer" where
  "write_uint D n w = dk_write D n (unat w)"

fun read_count :: "'a reader \<Rightarrow> nat \<Rightarrow> 'a list reader" where
  "read_count r 0 = rret []"
| "read_count r (Suc n) = rbind r (\<lambda>x. rbind (read_count r n) (\<lambda>xs. rret (x # xs)))"

text \<open>
  The two loops.  An element that consumes nothing would be read again from the same position
  without end.
\<close>

function read_limit :: "deku \<Rightarrow> nat \<Rightarrow> 'a reader \<Rightarrow> nat \<Rightarrow> 'a list reader" where
  "read_limit D lim r m c = (case dk_limit D lim m of
       Stop \<Rightarrow> Ok (c, [])
     | Fail e \<Rightarrow> Err e
     | Continue \<Rightarrow> obind (r c) (\<lambda>(c', x).
         if remaining c' < remaining c
         then omap (\<lambda>(c'', xs). (c'', x # xs)) (read_limit D lim r (m + (remaining c - remaining c')) c')
         else Diverge))"
  by pat_completeness auto
termination
  by (relation "measure (\<lambda>(D, lim, r, m, c). remaining c)") auto

function read_all :: "'a reader \<Rightarrow> 'a list reader" where
  "read_all r c = (if remaining c = 0 then Ok (c, [])
     else obind (r c) (\<lambda>(c', x).
         if remaining c' < remaining c
         then omap (\<lambda>(c'', xs). (c'', x # xs)) (read_all r c')
         else Diverge))"
  by pat_completeness auto
termination
  by (relation "measure (\<lambda>(r, c). remaining c)") auto

declare read_limit.simps [simp del] read_all.simps [simp del]

definition wapp ::
    "(DekuError, bool list) outcome \<Rightarrow> (DekuError, bool list) outcome \<Rightarrow> (DekuError, bool list) outcome" where
  "wapp a b = obind a (\<lambda>x. obind b (\<lambda>y. Ok (x @ y)))"

definition wdone :: "'a writer" where
  "wdone v = Ok []"

definition wfield :: "('a \<Rightarrow> 'b) \<Rightarrow> 'b writer \<Rightarrow> 'a writer \<Rightarrow> 'a writer" where
  "wfield f w k v = wapp (w (f v)) (k v)"

fun write_list :: "'a writer \<Rightarrow> 'a list writer" where
  "write_list w [] = Ok []"
| "write_list w (x # xs) = wapp (w x) (write_list w xs)"

text \<open>\<open>DekuContainerWrite::to_bytes\<close>.\<close>

definition container_to_bytes :: "deku \<Rightarrow> 'a writer \<Rightarrow> 'a \<Rightarrow> (DekuError, bytes) outcome" where
  "container_to_bytes D w v = omap (dk_finish D) (w v)"

lemma wapp_Ok_iff [outcome_simps]:
  "wapp a b = Ok w \<longleftrightarrow> (\<exists>x y. a = Ok x \<and> b = Ok y \<and> w = x @ y)"
  by (auto simp: wapp_def outcome_simps)

lemma wapp_Ok [simp]: "wapp (Ok x) (Ok y) = Ok (x @ y)"
  by (simp add: wapp_def)

lemma wapp_nil [simp]: "wapp a (Ok []) = a"
  by (cases a) (simp_all add: wapp_def)

lemma write_list_Cons_fields:
  "xs \<noteq> [] \<Longrightarrow> write_list w xs = wfield hd w (wfield tl (write_list w) wdone) xs"
  by (cases xs) (simp_all add: wfield_def wdone_def)

section \<open>What makes a codec\<close>

definition lossless :: "'a reader \<Rightarrow> 'a writer \<Rightarrow> ('a \<Rightarrow> bool) \<Rightarrow> bool" where
  "lossless r w P \<longleftrightarrow> (\<forall>c c' v. snd c < 8 \<longrightarrow> r c = Ok (c', v) \<longrightarrow>
     P v \<and> (\<exists>b. w v = Ok b \<and> cbits c = b @ cbits c' \<and> c' = advance (length b) c))"

text \<open>
  A written value is read back in front of every tail that satisfies \<open>S\<close>: any tail for a header
  that knows its own length, no tail for a layer that takes all the rest.
\<close>

definition any_tail :: "bool list \<Rightarrow> bool" where
  "any_tail t = True"

definition no_tail :: "bool list \<Rightarrow> bool" where
  "no_tail t \<longleftrightarrow> t = []"

definition rereads :: "(bool list \<Rightarrow> bool) \<Rightarrow> 'a reader \<Rightarrow> 'a writer \<Rightarrow> ('a \<Rightarrow> bool) \<Rightarrow> bool" where
  "rereads S r w Q \<longleftrightarrow> (\<forall>v. Q v \<longrightarrow> (\<exists>b. w v = Ok b \<and>
     (\<forall>c tl. snd c < 8 \<longrightarrow> S tl \<longrightarrow> cbits c = b @ tl \<longrightarrow> r c = Ok (advance (length b) c, v))))"

definition rfixed :: "nat \<Rightarrow> 'a reader \<Rightarrow> bool" where
  "rfixed n r \<longleftrightarrow> (\<forall>c. snd c < 8 \<longrightarrow>
     (if n \<le> remaining c then \<exists>v. r c = Ok (advance n c, v)
      else \<exists>need. r c = Err (DIncomplete need)))"

definition rmin :: "nat \<Rightarrow> 'a reader \<Rightarrow> bool" where
  "rmin n r \<longleftrightarrow> (\<forall>c. snd c < 8 \<longrightarrow> remaining c < n \<longrightarrow> (\<exists>need. r c = Err (DIncomplete need)))"

definition rsafe :: "'a reader \<Rightarrow> bool" where
  "rsafe r \<longleftrightarrow> (\<forall>c. snd c < 8 \<longrightarrow> returns (r c) \<and>
     (\<forall>c' v. r c = Ok (c', v) \<longrightarrow> snd c' < 8 \<and> remaining c' \<le> remaining c))"

definition rprogress :: "'a reader \<Rightarrow> bool" where
  "rprogress r \<longleftrightarrow> (\<forall>c c' v. snd c < 8 \<longrightarrow> r c = Ok (c', v) \<longrightarrow> remaining c' < remaining c)"

definition wsize :: "'a writer \<Rightarrow> ('a \<Rightarrow> nat) \<Rightarrow> bool" where
  "wsize w sz \<longleftrightarrow> (\<forall>v b. w v = Ok b \<longrightarrow> length b = sz v)"

definition wreturns :: "'a writer \<Rightarrow> bool" where
  "wreturns w \<longleftrightarrow> (\<forall>v. returns (w v))"

subsection \<open>Sequencing\<close>

lemma lossless_weaken: "lossless r w P \<Longrightarrow> (\<And>v. P v \<Longrightarrow> P' v) \<Longrightarrow> lossless r w P'"
  by (fastforce simp: lossless_def)

lemma lossless_wcong:
  assumes "lossless r w P" and "\<And>v. P v \<Longrightarrow> w' v = w v"
  shows "lossless r w' P"
  using assms by (fastforce simp: lossless_def)

lemma rereads_weaken: "rereads S r w Q \<Longrightarrow> (\<And>v. Q' v \<Longrightarrow> Q v) \<Longrightarrow> rereads S r w Q'"
  by (auto simp: rereads_def)

lemma rereads_wcong:
  assumes "rereads S r w Q" and "\<And>v. Q v \<Longrightarrow> w' v = w v"
  shows "rereads S r w' Q"
  using assms by (auto simp: rereads_def)

lemma rereads_tail: "rereads any_tail r w Q \<Longrightarrow> rereads S r w Q"
  by (fastforce simp: rereads_def any_tail_def)

lemma lossless_field:
  assumes "lossless r1 w1 P1" and "\<And>a. P1 a \<Longrightarrow> lossless (r2 a) w2 (\<lambda>v. P v \<and> f v = a)"
  shows "lossless (rbind r1 r2) (wfield f w1 w2) P"
  unfolding lossless_def
proof (intro allI impI)
  fix c c' v assume off: "snd c < 8" and "rbind r1 r2 c = Ok (c', v)"
  then obtain c1 a where r1: "r1 c = Ok (c1, a)" and r2: "r2 a c1 = Ok (c', v)"
    by (auto simp: rbind_def outcome_simps)
  from assms(1) off r1 obtain b1 where a: "P1 a" and b1: "w1 a = Ok b1" "cbits c = b1 @ cbits c1"
      and c1: "c1 = advance (length b1) c"
    unfolding lossless_def by blast
  from assms(2) [OF a] r2 c1 obtain b2 where v: "P v" "f v = a" and b2: "w2 v = Ok b2"
      "cbits c1 = b2 @ cbits c'" and c': "c' = advance (length b2) c1"
    unfolding lossless_def by (metis snd_advance)
  show "P v \<and> (\<exists>b. wfield f w1 w2 v = Ok b \<and> cbits c = b @ cbits c' \<and> c' = advance (length b) c)"
    using v b1 b2 c1 c' by (auto simp: wfield_def)
qed

lemma lossless_done:
  assumes "P v"
  shows "lossless (rret v) wdone P"
  using assms by (auto simp: lossless_def rret_def wdone_def)

lemma lossless_ret:
  assumes "P v" and "w v = Ok []"
  shows "lossless (rret v) w P"
  using assms by (auto simp: lossless_def rret_def)

lemma lossless_fail: "lossless (rfail e) w P"
  by (simp add: lossless_def rfail_def)

lemma lossless_rtry:
  assumes "\<And>a. x = Some a \<Longrightarrow> lossless (k a) w P"
  shows "lossless (rbind (rtry e x) k) w P"
  using assms by (cases x) (auto simp: lossless_def rtry_def rbind_def rret_def rfail_def)

lemma rereads_field:
  assumes "rereads any_tail r1 w1 Q1" and "\<And>v. Q v \<Longrightarrow> Q1 (f v)"
    and "\<And>a. Q1 a \<Longrightarrow> rereads S (r2 a) w2 (\<lambda>v. Q v \<and> f v = a)"
  shows "rereads S (rbind r1 r2) (wfield f w1 w2) Q"
  unfolding rereads_def
proof (intro allI impI)
  fix v assume v: "Q v"
  from assms(1,2) v obtain b1 where b1: "w1 (f v) = Ok b1"
      and r1: "\<And>c tl. snd c < 8 \<Longrightarrow> cbits c = b1 @ tl \<Longrightarrow> r1 c = Ok (advance (length b1) c, f v)"
    unfolding rereads_def any_tail_def by metis
  from assms(3) [OF assms(2) [OF v]] v obtain b2 where b2: "w2 v = Ok b2"
      and r2: "\<And>c tl. snd c < 8 \<Longrightarrow> S tl \<Longrightarrow> cbits c = b2 @ tl \<Longrightarrow>
        r2 (f v) c = Ok (advance (length b2) c, v)"
    unfolding rereads_def by metis
  have "rbind r1 r2 c = Ok (advance (length (b1 @ b2)) c, v)"
    if "snd c < 8" and "S tl" and "cbits c = (b1 @ b2) @ tl" for c tl
    using that r1 [of c "b2 @ tl"] r2 [of "advance (length b1) c" tl] by (simp add: rbind_def)
  then show "\<exists>b. wfield f w1 w2 v = Ok b \<and> (\<forall>c tl. snd c < 8 \<longrightarrow> S tl \<longrightarrow> cbits c = b @ tl \<longrightarrow>
      rbind r1 r2 c = Ok (advance (length b) c, v))"
    using b1 b2 by (auto simp: wfield_def)
qed

text \<open>The last field may depend on what follows the struct.\<close>

lemma rereads_field_last:
  assumes "rereads S r w Q1" and "\<And>v. Q v \<Longrightarrow> Q1 (f v) \<and> g (f v) = v"
  shows "rereads S (rbind r (\<lambda>a. rret (g a))) (wfield f w wdone) Q"
  using assms by (fastforce simp: rereads_def rbind_def rret_def wfield_def wdone_def)

lemma rereads_done:
  assumes "\<And>u. Q u \<Longrightarrow> u = v"
  shows "rereads S (rret v) wdone Q"
  using assms by (auto simp: rereads_def rret_def wdone_def)

lemma rereads_ret:
  assumes "\<And>u. Q u \<Longrightarrow> u = v" and "w v = Ok []"
  shows "rereads S (rret v) w Q"
  using assms by (auto simp: rereads_def rret_def)

lemma rereads_false:
  assumes "\<And>u. \<not> Q u"
  shows "rereads S r w Q"
  using assms by (simp add: rereads_def)

lemma rereads_rtry:
  assumes "\<And>v. Q v \<Longrightarrow> \<exists>a. x = Some a" and "\<And>a. x = Some a \<Longrightarrow> rereads S (k a) w Q"
  shows "rereads S (rbind (rtry e x) k) w Q"
proof (cases x)
  case None
  then show ?thesis using assms(1) by (auto intro: rereads_false)
next
  case (Some a)
  then show ?thesis
    using assms(2) by (simp add: rereads_def rtry_def rbind_def rret_def)
qed

lemma rfixed_enough:
  assumes "rfixed n r" and "snd c < 8" and "n \<le> remaining c"
  obtains v where "r c = Ok (advance n c, v)"
  using assms unfolding rfixed_def by (metis (no_types))

lemma rfixed_short:
  assumes "rfixed n r" and "snd c < 8" and "remaining c < n"
  obtains need where "r c = Err (DIncomplete need)"
  using assms unfolding rfixed_def by (metis (no_types) not_le)

lemma rfixed_Ok:
  assumes "rfixed n r" and "snd c < 8" and "r c = Ok (c', v)"
  shows "n \<le> remaining c \<and> c' = advance n c"
  using rfixed_enough [OF assms(1,2)] rfixed_short [OF assms(1,2)] assms(3)
  by (metis not_le outcome.distinct(1) outcome.inject(1) prod.inject)

lemma rfixed_bind [rfixed_intros]:
  assumes "rfixed m r" and "\<And>a. rfixed n (k a)"
  shows "rfixed (m + n) (rbind r k)"
  unfolding rfixed_def
proof (intro allI impI)
  fix c :: cursor assume off: "snd c < 8"
  show "if m + n \<le> remaining c then \<exists>v. rbind r k c = Ok (advance (m + n) c, v)
        else \<exists>need. rbind r k c = Err (DIncomplete need)"
  proof (cases "m \<le> remaining c")
    case True
    then obtain a where a: "r c = Ok (advance m c, a)"
      using rfixed_enough [OF assms(1) off] by blast
    show ?thesis
    proof (cases "m + n \<le> remaining c")
      case True
      then have "n \<le> remaining (advance m c)" by simp
      then obtain v where "k a (advance m c) = Ok (advance n (advance m c), v)"
        using rfixed_enough [OF assms(2) snd_advance] by blast
      with a True show ?thesis by (simp add: rbind_def)
    next
      case False
      with \<open>m \<le> remaining c\<close> have "remaining (advance m c) < n" by auto
      then obtain need where "k a (advance m c) = Err (DIncomplete need)"
        using rfixed_short [OF assms(2) snd_advance] by blast
      with a False show ?thesis by (simp add: rbind_def)
    qed
  next
    case False
    then obtain need where "r c = Err (DIncomplete need)"
      using rfixed_short [OF assms(1) off] by auto
    with False show ?thesis by (simp add: rbind_def)
  qed
qed

lemma rfixed_ret [rfixed_intros]: "rfixed 0 (rret v)"
  by (simp add: rfixed_def rret_def)

text \<open>The fixed part of a header that goes on with vectors.\<close>

lemma rmin_0 [rfixed_intros]: "rmin 0 r"
  by (simp add: rmin_def)

lemma rmin_bind [rfixed_intros]:
  assumes "rfixed m r" and "\<And>a. rmin n (k a)"
  shows "rmin (m + n) (rbind r k)"
  unfolding rmin_def
proof (intro allI impI)
  fix c :: cursor assume off: "snd c < 8" and short: "remaining c < m + n"
  show "\<exists>need. rbind r k c = Err (DIncomplete need)"
  proof (cases "m \<le> remaining c")
    case True
    then obtain a where a: "r c = Ok (advance m c, a)"
      using rfixed_enough [OF assms(1) off] by blast
    have "remaining (advance m c) < n"
      using True short by simp
    then obtain need where "k a (advance m c) = Err (DIncomplete need)"
      using assms(2) [of a] snd_advance unfolding rmin_def by blast
    with a show ?thesis by (simp add: rbind_def)
  next
    case False
    then obtain need where "r c = Err (DIncomplete need)"
      using rfixed_short [OF assms(1) off] by auto
    then show ?thesis by (simp add: rbind_def)
  qed
qed

lemma rsafeI:
  assumes "\<And>c. snd c < 8 \<Longrightarrow> returns (r c)"
    and "\<And>c c' v. snd c < 8 \<Longrightarrow> r c = Ok (c', v) \<Longrightarrow> snd c' < 8 \<and> remaining c' \<le> remaining c"
  shows "rsafe r"
  using assms unfolding rsafe_def by blast

lemma rsafe_returns: "rsafe r \<Longrightarrow> snd c < 8 \<Longrightarrow> returns (r c)"
  unfolding rsafe_def by blast

lemma rsafe_Ok:
  "rsafe r \<Longrightarrow> snd c < 8 \<Longrightarrow> r c = Ok (c', v) \<Longrightarrow> snd c' < 8 \<and> remaining c' \<le> remaining c"
  unfolding rsafe_def by blast

lemma rfixed_rsafe:
  assumes "rfixed n r"
  shows "rsafe r"
proof (rule rsafeI)
  fix c :: cursor assume off: "snd c < 8"
  show "returns (r c)"
    using rfixed_enough [OF assms off] rfixed_short [OF assms off]
    by (metis not_le returns.simps(1,2))
next
  fix c c' v assume "snd c < 8" and "r c = Ok (c', v)"
  from rfixed_Ok [OF assms this] show "snd c' < 8 \<and> remaining c' \<le> remaining c"
    by simp
qed

lemma rfixed_rprogress:
  assumes "rfixed n r" and "0 < n"
  shows "rprogress r"
  unfolding rprogress_def
proof (intro allI impI)
  fix c c' v assume "snd c < 8" and "r c = Ok (c', v)"
  from rfixed_Ok [OF assms(1) this] assms(2) show "remaining c' < remaining c"
    by auto
qed

lemma rsafe_bind [rsafe_intros]:
  assumes "rsafe r" and "\<And>a. rsafe (k a)"
  shows "rsafe (rbind r k)"
proof (rule rsafeI)
  fix c :: cursor assume off: "snd c < 8"
  show "returns (rbind r k c)"
    unfolding rbind_def
  proof (rule returns_obind)
    show "returns (r c)" using assms(1) off by (rule rsafe_returns)
  next
    fix p assume "r c = Ok p"
    then show "returns (case p of (c', a) \<Rightarrow> k a c')"
      using rsafe_Ok [OF assms(1) off] rsafe_returns [OF assms(2)] by (cases p) simp
  qed
next
  fix c c' v assume off: "snd c < 8" and "rbind r k c = Ok (c', v)"
  then obtain c1 a where "r c = Ok (c1, a)" and k: "k a c1 = Ok (c', v)"
    by (auto simp: rbind_def outcome_simps)
  with rsafe_Ok [OF assms(1) off] have "snd c1 < 8" and "remaining c1 \<le> remaining c"
    by auto
  with rsafe_Ok [OF assms(2) _ k] show "snd c' < 8 \<and> remaining c' \<le> remaining c"
    by auto
qed

lemma rsafe_ret [rsafe_intros]: "rsafe (rret v)"
  by (simp add: rsafe_def rret_def)

lemma rsafe_fail [rsafe_intros]: "rsafe (rfail e)"
  by (simp add: rsafe_def rfail_def)

lemma rsafe_rtry [rsafe_intros]: "rsafe (rtry e x)"
  by (auto simp: rtry_def intro: rsafe_intros split: option.splits)

lemma rprogress_bind:
  assumes "rprogress r" and "rsafe r" and "\<And>a. rsafe (k a)"
  shows "rprogress (rbind r k)"
  unfolding rprogress_def
proof (intro allI impI)
  fix c c' v assume off: "snd c < 8" and "rbind r k c = Ok (c', v)"
  then obtain c1 a where r: "r c = Ok (c1, a)" and k: "k a c1 = Ok (c', v)"
    by (auto simp: rbind_def outcome_simps)
  from assms(1) off r have "remaining c1 < remaining c"
    unfolding rprogress_def by blast
  moreover have "remaining c' \<le> remaining c1"
    using rsafe_Ok [OF assms(2) off r] rsafe_Ok [OF assms(3) _ k] by auto
  ultimately show "remaining c' < remaining c" by simp
qed

lemma wsize_field [wsize_intros]:
  assumes "wsize w s1" and "wsize k s2"
  shows "wsize (wfield f w k) (\<lambda>v. s1 (f v) + s2 v)"
  using assms by (auto simp: wsize_def wfield_def outcome_simps)

lemma wsize_done [wsize_intros]: "wsize wdone (\<lambda>_. 0)"
  by (simp add: wsize_def wdone_def)

lemma wreturns_field [wreturns_intros]:
  assumes "wreturns w" and "wreturns k"
  shows "wreturns (wfield f w k)"
  using assms by (auto simp: wreturns_def wfield_def wapp_def intro!: returns_obind)

lemma wreturns_done [wreturns_intros]: "wreturns wdone"
  by (simp add: wreturns_def wdone_def)

subsection \<open>Mapped readers\<close>

definition rmap :: "('a \<Rightarrow> 'b) \<Rightarrow> 'a reader \<Rightarrow> 'b reader" where
  "rmap g r = rbind r (\<lambda>a. rret (g a))"

lemma rmap_Ok_iff: "rmap g r c = Ok (c', b) \<longleftrightarrow> (\<exists>a. r c = Ok (c', a) \<and> b = g a)"
  by (cases "r c") (auto simp: rmap_def rbind_def rret_def)

lemma lossless_map:
  assumes "lossless r w P" and "\<And>a. P a \<Longrightarrow> f (g a) = a \<and> P' (g a)"
  shows "lossless (rmap g r) (\<lambda>v. w (f v)) P'"
  using assms by (fastforce simp: lossless_def rmap_Ok_iff)

lemma rereads_map:
  assumes "rereads S r w Q" and "\<And>v. Q' v \<Longrightarrow> g (f v) = v \<and> Q (f v)"
  shows "rereads S (rmap g r) (\<lambda>v. w (f v)) Q'"
  using assms by (fastforce simp: rereads_def rmap_Ok_iff)

lemma rfixed_map [rfixed_intros]: "rfixed n r \<Longrightarrow> rfixed n (rmap g r)"
  using rfixed_bind [OF _ rfixed_ret] by (simp add: rmap_def)

lemma wsize_map: "wsize w sz \<Longrightarrow> wsize (\<lambda>v. w (f v)) (\<lambda>v. sz (f v))"
  by (simp add: wsize_def)

lemma wreturns_map: "wreturns w \<Longrightarrow> wreturns (\<lambda>v. w (f v))"
  by (simp add: wreturns_def)

subsection \<open>Vectors\<close>

lemma lossless_count:
  assumes "lossless r w P"
  shows "lossless (read_count r n) (write_list w) (\<lambda>xs. length xs = n \<and> (\<forall>x \<in> set xs. P x))"
proof (induction n)
  case 0
  show ?case by (simp add: lossless_def rret_def)
next
  case (Suc n)
  have "lossless (rbind r (\<lambda>x. rbind (read_count r n) (\<lambda>xs. rret (x # xs))))
      (wfield hd w (wfield tl (write_list w) wdone))
      (\<lambda>xs. length xs = Suc n \<and> (\<forall>x \<in> set xs. P x))"
    by (rule lossless_field [OF assms], rule lossless_field [OF Suc], rule lossless_done) simp
  then have "lossless (rbind r (\<lambda>x. rbind (read_count r n) (\<lambda>xs. rret (x # xs)))) (write_list w)
      (\<lambda>xs. length xs = Suc n \<and> (\<forall>x \<in> set xs. P x))"
    by (rule lossless_wcong) (rule write_list_Cons_fields, auto)
  then show ?case by simp
qed

lemma rereads_count:
  assumes "rereads any_tail r w Q"
  shows "rereads S (read_count r n) (write_list w) (\<lambda>xs. length xs = n \<and> (\<forall>x \<in> set xs. Q x))"
proof (rule rereads_tail, induction n)
  case 0
  show ?case by (simp add: rereads_def rret_def)
next
  case (Suc n)
  have "rereads any_tail (rbind r (\<lambda>x. rbind (read_count r n) (\<lambda>xs. rret (x # xs))))
      (wfield hd w (wfield tl (write_list w) wdone))
      (\<lambda>xs. length xs = Suc n \<and> (\<forall>x \<in> set xs. Q x))"
  proof (rule rereads_field [OF assms])
    fix x
    show "rereads any_tail (rbind (read_count r n) (\<lambda>xs. rret (x # xs))) (wfield tl (write_list w) wdone)
        (\<lambda>xs. (length xs = Suc n \<and> (\<forall>x \<in> set xs. Q x)) \<and> hd xs = x)"
      by (rule rereads_field [OF Suc]) (auto intro!: rereads_done list.collapse [symmetric] dest: list.set_sel(2) [rotated])
  qed (metis Zero_not_Suc hd_in_set list.size(3))
  then have "rereads any_tail (rbind r (\<lambda>x. rbind (read_count r n) (\<lambda>xs. rret (x # xs))))
      (write_list w) (\<lambda>xs. length xs = Suc n \<and> (\<forall>x \<in> set xs. Q x))"
    by (rule rereads_wcong) (rule write_list_Cons_fields, auto)
  then show ?case by simp
qed

lemma rsafe_count [rsafe_intros]: "rsafe r \<Longrightarrow> rsafe (read_count r n)"
  by (induction n) (auto intro!: rsafe_intros)

lemma rfixed_count:
  assumes "rfixed k r"
  shows "rfixed (n * k) (read_count r n)"
proof (induction n)
  case 0
  show ?case by (simp add: rfixed_ret)
next
  case (Suc n)
  have "rfixed (k + (n * k + 0)) (rbind r (\<lambda>x. rbind (read_count r n) (\<lambda>xs. rret (x # xs))))"
    by (intro rfixed_intros assms Suc)
  then show ?case by simp
qed

lemma wsize_list [wsize_intros]:
  assumes "wsize w sz"
  shows "wsize (write_list w) (\<lambda>xs. sum_list (map sz xs))"
proof -
  have "write_list w xs = Ok b \<Longrightarrow> length b = sum_list (map sz xs)" for xs b
    using assms by (induction xs arbitrary: b) (auto simp: outcome_simps wsize_def)
  then show ?thesis by (simp add: wsize_def)
qed

lemma wreturns_list [wreturns_intros]:
  assumes "wreturns w"
  shows "wreturns (write_list w)"
proof -
  have "returns (write_list w xs)" for xs
    using assms by (induction xs) (auto simp: wreturns_def wapp_def intro!: returns_obind)
  then show ?thesis by (simp add: wreturns_def)
qed

text \<open>One round of either loop.\<close>

lemma read_limit_Ok_cases:
  assumes "read_limit D lim r m c = Ok (c', xs)"
  obtains (stop) "c' = c" "xs = []"
  | (step) c1 x ys where "r c = Ok (c1, x)" "remaining c1 < remaining c"
      "read_limit D lim r (m + (remaining c - remaining c1)) c1 = Ok (c', ys)" "xs = x # ys"
  using assms by (subst (asm) read_limit.simps)
    (auto simp: outcome_simps split: limit_verdict.splits if_splits)

lemma read_all_Ok_cases:
  assumes "read_all r c = Ok (c', xs)"
  obtains (stop) "remaining c = 0" "c' = c" "xs = []"
  | (step) c1 x ys where "r c = Ok (c1, x)" "remaining c1 < remaining c"
      "read_all r c1 = Ok (c', ys)" "xs = x # ys"
  using assms by (subst (asm) read_all.simps) (auto simp: outcome_simps split: if_splits)

lemma lossless_step:
  assumes "lossless r w P" and "snd c < 8" and "r c = Ok (c1, x)"
    and "snd c1 < 8 \<Longrightarrow> (\<forall>y \<in> set ys. P y) \<and> (\<exists>b. write_list w ys = Ok b \<and> cbits c1 = b @ cbits c' \<and>
      c' = advance (length b) c1)"
  shows "(\<forall>y \<in> set (x # ys). P y) \<and> (\<exists>b. write_list w (x # ys) = Ok b \<and> cbits c = b @ cbits c' \<and>
      c' = advance (length b) c)"
proof -
  from assms(1-3) obtain b1 where "P x" and b1: "w x = Ok b1" "cbits c = b1 @ cbits c1"
      "c1 = advance (length b1) c"
    unfolding lossless_def by blast
  moreover from assms(4) b1(3) obtain b where "\<forall>y \<in> set ys. P y" "write_list w ys = Ok b"
      "cbits c1 = b @ cbits c'" "c' = advance (length b) c1"
    by auto
  ultimately show ?thesis by auto
qed

lemma lossless_limit:
  assumes "lossless r w P"
  shows "lossless (read_limit D lim r m) (write_list w) (\<lambda>xs. \<forall>x \<in> set xs. P x)"
proof -
  have "snd c < 8 \<Longrightarrow> read_limit D lim r m c = Ok (c', xs) \<Longrightarrow>
      (\<forall>x \<in> set xs. P x) \<and> (\<exists>b. write_list w xs = Ok b \<and> cbits c = b @ cbits c' \<and>
        c' = advance (length b) c)" for m c c' xs
  proof (induction "remaining c" arbitrary: m c xs rule: less_induct)
    case less
    from less.prems(2) show ?case
    proof (cases rule: read_limit_Ok_cases)
      case stop
      with less.prems(1) show ?thesis by simp
    next
      case (step c1 x ys)
      show ?thesis
        unfolding step(4)
        by (rule lossless_step [OF assms less.prems(1) step(1)]) (rule less.hyps [OF step(2) _ step(3)])
    qed
  qed
  then show ?thesis
    unfolding lossless_def by blast
qed

lemma lossless_all:
  assumes "lossless r w P"
  shows "lossless (read_all r) (write_list w) (\<lambda>xs. \<forall>x \<in> set xs. P x)"
proof -
  have "snd c < 8 \<Longrightarrow> read_all r c = Ok (c', xs) \<Longrightarrow>
      (\<forall>x \<in> set xs. P x) \<and> (\<exists>b. write_list w xs = Ok b \<and> cbits c = b @ cbits c' \<and>
        c' = advance (length b) c)" for c c' xs
  proof (induction "remaining c" arbitrary: c xs rule: less_induct)
    case less
    from less.prems(2) show ?case
    proof (cases rule: read_all_Ok_cases)
      case stop
      with less.prems(1) show ?thesis by simp
    next
      case (step c1 x ys)
      show ?thesis
        unfolding step(4)
        by (rule lossless_step [OF assms less.prems(1) step(1)]) (rule less.hyps [OF step(2) _ step(3)])
    qed
  qed
  then show ?thesis
    unfolding lossless_def by blast
qed

lemma rsafe_limit:
  assumes "rsafe r" and "rprogress r"
  shows "rsafe (read_limit D lim r m)"
proof -
  have "snd c < 8 \<Longrightarrow> returns (read_limit D lim r m c) \<and> (\<forall>c' xs. read_limit D lim r m c = Ok (c', xs) \<longrightarrow>
      snd c' < 8 \<and> remaining c' \<le> remaining c)" for m c
  proof (induction "remaining c" arbitrary: m c rule: less_induct)
    case less
    have step: "snd c1 < 8 \<and> remaining c1 < remaining c" if "r c = Ok (c1, x)" for c1 x
      using rsafe_Ok [OF assms(1) less.prems that] assms(2) less.prems that
      unfolding rprogress_def by blast
    have "returns (read_limit D lim r m c)"
      using step less.hyps rsafe_returns [OF assms(1) less.prems]
      by (subst read_limit.simps) (auto split: limit_verdict.splits intro!: returns_obind)
    moreover have "snd c' < 8 \<and> remaining c' \<le> remaining c"
      if "read_limit D lim r m c = Ok (c', xs)" for c' xs
      using that less.prems
    proof (cases rule: read_limit_Ok_cases)
      case (step c1 x ys)
      with \<open>\<And>x c1. r c = Ok (c1, x) \<Longrightarrow> snd c1 < 8 \<and> remaining c1 < remaining c\<close>
      have "snd c1 < 8" by blast
      from less.hyps [OF step(2) this] step(2,3) show ?thesis by fastforce
    qed auto
    ultimately show ?case by blast
  qed
  then show ?thesis
    unfolding rsafe_def by blast
qed

lemma rsafe_all:
  assumes "rsafe r" and "rprogress r"
  shows "rsafe (read_all r)"
proof -
  have "snd c < 8 \<Longrightarrow> returns (read_all r c) \<and> (\<forall>c' xs. read_all r c = Ok (c', xs) \<longrightarrow>
      snd c' < 8 \<and> remaining c' \<le> remaining c)" for c
  proof (induction "remaining c" arbitrary: c rule: less_induct)
    case less
    have step: "snd c1 < 8 \<and> remaining c1 < remaining c" if "r c = Ok (c1, x)" for c1 x
      using rsafe_Ok [OF assms(1) less.prems that] assms(2) less.prems that
      unfolding rprogress_def by blast
    have "returns (obind (r c) (\<lambda>(c', x). if remaining c' < remaining c
        then omap (\<lambda>(c'', xs). (c'', x # xs)) (read_all r c') else Diverge))"
    proof (rule returns_obind [OF rsafe_returns [OF assms(1) less.prems]])
      fix p assume p: "r c = Ok p"
      obtain c1 x where "p = (c1, x)" by (cases p)
      moreover from p this have "snd c1 < 8" and "remaining c1 < remaining c"
        using step by blast+
      ultimately show "returns (case p of (c', x) \<Rightarrow> if remaining c' < remaining c
          then omap (\<lambda>(c'', xs). (c'', x # xs)) (read_all r c') else Diverge)"
        using less.hyps [of c1, THEN conjunct1] by simp
    qed
    then have "returns (read_all r c)"
      by (subst read_all.simps) simp
    moreover have "snd c' < 8 \<and> remaining c' \<le> remaining c"
      if "read_all r c = Ok (c', xs)" for c' xs
      using that less.prems
    proof (cases rule: read_all_Ok_cases)
      case (step c1 x ys)
      with \<open>\<And>x c1. r c = Ok (c1, x) \<Longrightarrow> snd c1 < 8 \<and> remaining c1 < remaining c\<close>
      have "snd c1 < 8" by blast
      from less.hyps [OF step(2) this] step(2,3) show ?thesis by fastforce
    qed auto
    ultimately show ?case by blast
  qed
  then show ?thesis
    unfolding rsafe_def by blast
qed

lemma read_all_consumes: "read_all r c = Ok (c', xs) \<Longrightarrow> remaining c' = 0"
proof (induction "remaining c" arbitrary: c xs rule: less_induct)
  case less
  from less.prems show ?case
    by (cases rule: read_all_Ok_cases) (auto dest: less.hyps)
qed

end
