(* ===== verification/Deku_Codec.thy ===== *)
theory Deku_Codec
  imports Deku_Interface
begin

text \<open>
  What follows from the laws of deku for the primitive codecs (integers of a number of bits,
  byte vectors with a count, a limit or the whole rest), and a bit-level implementation of the
  interface that satisfies the laws.
\<close>

lemma unat_less_width [simp]:
  "unat (a :: u8) < 256" "unat (b :: u16) < 65536" "unat (d :: u32) < 4294967296"
  "unat (x :: u128) < 340282366920938463463374607431768211456"
  using unsigned_less [of a] unsigned_less [of b] unsigned_less [of d] unsigned_less [of x] by simp_all

lemma unat_word_of_nat_small:
  assumes "v < 2 ^ n" and "n \<le> LENGTH('a::len)"
  shows "unat (word_of_nat v :: 'a word) = v"
proof -
  have "v < 2 ^ LENGTH('a)"
    using assms by (meson less_le_trans one_le_numeral power_increasing)
  then show ?thesis
    by (simp add: unat_of_nat)
qed

context deku_laws
begin

lemma lossless_uint:
  assumes "n \<le> LENGTH('a::len)"
  shows "lossless (read_uint D n) (write_uint D n) (\<lambda>w :: 'a word. unat w < 2 ^ n)"
  unfolding lossless_def
proof (intro allI impI)
  fix c c' and v :: "'a word"
  assume off: "snd c < 8" and rd: "read_uint D n c = Ok (c', v)"
  have enough: "n \<le> remaining c"
    using rd read_short [OF off, of n] by (fastforce simp: read_uint_def rbind_def)
  let ?v = "nat_of_bits (take n (cbits c))"
  have v: "v = word_of_nat ?v" and c': "c' = advance n c"
    using rd read_enough [OF off enough] by (auto simp: read_uint_def rbind_def rret_def)
  have less: "?v < 2 ^ n"
    using nat_of_bits_less [of "take n (cbits c)"] enough by simp
  have "bits_be n ?v = take n (cbits c)"
    using bits_be_nat_of_bits [of "take n (cbits c)"] enough by simp
  with less show "unat v < 2 ^ n \<and>
      (\<exists>b. write_uint D n v = Ok b \<and> cbits c = b @ cbits c' \<and> c' = advance (length b) c)"
    using v c' enough assms by (simp add: unat_word_of_nat_small write_uint_def write_fits)
qed

lemma rereads_uint:
  assumes "n \<le> LENGTH('a::len)"
  shows "rereads any_tail (read_uint D n) (write_uint D n) (\<lambda>w :: 'a word. unat w < 2 ^ n)"
  unfolding rereads_def
proof (intro allI impI)
  fix v :: "'a word" assume v: "unat v < 2 ^ n"
  have "read_uint D n c = Ok (advance n c, v)"
    if "snd c < 8" and "cbits c = bits_be n (unat v) @ t" for c t
  proof -
    have "n \<le> remaining c"
      using arg_cong [OF that(2), of length] by simp
    with that v show ?thesis
      by (simp add: read_uint_def rbind_def rret_def read_enough bits_simps)
  qed
  with v show "\<exists>b. write_uint D n v = Ok b \<and> (\<forall>c tl. snd c < 8 \<longrightarrow> any_tail tl \<longrightarrow> cbits c = b @ tl \<longrightarrow>
      read_uint D n c = Ok (advance (length b) c, v))"
    by (simp add: write_uint_def write_fits)
qed

lemma rfixed_uint [rfixed_intros]: "rfixed n (read_uint D n)"
  unfolding rfixed_def
proof (intro allI impI)
  fix c :: cursor assume off: "snd c < 8"
  show "if n \<le> remaining c then \<exists>v. read_uint D n c = Ok (advance n c, v)
        else \<exists>need. read_uint D n c = Err (DIncomplete need)"
    using read_enough [OF off, of n] read_short [OF off, of n]
    by (cases "n \<le> remaining c") (auto simp: read_uint_def rbind_def rret_def)
qed

lemma rsafe_uint [rsafe_intros]: "rsafe (read_uint D n)"
  by (rule rfixed_rsafe [OF rfixed_uint])

lemma rprogress_uint: "0 < n \<Longrightarrow> rprogress (read_uint D n)"
  by (rule rfixed_rprogress [OF rfixed_uint])

lemma wsize_uint [wsize_intros]: "wsize (write_uint D n) (\<lambda>_. n)"
  using write_result unfolding wsize_def write_uint_def
  by (metis outcome.distinct(1) outcome.inject(1))

lemma wreturns_uint [wreturns_intros]: "wreturns (write_uint D n)"
  using write_result unfolding wreturns_def write_uint_def by (metis returns.simps(1,2))

lemma read_uint_enough:
  assumes "snd c < 8" and "n \<le> remaining c"
  shows "read_uint D n c = Ok (advance n c, word_of_nat (nat_of_bits (take n (cbits c))))"
  using read_enough [OF assms] by (simp add: read_uint_def rbind_def rret_def)

text \<open>Full-width integers.\<close>

lemma lossless_u8: "lossless (read_uint D 8) (write_uint D 8) (\<lambda>w :: u8. True)"
  by (rule lossless_weaken [OF lossless_uint]) simp_all

lemma lossless_u16: "lossless (read_uint D 16) (write_uint D 16) (\<lambda>w :: u16. True)"
  by (rule lossless_weaken [OF lossless_uint]) simp_all

lemma lossless_u32: "lossless (read_uint D 32) (write_uint D 32) (\<lambda>w :: u32. True)"
  by (rule lossless_weaken [OF lossless_uint]) simp_all

lemma lossless_u128: "lossless (read_uint D 128) (write_uint D 128) (\<lambda>w :: u128. True)"
  by (rule lossless_weaken [OF lossless_uint]) simp_all

lemma rereads_u8: "rereads any_tail (read_uint D 8) (write_uint D 8) (\<lambda>w :: u8. True)"
  by (rule rereads_weaken [OF rereads_uint]) simp_all

lemma rereads_u16: "rereads any_tail (read_uint D 16) (write_uint D 16) (\<lambda>w :: u16. True)"
  by (rule rereads_weaken [OF rereads_uint]) simp_all

lemma rereads_u32: "rereads any_tail (read_uint D 32) (write_uint D 32) (\<lambda>w :: u32. True)"
  by (rule rereads_weaken [OF rereads_uint]) simp_all

lemma rereads_u128: "rereads any_tail (read_uint D 128) (write_uint D 128) (\<lambda>w :: u128. True)"
  by (rule rereads_weaken [OF rereads_uint]) simp_all

text \<open>A vector limited to exactly the size of its elements is read back.\<close>

lemma read_limit_exact:
  assumes re: "rereads any_tail r w Q" and sz: "wsize w sz" and pos: "\<And>x. Q x \<Longrightarrow> 0 < sz x"
  shows "\<forall>x \<in> set xs. Q x \<Longrightarrow> m + sum_list (map sz xs) = lim \<Longrightarrow>
    \<exists>b. write_list w xs = Ok b \<and> length b = sum_list (map sz xs) \<and> (\<forall>c tl. snd c < 8 \<longrightarrow> cbits c = b @ tl \<longrightarrow>
      read_limit D lim r m c = Ok (advance (length b) c, xs))"
proof (induction xs arbitrary: m)
  case Nil
  then show ?case
    by (auto simp: read_limit.simps limit_reached)
next
  case (Cons x xs)
  from Cons.prems(1) re obtain b1 where b1: "w x = Ok b1"
      and r1: "\<And>c t. snd c < 8 \<Longrightarrow> cbits c = b1 @ t \<Longrightarrow> r c = Ok (advance (length b1) c, x)"
    unfolding rereads_def any_tail_def by (metis list.set_intros(1))
  have len1: "length b1 = sz x" and pos1: "0 < sz x"
    using sz b1 pos Cons.prems(1) unfolding wsize_def by auto
  from Cons.IH [of "m + sz x"] Cons.prems obtain b2 where b2: "write_list w xs = Ok b2"
      and len2: "length b2 = sum_list (map sz xs)"
      and r2: "\<And>c t. snd c < 8 \<Longrightarrow> cbits c = b2 @ t \<Longrightarrow>
        read_limit D lim r (m + sz x) c = Ok (advance (length b2) c, xs)"
    by (auto simp: add.assoc)
  have "read_limit D lim r m c = Ok (advance (length (b1 @ b2)) c, x # xs)"
    if off: "snd c < 8" and c: "cbits c = (b1 @ b2) @ t" for c t
  proof -
    have rem: "sz x \<le> remaining c"
      using arg_cong [OF c, of length] len1 by simp
    have "dk_limit D lim m = Continue"
      using Cons.prems(2) pos1 by (simp add: limit_below)
    moreover have "r c = Ok (advance (sz x) c, x)"
      using r1 [of c "b2 @ t"] off c len1 by simp
    moreover have "read_limit D lim r (m + sz x) (advance (sz x) c) = Ok (advance (length b2) (advance (sz x) c), xs)"
      using r2 [of "advance (sz x) c" t] c len1 by simp
    ultimately show ?thesis
      using rem pos1 len1 by (subst read_limit.simps) simp
  qed
  with b1 b2 len1 len2 show ?case by auto
qed

lemma rereads_limit:
  assumes "rereads any_tail r w Q" and "wsize w sz" and "\<And>x. Q x \<Longrightarrow> 0 < sz x"
  shows "rereads S (read_limit D lim r 0) (write_list w)
    (\<lambda>xs. (\<forall>x \<in> set xs. Q x) \<and> sum_list (map sz xs) = lim)"
  unfolding rereads_def
proof (intro allI impI)
  fix xs assume "(\<forall>x \<in> set xs. Q x) \<and> sum_list (map sz xs) = lim"
  then show "\<exists>b. write_list w xs = Ok b \<and> (\<forall>c tl. snd c < 8 \<longrightarrow> S tl \<longrightarrow> cbits c = b @ tl \<longrightarrow>
      read_limit D lim r 0 c = Ok (advance (length b) c, xs))"
    using read_limit_exact [OF assms, of xs 0 lim] by auto
qed

text \<open>A vector limited to no bits is empty.\<close>

lemma read_limit_0 [simp]: "read_limit D 0 r 0 = rret []"
  using limit_reached [of 0] by (simp add: fun_eq_iff read_limit.simps rret_def)

lemma lossless_limit_nil:
  assumes "lossless r w P"
  shows "lossless (read_limit D lim r 0) (write_list w) (\<lambda>xs. (\<forall>x \<in> set xs. P x) \<and> (lim = 0 \<longrightarrow> xs = []))"
proof (cases "lim = 0")
  case True
  then show ?thesis by (auto intro: lossless_ret)
next
  case False
  with lossless_limit [OF assms] show ?thesis by simp
qed

text \<open>A vector that takes all the rest is read back when nothing follows it.\<close>

lemma rereads_all:
  assumes re: "rereads any_tail r w Q" and sz: "wsize w sz" and pos: "\<And>x. Q x \<Longrightarrow> 0 < sz x"
  shows "rereads no_tail (read_all r) (write_list w) (\<lambda>xs. \<forall>x \<in> set xs. Q x)"
proof -
  have "\<forall>x \<in> set xs. Q x \<Longrightarrow> \<exists>b. write_list w xs = Ok b \<and> (\<forall>c. snd c < 8 \<longrightarrow> cbits c = b \<longrightarrow>
      read_all r c = Ok (advance (length b) c, xs))" for xs
  proof (induction xs)
    case Nil
    have "read_all r c = Ok (c, [])" if "cbits c = []" for c
      using arg_cong [OF that, of length] by (simp add: read_all.simps)
    then show ?case by simp
  next
    case (Cons x xs)
    from Cons.prems re obtain b1 where b1: "w x = Ok b1"
        and r1: "\<And>c t. snd c < 8 \<Longrightarrow> cbits c = b1 @ t \<Longrightarrow> r c = Ok (advance (length b1) c, x)"
      unfolding rereads_def any_tail_def by (metis list.set_intros(1))
    have pos1: "0 < length b1"
      using sz b1 pos Cons.prems unfolding wsize_def by auto
    from Cons obtain b2 where b2: "write_list w xs = Ok b2"
        and r2: "\<And>c. snd c < 8 \<Longrightarrow> cbits c = b2 \<Longrightarrow> read_all r c = Ok (advance (length b2) c, xs)"
      by auto
    have "read_all r c = Ok (advance (length (b1 @ b2)) c, x # xs)"
      if off: "snd c < 8" and c: "cbits c = b1 @ b2" for c
    proof -
      have "length b1 \<le> remaining c"
        using arg_cong [OF c, of length] by simp
      then have rem: "0 < remaining c" "remaining c - length b1 < remaining c"
        using pos1 by linarith+
      have "r c = Ok (advance (length b1) c, x)"
        using r1 off c by simp
      moreover have "read_all r (advance (length b1) c) = Ok (advance (length b2) (advance (length b1) c), xs)"
        using r2 [of "advance (length b1) c"] c by simp
      ultimately show ?thesis
        using rem by (subst read_all.simps) simp
    qed
    with b1 b2 show ?case by auto
  qed
  then show ?thesis
    by (auto simp: rereads_def no_tail_def)
qed

lemma finish_pack: "8 dvd length b \<Longrightarrow> dk_finish D b = pack b"
  using finish_bytes [of "pack b"] by (simp add: bytes_bits_pack)

text \<open>
  A 16-bit field of a struct is a hole in what the struct writes: setting the field changes these
  16 bits and nothing else.
\<close>

definition u16_hole :: "('a \<Rightarrow> u16) \<Rightarrow> (u16 \<Rightarrow> 'a \<Rightarrow> 'a) \<Rightarrow> 'a writer \<Rightarrow> nat \<Rightarrow> bool" where
  "u16_hole f upd w n \<longleftrightarrow> (\<forall>v b. w v = Ok b \<longrightarrow> (\<exists>pre post. length pre = n \<and>
     b = pre @ bits_be 16 (unat (f v)) @ post \<and>
     (\<forall>c. w (upd c v) = Ok (pre @ bits_be 16 (unat c) @ post))))"

lemma u16_hole_here:
  assumes "\<And>v c. f (upd c v) = c" and "\<And>v c. k (upd c v) = k v"
  shows "u16_hole f upd (wfield f (write_uint D 16) k) 0"
  unfolding u16_hole_def
  by (auto simp: assms wfield_def write_uint_def write_fits outcome_simps)

lemma u16_hole_skip:
  assumes "wsize w (\<lambda>_. m)" and "\<And>v c. g (upd c v) = g v" and "u16_hole f upd k n"
  shows "u16_hole f upd (wfield g w k) (m + n)"
  unfolding u16_hole_def
proof (intro allI impI)
  fix v b assume "wfield g w k v = Ok b"
  then obtain x y where x: "w (g v) = Ok x" and y: "k v = Ok y" and b: "b = x @ y"
    by (auto simp: wfield_def outcome_simps)
  from assms(3) y obtain pre post where "length pre = n" "y = pre @ bits_be 16 (unat (f v)) @ post"
      "\<And>c. k (upd c v) = Ok (pre @ bits_be 16 (unat c) @ post)"
    unfolding u16_hole_def by blast
  moreover have "length x = m"
    using assms(1) x unfolding wsize_def by blast
  ultimately show "\<exists>pre post. length pre = m + n \<and> b = pre @ bits_be 16 (unat (f v)) @ post \<and>
      (\<forall>c. wfield g w k (upd c v) = Ok (pre @ bits_be 16 (unat c) @ post))"
    using x b assms(2) by (intro exI [where x = "x @ pre"] exI [where x = post]) (simp add: wfield_def)
qed

lemmas lossless_ints = lossless_u8 lossless_u16 lossless_u32 lossless_u128
lemmas rereads_ints = rereads_u8 rereads_u16 rereads_u32 rereads_u128

end

section \<open>The laws are consistent\<close>

definition ref_deku :: deku where
  "ref_deku = \<lparr>
     dk_read = (\<lambda>n c. if n \<le> remaining c then Ok (advance n c, nat_of_bits (take n (cbits c)))
                      else Err (DIncomplete n)),
     dk_write = (\<lambda>n v. if v < 2 ^ n then Ok (bits_be n v) else Err (DOther ''value too large'')),
     dk_limit = (\<lambda>lim m. if m < lim then Continue else if m = lim then Stop
                         else Fail (DOther ''limit overrun'')),
     dk_finish = pack,
     dk_byte_size = (\<lambda>n. (n + 7) div 8),
     dk_to_string = (\<lambda>e. case e of DIncomplete n \<Rightarrow> ''incomplete'' | DParse s \<Rightarrow> s | DOther s \<Rightarrow> s),
     dk_int_error = DParse ''out of range integral type conversion attempted'',
     dk_no_variant = (\<lambda>name i. DParse (''Could not match enum variant id of '' @ name)) \<rparr>"

interpretation ref: deku_laws ref_deku
proof
  fix n v
  show "(\<exists>w. dk_write ref_deku n v = Ok w \<and> length w = n) \<or> (\<exists>e. dk_write ref_deku n v = Err e)"
    by (simp add: ref_deku_def)
qed (simp_all add: ref_deku_def)

end
