(* ===== verification/Layer_Core.thy ===== *)
theory Layer_Core
  imports Deku_Codec
begin

text \<open>
  What all layers share: the layer error (\<open>src/layer/error.rs\<close>), the platform the crate is compiled
  for, and the shape of \<open>LayerExt::parse\<close> and \<open>LayerExt::to_bytes\<close> (\<open>src/layer/mod.rs\<close>).

  The locale \<open>layer_codec\<close> is the contract of a layer's parser and serialiser; every layer of the
  crate is an instance (in its own theory, for every deku that satisfies the laws).
\<close>

section \<open>Layer errors\<close>

datatype LayerError = Incomplete nat | Parse string | Finalize string | DekuError string

definition LayerError_from :: "deku \<Rightarrow> DekuError \<Rightarrow> LayerError" where
  "LayerError_from D e = (case e of
       DIncomplete need \<Rightarrow> Incomplete (dk_byte_size D need)
     | DParse _ \<Rightarrow> Parse (dk_to_string D e)
     | _ \<Rightarrow> DekuError (dk_to_string D e))"

section \<open>Platform\<close>

text \<open>
  \<open>usize::MAX\<close> depends on the target (the crate is built for 32- and 64-bit targets),
  \<open>debug_assert!\<close> and the check of arithmetic overflow on the build profile.
\<close>

record platform =
  usize_max :: nat
  debug_assertions :: bool
  overflow_checks :: bool

definition dev_profile :: platform where
  "dev_profile = \<lparr>usize_max = 2 ^ 64 - 1, debug_assertions = True, overflow_checks = True\<rparr>"

definition release_profile :: platform where
  "release_profile = \<lparr>usize_max = 2 ^ 64 - 1, debug_assertions = False, overflow_checks = False\<rparr>"

definition assert_msg :: string where
  "assert_msg = ''assertion failed''"

definition overflow_msg :: string where
  "overflow_msg = ''attempt to add with overflow''"

definition debug_assert :: "platform \<Rightarrow> bool \<Rightarrow> ('e, unit) outcome" where
  "debug_assert pf b = (if debug_assertions pf \<and> \<not> b then Panic assert_msg else Ok ())"

definition checked_add_usize :: "platform \<Rightarrow> nat \<Rightarrow> nat \<Rightarrow> nat option" where
  "checked_add_usize pf a b = (if a + b \<le> usize_max pf then Some (a + b) else None)"

definition u16_try_from :: "nat \<Rightarrow> u16 option" where
  "u16_try_from n = (if n < 2 ^ 16 then Some (word_of_nat n) else None)"

definition u32_try_from :: "nat \<Rightarrow> u32 option" where
  "u32_try_from n = (if n < 2 ^ 32 then Some (word_of_nat n) else None)"

definition u8_try_from :: "nat \<Rightarrow> u8 option" where
  "u8_try_from n = (if n < 2 ^ 8 then Some (word_of_nat n) else None)"

definition u8_checked_sub :: "u8 \<Rightarrow> u8 \<Rightarrow> u8 option" where
  "u8_checked_sub a b = (if b \<le> a then Some (a - b) else None)"

definition u8_checked_mul :: "u8 \<Rightarrow> u8 \<Rightarrow> u8 option" where
  "u8_checked_mul a b = (if unat a * unat b < 2 ^ 8 then Some (a * b) else None)"

definition u8_checked_div :: "u8 \<Rightarrow> u8 \<Rightarrow> u8 option" where
  "u8_checked_div a b = (if b = 0 then None else Some (a div b))"

definition u8_saturating_sub :: "u8 \<Rightarrow> u8 \<Rightarrow> u8" where
  "u8_saturating_sub a b = (if b \<le> a then a - b else 0)"

lemma u16_try_from_Some: "u16_try_from n = Some w \<longleftrightarrow> n < 2 ^ 16 \<and> w = word_of_nat n"
  by (auto simp: u16_try_from_def)

lemma unat_u16_try_from: "u16_try_from n = Some w \<Longrightarrow> unat w = n"
  by (auto simp: u16_try_from_def unat_word_of_nat_small [where n = 16] split: if_splits)

lemma u8_checked_sub_Some:
  "u8_checked_sub a b = Some v \<longleftrightarrow> unat b \<le> unat a \<and> unat v = unat a - unat b"
proof (cases "b \<le> a")
  case True
  then have "unat (a - b) = unat a - unat b" and "unat b \<le> unat a"
    by (simp_all add: unat_sub word_le_nat_alt)
  with True show ?thesis
    by (metis option.inject u8_checked_sub_def word_unat_eq_iff)
next
  case False
  then show ?thesis
    by (auto simp: u8_checked_sub_def word_le_nat_alt)
qed

lemma u8_checked_sub_ex: "(\<exists>v. u8_checked_sub a b = Some v) \<longleftrightarrow> unat b \<le> unat a"
  by (simp add: u8_checked_sub_def word_le_nat_alt)

lemma u8_checked_mul_Some:
  "u8_checked_mul a b = Some v \<longleftrightarrow> unat a * unat b < 256 \<and> unat v = unat a * unat b"
proof (cases "unat a * unat b < 256")
  case True
  then have "unat (a * b) = unat a * unat b"
    by (simp add: unat_mult_lem [THEN iffD1])
  moreover from True have "u8_checked_mul a b = Some (a * b)"
    by (simp add: u8_checked_mul_def)
  ultimately show ?thesis
    using True by (metis option.inject word_unat_eq_iff)
next
  case False
  then show ?thesis by (simp add: u8_checked_mul_def)
qed

lemma u8_checked_div_Some:
  "u8_checked_div a b = Some v \<longleftrightarrow> unat b \<noteq> 0 \<and> unat v = unat a div unat b"
proof (cases "b = 0")
  case False
  then have "unat b \<noteq> 0" and "u8_checked_div a b = Some (a div b)"
    by (simp_all add: u8_checked_div_def unat_eq_zero)
  moreover have "unat (a div b) = unat a div unat b"
    by (rule unat_div)
  ultimately show ?thesis
    by (metis option.inject word_unat_eq_iff)
qed (simp add: u8_checked_div_def)

section \<open>\<open>LayerExt::parse\<close> and \<open>LayerExt::to_bytes\<close>\<close>

text \<open>
  Every layer implements the two methods by the same lines:
  \<^verbatim>\<open>let ((rest, bit_offset), layer) = X::from_bytes((input, 0))?;
   debug_assert_eq!(0, bit_offset);
   Ok((rest, layer))\<close>
  and \<^verbatim>\<open>Ok(DekuContainerWrite::to_bytes(self)?)\<close>.
\<close>

definition parse_with ::
    "platform \<Rightarrow> deku \<Rightarrow> 'a reader \<Rightarrow> bytes \<Rightarrow> (LayerError, bytes \<times> 'a) outcome" where
  "parse_with pf D from_bytes input =
     obind (map_err (LayerError_from D) (from_bytes (input, 0))) (\<lambda>((rest, bit_offset), layer).
     obind (debug_assert pf (bit_offset = 0)) (\<lambda>_.
     Ok (rest, layer)))"

definition to_bytes_with :: "deku \<Rightarrow> 'a writer \<Rightarrow> 'a \<Rightarrow> (LayerError, bytes) outcome" where
  "to_bytes_with D w v = map_err (LayerError_from D) (container_to_bytes D w v)"

section \<open>The contract of a layer\<close>

text \<open>
  Parsing returns, and what it returns serialises to exactly the bytes it consumed; a well-formed
  layer serialises, and is parsed back in front of every rest that \<open>tail\<close> admits.
\<close>

locale layer_codec =
  fixes parse :: "bytes \<Rightarrow> (LayerError, bytes \<times> 'l) outcome"
    and to_bytes :: "'l \<Rightarrow> (LayerError, bytes) outcome"
    and wf :: "'l \<Rightarrow> bool"
    and tail :: "bytes \<Rightarrow> bool"
  assumes parse_returns: "returns (parse input)"
    and parse_lossless: "parse input = Ok (rest, l) \<Longrightarrow> \<exists>hdr. to_bytes l = Ok hdr \<and> input = hdr @ rest"
    and to_bytes_returns: "returns (to_bytes l)"
    and reparse: "wf l \<Longrightarrow> \<exists>hdr. to_bytes l = Ok hdr \<and> (\<forall>rest. tail rest \<longrightarrow> parse (hdr @ rest) = Ok (rest, l))"
    and tail_nil: "tail []"
begin

lemma parse_cases:
  "(\<exists>rest l hdr. parse input = Ok (rest, l) \<and> to_bytes l = Ok hdr \<and> input = hdr @ rest)
    \<or> (\<exists>e. parse input = Err e)"
  using parse_returns [of input] parse_lossless [of input] by (fastforce simp: returns_iff)

lemma to_bytes_inj:
  assumes "wf a" and "wf b" and "to_bytes a = to_bytes b"
  shows "a = b"
proof -
  from reparse [OF assms(1)] tail_nil obtain h where "to_bytes a = Ok h" "parse h = Ok ([], a)"
    by (metis append_Nil2)
  moreover from reparse [OF assms(2)] tail_nil obtain k where "to_bytes b = Ok k" "parse k = Ok ([], b)"
    by (metis append_Nil2)
  ultimately show ?thesis using assms(3) by simp
qed

lemma parse_shrinks: "parse input = Ok (rest, l) \<Longrightarrow> length rest \<le> length input"
  using parse_lossless by fastforce

lemma reparse_Ok:
  assumes "wf l" and "to_bytes l = Ok hdr" and "tail rest"
  shows "parse (hdr @ rest) = Ok (rest, l)"
  using reparse [OF assms(1)] assms(2,3) by auto

end

text \<open>A header of a fixed number of bytes parses exactly when that many bytes are there.\<close>

locale fixed_header = layer_codec +
  fixes size :: nat
  assumes parse_enough: "size \<le> length input \<Longrightarrow> \<exists>l. parse input = Ok (drop size input, l)"
    and parse_short: "length input < size \<Longrightarrow> \<exists>n. parse input = Err (Incomplete n)"
    and to_bytes_length: "to_bytes l = Ok hdr \<Longrightarrow> length hdr = size"
begin

lemma parse_Ok_iff: "(\<exists>rest l. parse input = Ok (rest, l)) \<longleftrightarrow> size \<le> length input"
  using parse_enough [of input] parse_short [of input] by (metis not_le outcome.distinct(1))

lemma parse_total:
  "if size \<le> length input
   then \<exists>l. parse input = Ok (drop size input, l) \<and> to_bytes l = Ok (take size input)
   else \<exists>n. parse input = Err (Incomplete n)"
proof (cases "size \<le> length input")
  case True
  then obtain l where l: "parse input = Ok (drop size input, l)"
    using parse_enough by blast
  then obtain hdr where hdr: "to_bytes l = Ok hdr" "input = hdr @ drop size input"
    using parse_lossless by blast
  then have "hdr = take size input"
    using to_bytes_length by (metis append_eq_conv_conj)
  with True l hdr(1) show ?thesis by auto
next
  case False
  then show ?thesis using parse_short by simp
qed

lemma roundtrip:
  assumes "wf l"
  shows "\<exists>hdr. to_bytes l = Ok hdr \<and> length hdr = size \<and> (\<forall>rest. tail rest \<longrightarrow> parse (hdr @ rest) = Ok (rest, l))"
  using reparse [OF assms] to_bytes_length by blast

end

text \<open>The setting in which the layers are instances: any deku that keeps its laws, any platform.\<close>

locale nata_env = deku_laws D for D :: deku +
  fixes pf :: platform

interpretation dev: nata_env ref_deku dev_profile
  by unfold_locales

text \<open>A codec for deku's cursors gives a codec for a layer.\<close>

context deku_laws
begin

lemma to_bytes_with_Ok:
  assumes "w v = Ok b" and "8 dvd length b"
  shows "to_bytes_with D w v = Ok (pack b)"
  using assms by (simp add: to_bytes_with_def container_to_bytes_def finish_pack)

lemma to_bytes_with_Ok_iff:
  assumes "wsize w sz" and "8 dvd sz v"
  shows "to_bytes_with D w v = Ok hdr \<longleftrightarrow> (\<exists>b. w v = Ok b \<and> length b = sz v \<and> hdr = pack b)"
proof -
  have "dk_finish D b = pack b \<and> length b = sz v" if "w v = Ok b" for b
    using that assms finish_pack [of b] unfolding wsize_def by auto
  then show ?thesis
    by (auto simp: to_bytes_with_def container_to_bytes_def outcome_simps)
qed

lemma to_bytes_with_length:
  assumes "wsize w sz" and "8 dvd sz v" and "to_bytes_with D w v = Ok hdr"
  shows "8 * length hdr = sz v"
  using assms by (auto simp: to_bytes_with_Ok_iff length_pack)

lemma parse_with_returns:
  assumes "rsafe r" and "\<And>c v. r (input, 0) = Ok (c, v) \<Longrightarrow> snd c = 0"
  shows "returns (parse_with pf D r input)"
  unfolding parse_with_def
  using rsafe_returns [OF assms(1), of "(input, 0)"] assms(2)
  by (auto intro!: returns_obind simp: debug_assert_def outcome_simps)

lemma lossless_aligned:
  assumes "lossless r w P" and "wsize w sz" and "\<And>v. P v \<Longrightarrow> 8 dvd sz v"
    and "r (input, 0) = Ok (c, v)"
  obtains b where "P v" "w v = Ok b" "8 dvd length b" "input = pack b @ fst c" "snd c = 0"
proof -
  from assms(1,4) obtain b where P: "P v" and b: "w v = Ok b" "bytes_bits input = b @ cbits c"
      "c = advance (length b) (input, 0)"
    unfolding lossless_def by (metis cbits_start snd_conv zero_less_numeral)
  have "8 dvd length b"
    using assms(2,3) P b(1) unfolding wsize_def by auto
  moreover from this have "snd c = 0"
    using b(3) by (simp add: advance_def)
  moreover have "input = pack b @ fst c"
  proof -
    have "cbits c = bytes_bits (fst c)"
      using \<open>snd c = 0\<close> by (simp add: cbits_def)
    then have "bytes_bits input = bytes_bits (pack b @ fst c)"
      using b(2) bytes_bits_pack [OF \<open>8 dvd length b\<close>] by simp
    then show ?thesis by (rule bytes_bits_inject [THEN iffD1])
  qed
  ultimately show thesis
    using that P b(1) by blast
qed

lemma layer_codecI:
  assumes ll: "lossless r w P" and re: "rereads S r w Q" and safe: "rsafe r"
    and sz: "wsize w sz" and al: "\<And>v. P v \<Longrightarrow> 8 dvd sz v" "\<And>v. Q v \<Longrightarrow> 8 dvd sz v"
    and ret: "wreturns w" and S: "S []"
  shows "layer_codec (parse_with pf D r) (to_bytes_with D w) Q (\<lambda>rest. S (bytes_bits rest))"
proof
  fix input
  show "returns (parse_with pf D r input)"
    by (rule parse_with_returns [OF safe]) (metis lossless_aligned [OF ll sz al(1)])
next
  fix input rest l assume "parse_with pf D r input = Ok (rest, l)"
  then obtain c where c: "r (input, 0) = Ok (c, l)" "rest = fst c"
    by (auto simp: parse_with_def outcome_simps)
  show "\<exists>hdr. to_bytes_with D w l = Ok hdr \<and> input = hdr @ rest"
  proof (rule lossless_aligned [OF ll sz al(1) c(1)])
    fix b assume "w l = Ok b" "8 dvd length b" "input = pack b @ fst c"
    then show ?thesis
      using to_bytes_with_Ok [of w l b] c(2) by simp
  qed
next
  fix l
  show "returns (to_bytes_with D w l)"
    using ret by (simp add: to_bytes_with_def container_to_bytes_def wreturns_def)
next
  fix l assume "Q l"
  with re obtain b where b: "w l = Ok b" and rd: "\<And>c t. snd c < 8 \<Longrightarrow> S t \<Longrightarrow> cbits c = b @ t \<Longrightarrow>
      r c = Ok (advance (length b) c, l)"
    unfolding rereads_def by metis
  have al: "8 dvd length b"
    using sz al(2) \<open>Q l\<close> b unfolding wsize_def by auto
  have "parse_with pf D r (pack b @ rest) = Ok (rest, l)" if "S (bytes_bits rest)" for rest
  proof -
    have "r (pack b @ rest, 0) = Ok (advance (length b) (pack b @ rest, 0), l)"
      using that al by (intro rd) (simp_all add: bytes_bits_pack)
    moreover have "advance (length b) (pack b @ rest, 0) = (rest, 0)"
      using advance_start [of "length (pack b)" "pack b @ rest"] length_pack [OF al] by simp
    ultimately show ?thesis
      by (simp add: parse_with_def debug_assert_def)
  qed
  then show "\<exists>hdr. to_bytes_with D w l = Ok hdr \<and>
      (\<forall>rest. S (bytes_bits rest) \<longrightarrow> parse_with pf D r (hdr @ rest) = Ok (rest, l))"
    using to_bytes_with_Ok [of w l b] b al by auto
qed (use S in simp)

lemma parse_with_enough:
  assumes "rfixed (8 * n) r" and "n \<le> length input"
  shows "\<exists>l. parse_with pf D r input = Ok (drop n input, l)"
proof -
  obtain l where "r (input, 0) = Ok (advance (8 * n) (input, 0), l)"
    using rfixed_enough [OF assms(1), of "(input, 0)"] assms(2) by auto
  then show ?thesis
    by (simp add: parse_with_def debug_assert_def advance_start)
qed

lemma parse_with_short:
  assumes "rfixed (8 * n) r" and "length input < n"
  shows "\<exists>m. parse_with pf D r input = Err (Incomplete m)"
proof -
  obtain need where "r (input, 0) = Err (DIncomplete need)"
    using rfixed_short [OF assms(1), of "(input, 0)"] assms(2) by auto
  then show ?thesis
    by (simp add: parse_with_def LayerError_from_def)
qed

lemma parse_with_min:
  assumes "rmin (8 * n) r" and "length input < n"
  shows "\<exists>m. parse_with pf D r input = Err (Incomplete m)"
proof -
  obtain need where "r (input, 0) = Err (DIncomplete need)"
    using assms unfolding rmin_def by fastforce
  then show ?thesis
    by (simp add: parse_with_def LayerError_from_def)
qed

lemma fixed_headerI:
  assumes ll: "lossless r w P" and re: "rereads any_tail r w Q" and fx: "rfixed (8 * n) r"
    and sz: "wsize w (\<lambda>_. 8 * n)" and ret: "wreturns w"
  shows "fixed_header (parse_with pf D r) (to_bytes_with D w) Q (\<lambda>_. True) n"
proof -
  have "layer_codec (parse_with pf D r) (to_bytes_with D w) Q (\<lambda>rest. any_tail (bytes_bits rest))"
    by (rule layer_codecI [OF ll re rfixed_rsafe [OF fx] sz _ _ ret]) (simp_all add: any_tail_def)
  then have "layer_codec (parse_with pf D r) (to_bytes_with D w) Q (\<lambda>_. True)"
    by (simp add: any_tail_def)
  moreover have "length hdr = n" if "to_bytes_with D w l = Ok hdr" for l hdr
    using to_bytes_with_length [OF sz _ that] by simp
  ultimately show ?thesis
    using parse_with_enough [OF fx] parse_with_short [OF fx]
    by (intro fixed_header.intro fixed_header_axioms.intro) blast+
qed

end

end
