(* ===== verification/Id_Table.thy ===== *)
theory Id_Table
  imports Main
begin

text \<open>
  Enumerations that are identified on the wire: a table from identifiers to variants and one
  variant, \<open>Unknown\<close>, that keeps every identifier the table does not list.  The locale states what
  such a declaration needs to be unambiguous; the enumerations of the crate (\<open>EtherType\<close>,
  \<open>IpProtocol\<close>, \<open>IcmpType\<close>) are instances.
\<close>

definition of_id_in :: "('i \<times> 't) list \<Rightarrow> ('i \<Rightarrow> 't) \<Rightarrow> 'i \<Rightarrow> 't" where
  "of_id_in ids unknown i = (case map_of ids i of Some t \<Rightarrow> t | None \<Rightarrow> unknown i)"

locale id_enum =
  fixes ids :: "('i \<times> 't) list" and unknown :: "'i \<Rightarrow> 't" and id_of :: "'t \<Rightarrow> 'i"
  assumes ids_sound: "(i, t) \<in> set ids \<Longrightarrow> id_of t = i"
    and id_of_unknown: "id_of (unknown i) = i"
    and ids_complete: "map_of ids (id_of t) = Some t \<or> (\<exists>i. t = unknown i)"
begin

lemma id_of_id: "id_of (of_id_in ids unknown i) = i"
  by (auto simp: of_id_in_def id_of_unknown ids_sound dest: map_of_SomeD split: option.splits)

lemma of_id_id:
  assumes "\<And>i. t = unknown i \<Longrightarrow> map_of ids i = None"
  shows "of_id_in ids unknown (id_of t) = t"
proof (cases "\<exists>i. t = unknown i")
  case True
  then show ?thesis
    using assms by (auto simp: of_id_in_def id_of_unknown)
next
  case False
  then have "map_of ids (id_of t) = Some t"
    using ids_complete by blast
  then show ?thesis
    by (simp add: of_id_in_def)
qed

end

end
