(* ===== verification/Ether_Type.thy ===== *)
theory Ether_Type
  imports Layer_Core Id_Table
begin

text \<open>
  \<open>src/layer/ether/ethertype.rs\<close>: the type field of an Ethernet frame, a 16-bit identifier.  The
  constructor \<open>MAX\<close> of the source is \<open>ETHERTYPE_MAX\<close> here (\<open>MAX\<close> is a keyword of the logic).
\<close>

datatype (plugins only:) EtherType =
    IEEE8023 | PUP | NS | NSAT | DLOG1 | DLOG2
  | IPv4 | X75 | NBS | ECMA | CHAOS | X25
  | ARP | FRARP | VINES | TRAIL | DCA | VALID
  | RCL | NBPCC | NBPDG | PCS | IMLBL | MOPDL
  | MOPRC | LAT | SCA | AMBER | RAWFR | UBDL
  | UBNIU | UBNMC | UBBST | OS9 | RACAL | HP
  | TIGAN | DECAM | VEXP | VPROD | ES | VEECO
  | ATT | MATRA | DDE | MERIT | ATALK | PACER
  | SNA | RETIX | AARP | VLAN | BOFL | HAYES
  | VGLAB | IPX | MUMPS | FLIP | NCD | ALPHA
  | SNMP | XTP | SGITW | STP | IPv6 | RDP
  | MICP | IPAS | SLOW | PPP | MPLS | AXIS
  | PPPOE | PAE | AOE | QINQ | LLDP | PBB
  | XNSSM | TCPSM | DEBNI | SONIX | VITAL | ETHERTYPE_MAX
  | Unknown u16

text \<open>The identifiers, in the order of the declaration.\<close>

definition EtherType_ids1 :: "(u16 \<times> EtherType) list" where
  "EtherType_ids1 =
    [(0x0004, IEEE8023), (0x0200, PUP), (0x0600, NS), (0x0601, NSAT),
     (0x0660, DLOG1), (0x0661, DLOG2), (0x0800, IPv4), (0x0801, X75),
     (0x0802, NBS), (0x0803, ECMA), (0x0804, CHAOS), (0x0805, X25),
     (0x0806, ARP), (0x0808, FRARP), (0x0bad, VINES), (0x1000, TRAIL),
     (0x1234, DCA), (0x1600, VALID), (0x1995, RCL), (0x3c04, NBPCC),
     (0x3c07, NBPDG), (0x4242, PCS), (0x4c42, IMLBL), (0x6001, MOPDL),
     (0x6002, MOPRC), (0x6004, LAT), (0x6007, SCA), (0x6008, AMBER),
     (0x6559, RAWFR), (0x7000, UBDL), (0x7001, UBNIU), (0x7003, UBNMC),
     (0x7005, UBBST), (0x7007, OS9), (0x7030, RACAL)]"

definition EtherType_ids2 :: "(u16 \<times> EtherType) list" where
  "EtherType_ids2 =
    [(0x8005, HP), (0x802f, TIGAN), (0x8048, DECAM), (0x805b, VEXP),
     (0x805c, VPROD), (0x805d, ES), (0x8067, VEECO), (0x8069, ATT),
     (0x807a, MATRA), (0x807b, DDE), (0x807c, MERIT), (0x809b, ATALK),
     (0x80c6, PACER), (0x80d5, SNA), (0x80f2, RETIX), (0x80f3, AARP),
     (0x8100, VLAN), (0x8102, BOFL), (0x8130, HAYES), (0x8131, VGLAB),
     (0x8137, IPX), (0x813f, MUMPS), (0x8146, FLIP), (0x8149, NCD),
     (0x814a, ALPHA), (0x814c, SNMP), (0x817d, XTP), (0x817e, SGITW),
     (0x8181, STP), (0x86dd, IPv6), (0x8739, RDP), (0x873a, MICP),
     (0x876c, IPAS), (0x8809, SLOW), (0x880b, PPP), (0x8847, MPLS),
     (0x8856, AXIS), (0x8864, PPPOE), (0x888e, PAE), (0x88a2, AOE),
     (0x88a8, QINQ), (0x88cc, LLDP), (0x88e7, PBB), (0x9001, XNSSM),
     (0x9002, TCPSM), (0xaaaa, DEBNI), (0xfaf5, SONIX), (0xff00, VITAL),
     (0xffff, ETHERTYPE_MAX)]"

definition EtherType_ids :: "(u16 \<times> EtherType) list" where
  "EtherType_ids = EtherType_ids1 @ EtherType_ids2"

primrec EtherType_id :: "EtherType \<Rightarrow> u16" where
  "EtherType_id IEEE8023 = 0x0004"
| "EtherType_id PUP = 0x0200"
| "EtherType_id NS = 0x0600"
| "EtherType_id NSAT = 0x0601"
| "EtherType_id DLOG1 = 0x0660"
| "EtherType_id DLOG2 = 0x0661"
| "EtherType_id IPv4 = 0x0800"
| "EtherType_id X75 = 0x0801"
| "EtherType_id NBS = 0x0802"
| "EtherType_id ECMA = 0x0803"
| "EtherType_id CHAOS = 0x0804"
| "EtherType_id X25 = 0x0805"
| "EtherType_id ARP = 0x0806"
| "EtherType_id FRARP = 0x0808"
| "EtherType_id VINES = 0x0bad"
| "EtherType_id TRAIL = 0x1000"
| "EtherType_id DCA = 0x1234"
| "EtherType_id VALID = 0x1600"
| "EtherType_id RCL = 0x1995"
| "EtherType_id NBPCC = 0x3c04"
| "EtherType_id NBPDG = 0x3c07"
| "EtherType_id PCS = 0x4242"
| "EtherType_id IMLBL = 0x4c42"
| "EtherType_id MOPDL = 0x6001"
| "EtherType_id MOPRC = 0x6002"
| "EtherType_id LAT = 0x6004"
| "EtherType_id SCA = 0x6007"
| "EtherType_id AMBER = 0x6008"
| "EtherType_id RAWFR = 0x6559"
| "EtherType_id UBDL = 0x7000"
| "EtherType_id UBNIU = 0x7001"
| "EtherType_id UBNMC = 0x7003"
| "EtherType_id UBBST = 0x7005"
| "EtherType_id OS9 = 0x7007"
| "EtherType_id RACAL = 0x7030"
| "EtherType_id HP = 0x8005"
| "EtherType_id TIGAN = 0x802f"
| "EtherType_id DECAM = 0x8048"
| "EtherType_id VEXP = 0x805b"
| "EtherType_id VPROD = 0x805c"
| "EtherType_id ES = 0x805d"
| "EtherType_id VEECO = 0x8067"
| "EtherType_id ATT = 0x8069"
| "EtherType_id MATRA = 0x807a"
| "EtherType_id DDE = 0x807b"
| "EtherType_id MERIT = 0x807c"
| "EtherType_id ATALK = 0x809b"
| "EtherType_id PACER = 0x80c6"
| "EtherType_id SNA = 0x80d5"
| "EtherType_id RETIX = 0x80f2"
| "EtherType_id AARP = 0x80f3"
| "EtherType_id VLAN = 0x8100"
| "EtherType_id BOFL = 0x8102"
| "EtherType_id HAYES = 0x8130"
| "EtherType_id VGLAB = 0x8131"
| "EtherType_id IPX = 0x8137"
| "EtherType_id MUMPS = 0x813f"
| "EtherType_id FLIP = 0x8146"
| "EtherType_id NCD = 0x8149"
| "EtherType_id ALPHA = 0x814a"
| "EtherType_id SNMP = 0x814c"
| "EtherType_id XTP = 0x817d"
| "EtherType_id SGITW = 0x817e"
| "EtherType_id STP = 0x8181"
| "EtherType_id IPv6 = 0x86dd"
| "EtherType_id RDP = 0x8739"
| "EtherType_id MICP = 0x873a"
| "EtherType_id IPAS = 0x876c"
| "EtherType_id SLOW = 0x8809"
| "EtherType_id PPP = 0x880b"
| "EtherType_id MPLS = 0x8847"
| "EtherType_id AXIS = 0x8856"
| "EtherType_id PPPOE = 0x8864"
| "EtherType_id PAE = 0x888e"
| "EtherType_id AOE = 0x88a2"
| "EtherType_id QINQ = 0x88a8"
| "EtherType_id LLDP = 0x88cc"
| "EtherType_id PBB = 0x88e7"
| "EtherType_id XNSSM = 0x9001"
| "EtherType_id TCPSM = 0x9002"
| "EtherType_id DEBNI = 0xaaaa"
| "EtherType_id SONIX = 0xfaf5"
| "EtherType_id VITAL = 0xff00"
| "EtherType_id ETHERTYPE_MAX = 0xffff"
| "EtherType_id (Unknown i) = i"

definition EtherType_default :: EtherType where
  "EtherType_default = IPv4"

text \<open>Reading looks the identifier up; an identifier that is not listed is kept in \<open>Unknown\<close>.\<close>

definition EtherType_of_id :: "u16 \<Rightarrow> EtherType" where
  "EtherType_of_id = of_id_in EtherType_ids Unknown"

definition EtherType_wf :: "EtherType \<Rightarrow> bool" where
  "EtherType_wf t = (case t of Unknown i \<Rightarrow> map_of EtherType_ids i = None | _ \<Rightarrow> True)"

definition EtherType_read :: "deku \<Rightarrow> EtherType reader" where
  "EtherType_read D = rmap EtherType_of_id (read_uint D 16)"

definition EtherType_write :: "deku \<Rightarrow> EtherType writer" where
  "EtherType_write D t = write_uint D 16 (EtherType_id t)"

lemma EtherType_ids_sound: "list_all (\<lambda>(i, t). EtherType_id t = i) EtherType_ids"
  by (simp add: EtherType_ids1_def EtherType_ids2_def EtherType_ids_def)

lemma EtherType_ids_complete: "map_of EtherType_ids (EtherType_id t) = Some t \<or> (\<exists>i. t = Unknown i)"
  by (cases t) (simp_all add: EtherType_ids1_def EtherType_ids2_def EtherType_ids_def)

interpretation ethertype: id_enum EtherType_ids Unknown EtherType_id
  using EtherType_ids_sound EtherType_ids_complete
  by unfold_locales (auto simp: list_all_iff)

lemma EtherType_id_of_id [simp]: "EtherType_id (EtherType_of_id i) = i"
  unfolding EtherType_of_id_def by (rule ethertype.id_of_id)

lemma EtherType_of_id_id: "EtherType_wf t \<Longrightarrow> EtherType_of_id (EtherType_id t) = t"
  unfolding EtherType_of_id_def
  by (rule ethertype.of_id_id) (simp add: EtherType_wf_def)

lemma EtherType_ids_known: "list_all (\<lambda>(i, t). EtherType_wf t) EtherType_ids"
  by (simp add: EtherType_ids1_def EtherType_ids2_def EtherType_ids_def EtherType_wf_def)

lemma EtherType_wf_of_id [simp]: "EtherType_wf (EtherType_of_id i)"
proof (cases "map_of EtherType_ids i")
  case None
  then show ?thesis by (simp add: EtherType_of_id_def of_id_in_def EtherType_wf_def)
next
  case (Some t)
  then have "EtherType_id t = i" and known: "(i, t) \<in> set EtherType_ids"
    using EtherType_ids_sound by (auto simp: list_all_iff dest!: map_of_SomeD)
  moreover have "t = EtherType_of_id i"
    using Some by (simp add: EtherType_of_id_def of_id_in_def)
  ultimately show ?thesis
    using EtherType_ids_known by (auto simp: list_all_iff)
qed

context deku_laws
begin

lemma lossless_EtherType: "lossless (EtherType_read D) (EtherType_write D) EtherType_wf"
  unfolding EtherType_read_def EtherType_write_def
  by (rule lossless_map [OF lossless_u16]) simp

lemma rereads_EtherType: "rereads any_tail (EtherType_read D) (EtherType_write D) EtherType_wf"
  unfolding EtherType_read_def EtherType_write_def
  by (rule rereads_map [OF rereads_u16]) (simp add: EtherType_of_id_id)

lemma rfixed_EtherType [rfixed_intros]: "rfixed 16 (EtherType_read D)"
  unfolding EtherType_read_def by (intro rfixed_intros)

lemma wsize_EtherType [wsize_intros]: "wsize (EtherType_write D) (\<lambda>_. 16)"
  unfolding EtherType_write_def by (rule wsize_map [OF wsize_uint])

lemma wreturns_EtherType [wreturns_intros]: "wreturns (EtherType_write D)"
  unfolding EtherType_write_def by (rule wreturns_map [OF wreturns_uint])

end

end
