(* ===== verification/Ether.thy ===== *)
theory Ether
  imports Ether_Type
begin

text \<open>
  \<open>src/layer/ether/mod.rs\<close> and \<open>src/layer/ether/macaddress.rs\<close>: the Ethernet frame header, 14 bytes.
\<close>

section \<open>MAC addresses\<close>

text \<open>\<open>MacAddress(pub [u8; MACADDR_SIZE])\<close>: the six bytes of the array, in order.\<close>

datatype MacAddress = MacAddress (mac0: u8) (mac1: u8) (mac2: u8) (mac3: u8) (mac4: u8) (mac5: u8)

definition MacAddress_default :: MacAddress where
  "MacAddress_default = MacAddress 0 0 0 0 0 0"

definition MacAddress_read :: "deku \<Rightarrow> MacAddress reader" where
  "MacAddress_read D =
     rbind (read_uint D 8) (\<lambda>a. rbind (read_uint D 8) (\<lambda>b. rbind (read_uint D 8) (\<lambda>c.
     rbind (read_uint D 8) (\<lambda>d. rbind (read_uint D 8) (\<lambda>e. rbind (read_uint D 8) (\<lambda>f.
     rret (MacAddress a b c d e f)))))))"

definition MacAddress_write :: "deku \<Rightarrow> MacAddress writer" where
  "MacAddress_write D =
     wfield mac0 (write_uint D 8) (wfield mac1 (write_uint D 8) (wfield mac2 (write_uint D 8) (
     wfield mac3 (write_uint D 8) (wfield mac4 (write_uint D 8) (wfield mac5 (write_uint D 8) wdone)))))"

section \<open>The header\<close>

record Ether =
  ether_dst :: MacAddress
  ether_src :: MacAddress
  ether_type :: EtherType

definition Ether_default :: Ether where
  "Ether_default = \<lparr>ether_dst = MacAddress_default, ether_src = MacAddress_default,
     ether_type = EtherType_default\<rparr>"

definition Ether_read :: "deku \<Rightarrow> Ether reader" where
  "Ether_read D =
     rbind (MacAddress_read D) (\<lambda>dst.
     rbind (MacAddress_read D) (\<lambda>src.
     rbind (EtherType_read D) (\<lambda>ty.
     rret \<lparr>ether_dst = dst, ether_src = src, ether_type = ty\<rparr>)))"

definition Ether_write :: "deku \<Rightarrow> Ether writer" where
  "Ether_write D =
     wfield ether_dst (MacAddress_write D) (
     wfield ether_src (MacAddress_write D) (
     wfield ether_type (EtherType_write D) wdone))"

definition Ether_parse :: "platform \<Rightarrow> deku \<Rightarrow> bytes \<Rightarrow> (LayerError, bytes \<times> Ether) outcome" where
  "Ether_parse pf D input = parse_with pf D (Ether_read D) input"

definition Ether_to_bytes :: "deku \<Rightarrow> Ether \<Rightarrow> (LayerError, bytes) outcome" where
  "Ether_to_bytes D self = to_bytes_with D (Ether_write D) self"

text \<open>\<open>finalize\<close> does nothing.\<close>

definition Ether_finalize :: "Ether \<Rightarrow> 'l list \<Rightarrow> 'l list \<Rightarrow> Ether \<times> (LayerError, unit) outcome" where
  "Ether_finalize self prev next = (self, Ok ())"

text \<open>A header whose type is not an \<open>Unknown\<close> identifier that has a name.\<close>

definition Ether_wf :: "Ether \<Rightarrow> bool" where
  "Ether_wf e \<longleftrightarrow> EtherType_wf (ether_type e)"

section \<open>Codec\<close>

context deku_laws
begin

lemma lossless_MacAddress: "lossless (MacAddress_read D) (MacAddress_write D) (\<lambda>_. True)"
  unfolding MacAddress_read_def MacAddress_write_def
  by ((rule lossless_field [OF lossless_u8])+, rule lossless_done) simp

lemma rereads_MacAddress: "rereads any_tail (MacAddress_read D) (MacAddress_write D) (\<lambda>_. True)"
  unfolding MacAddress_read_def MacAddress_write_def
  by ((rule rereads_field [OF rereads_u8], rule TrueI)+, rule rereads_done) (auto intro: MacAddress.expand)

lemma rfixed_MacAddress [rfixed_intros]: "rfixed 48 (MacAddress_read D)"
proof -
  have "rfixed (8 + (8 + (8 + (8 + (8 + (8 + 0)))))) (MacAddress_read D)"
    unfolding MacAddress_read_def by (intro rfixed_intros)
  then show ?thesis by simp
qed

lemma wsize_MacAddress [wsize_intros]: "wsize (MacAddress_write D) (\<lambda>_. 48)"
proof -
  have "wsize (MacAddress_write D) (\<lambda>_. 8 + (8 + (8 + (8 + (8 + (8 + 0))))))"
    unfolding MacAddress_write_def by (intro wsize_intros)
  then show ?thesis by simp
qed

lemma wreturns_MacAddress [wreturns_intros]: "wreturns (MacAddress_write D)"
  unfolding MacAddress_write_def by (intro wreturns_intros)

lemma lossless_Ether: "lossless (Ether_read D) (Ether_write D) Ether_wf"
  unfolding Ether_read_def Ether_write_def
  by (rule lossless_field [OF lossless_MacAddress], rule lossless_field [OF lossless_MacAddress],
      rule lossless_field [OF lossless_EtherType], rule lossless_done) (simp add: Ether_wf_def)

lemma rereads_Ether: "rereads any_tail (Ether_read D) (Ether_write D) Ether_wf"
  unfolding Ether_read_def Ether_write_def
  by (rule rereads_field [OF rereads_MacAddress], rule TrueI,
      rule rereads_field [OF rereads_MacAddress], rule TrueI,
      rule rereads_field [OF rereads_EtherType], simp add: Ether_wf_def,
      rule rereads_done) auto

lemma rfixed_Ether: "rfixed (8 * 14) (Ether_read D)"
proof -
  have "rfixed (48 + (48 + (16 + 0))) (Ether_read D)"
    unfolding Ether_read_def by (intro rfixed_intros)
  then show ?thesis by simp
qed

lemma wsize_Ether: "wsize (Ether_write D) (\<lambda>_. 8 * 14)"
proof -
  have "wsize (Ether_write D) (\<lambda>_. 48 + (48 + (16 + 0)))"
    unfolding Ether_write_def by (intro wsize_intros)
  then show ?thesis by simp
qed

lemma wreturns_Ether: "wreturns (Ether_write D)"
  unfolding Ether_write_def by (intro wreturns_intros)

lemma ether_header: "fixed_header (Ether_parse pf D) (Ether_to_bytes D) Ether_wf (\<lambda>_. True) 14"
  unfolding Ether_parse_def Ether_to_bytes_def
  by (rule fixed_headerI [OF lossless_Ether rereads_Ether rfixed_Ether wsize_Ether wreturns_Ether])

end

sublocale nata_env \<subseteq> ether: fixed_header "Ether_parse pf D" "Ether_to_bytes D" Ether_wf "\<lambda>_. True" 14
  by (rule ether_header)

section \<open>Properties\<close>

text \<open>
  Parsing an Ethernet header succeeds exactly when 14 bytes are there, consumes exactly those,
  and serialising the result gives the same 14 bytes; a shorter input is reported as incomplete.
\<close>

lemma Ether_parse_total:
  assumes "deku_laws D"
  shows "if 14 \<le> length input
     then \<exists>e. Ether_parse pf D input = Ok (drop 14 input, e) \<and> Ether_to_bytes D e = Ok (take 14 input)
     else \<exists>n. Ether_parse pf D input = Err (Incomplete n)"
  by (rule fixed_header.parse_total [OF deku_laws.ether_header [OF assms]])

text \<open>
  A well-formed Ethernet header serialises to 14 bytes and is parsed back unchanged from those
  bytes, whatever follows them.
\<close>

lemma Ether_roundtrip:
  assumes "deku_laws D" and "Ether_wf e"
  shows "\<exists>hdr. Ether_to_bytes D e = Ok hdr \<and> length hdr = 14 \<and>
     (\<forall>rest. Ether_parse pf D (hdr @ rest) = Ok (rest, e))"
  using fixed_header.roundtrip [OF deku_laws.ether_header [OF assms(1)] assms(2)] by simp

end
