(* ===== verification/Raw.thy ===== *)
theory Raw
  imports Layer_Core
begin

text \<open>
  \<open>src/layer/raw/mod.rs\<close>: uninterpreted data.  Parsing takes all the rest of the input; the field
  \<open>bit_offset\<close> is skipped by the codec and gets its default, 0.
\<close>

record Raw =
  raw_data :: bytes
  raw_bit_offset :: nat

definition Raw_default :: Raw where
  "Raw_default = \<lparr>raw_data = [], raw_bit_offset = 0\<rparr>"

definition Raw_read :: "deku \<Rightarrow> Raw reader" where
  "Raw_read D = rbind (read_all (read_uint D 8)) (\<lambda>data. rret \<lparr>raw_data = data, raw_bit_offset = 0\<rparr>)"

definition Raw_write :: "deku \<Rightarrow> Raw writer" where
  "Raw_write D = wfield raw_data (write_list (write_uint D 8)) wdone"

definition Raw_parse :: "platform \<Rightarrow> deku \<Rightarrow> bytes \<Rightarrow> (LayerError, bytes \<times> Raw) outcome" where
  "Raw_parse pf D input =
     obind (map_err (LayerError_from D) (Raw_read D (input, 0))) (\<lambda>((rest, bit_offset), raw).
     obind (debug_assert pf (bit_offset = 0)) (\<lambda>_.
     obind (debug_assert pf (length rest = 0)) (\<lambda>_.
     Ok (rest, raw))))"

definition Raw_to_bytes :: "deku \<Rightarrow> Raw \<Rightarrow> (LayerError, bytes) outcome" where
  "Raw_to_bytes D self = to_bytes_with D (Raw_write D) self"

definition Raw_finalize :: "Raw \<Rightarrow> 'l list \<Rightarrow> 'l list \<Rightarrow> Raw \<times> (LayerError, unit) outcome" where
  "Raw_finalize self prev next = (self, Ok ())"

text \<open>What parsing produces.\<close>

definition Raw_wf :: "Raw \<Rightarrow> bool" where
  "Raw_wf r \<longleftrightarrow> raw_bit_offset r = 0"

context deku_laws
begin

lemma write_bytes: "write_list (write_uint D 8) bs = Ok (bytes_bits bs)"
  by (induction bs) (simp_all add: write_uint_def byte_bits_def write_fits)

lemma Raw_to_bytes_eq: "Raw_to_bytes D r = Ok (raw_data r)"
  unfolding Raw_to_bytes_def
  by (subst to_bytes_with_Ok [where b = "bytes_bits (raw_data r)"])
    (simp_all add: Raw_write_def wfield_def wdone_def write_bytes)

lemma read_all_bytes: "read_all (read_uint D 8) (input, 0) = Ok (([], 0), input)"
proof -
  have "rereads no_tail (read_all (read_uint D 8)) (write_list (write_uint D 8)) (\<lambda>xs :: bytes. \<forall>x \<in> set xs. True)"
    by (rule rereads_all [OF rereads_u8 wsize_uint]) simp
  then have "read_all (read_uint D 8) (input, 0) = Ok (advance (length (bytes_bits input)) (input, 0), input)"
    using write_bytes [of input] unfolding rereads_def no_tail_def
    by (metis (no_types, lifting) append_Nil2 cbits_start outcome.inject(1) snd_conv zero_less_numeral)
  then show ?thesis
    by (simp add: advance_def)
qed

lemma Raw_parse_eq: "Raw_parse pf D input = Ok ([], \<lparr>raw_data = input, raw_bit_offset = 0\<rparr>)"
  by (simp add: Raw_parse_def Raw_read_def rbind_def rret_def read_all_bytes debug_assert_def)

lemma raw_codec: "layer_codec (Raw_parse pf D) (Raw_to_bytes D) Raw_wf (\<lambda>rest. rest = [])"
  by unfold_locales (auto simp: Raw_parse_eq Raw_to_bytes_eq Raw_wf_def)

end

sublocale nata_env \<subseteq> raw: layer_codec "Raw_parse pf D" "Raw_to_bytes D" Raw_wf "\<lambda>rest. rest = []"
  by (rule raw_codec)

end
