(* ===== verification/Ip_Protocol.thy ===== *)
theory Ip_Protocol
  imports Layer_Core Id_Table
begin

text \<open>
  \<open>src/layer/ip/protocols.rs\<close>: the protocol of an IP payload, an 8-bit identifier.
\<close>

datatype (plugins only:) IpProtocol =
    HOPOPT | ICMP | IGMP | GGP | IPENCAP | ST
  | TCP | EGP | IGP | PUP | UDP | HMP
  | XNSIDP | RDP | ISOTP4 | DCCP | XTP | DDP
  | IDPRCMTP | IPV6 | IPV6ROUTE | IPV6FRAG | IDRP | RSVP
  | GRE | ESP | AH | SKIP | IPV6ICMP | IPV6NONXT
  | IPV6OPTS | RSPF | VMTP | EIGRP | OSPF | AX25
  | IPIP | ETHERIP | ENCAP | PIM | IPCOMP | VRRP
  | L2TP | ISIS | SCTP | FC | MOBILITYHEADER | UDPLITE
  | MPLSINIP | MANET | HIP | SHIM6 | WESP | ROHC
  | Unknown u8

text \<open>The identifiers, in the order of the declaration.\<close>

definition IpProtocol_ids :: "(u8 \<times> IpProtocol) list" where
  "IpProtocol_ids =
    [(0, HOPOPT), (1, ICMP), (2, IGMP), (3, GGP),
     (4, IPENCAP), (5, ST), (6, TCP), (8, EGP),
     (9, IGP), (12, PUP), (17, UDP), (20, HMP),
     (22, XNSIDP), (27, RDP), (29, ISOTP4), (33, DCCP),
     (36, XTP), (37, DDP), (38, IDPRCMTP), (41, IPV6),
     (43, IPV6ROUTE), (44, IPV6FRAG), (45, IDRP), (46, RSVP),
     (47, GRE), (50, ESP), (51, AH), (57, SKIP),
     (58, IPV6ICMP), (59, IPV6NONXT), (60, IPV6OPTS), (73, RSPF),
     (81, VMTP), (88, EIGRP), (89, OSPF), (93, AX25),
     (94, IPIP), (97, ETHERIP), (98, ENCAP), (103, PIM),
     (108, IPCOMP), (112, VRRP), (115, L2TP), (124, ISIS),
     (132, SCTP), (133, FC), (135, MOBILITYHEADER), (136, UDPLITE),
     (137, MPLSINIP), (138, MANET), (139, HIP), (140, SHIM6),
     (141, WESP), (142, ROHC)]"

primrec IpProtocol_id :: "IpProtocol \<Rightarrow> u8" where
  "IpProtocol_id HOPOPT = 0"
| "IpProtocol_id ICMP = 1"
| "IpProtocol_id IGMP = 2"
| "IpProtocol_id GGP = 3"
| "IpProtocol_id IPENCAP = 4"
| "IpProtocol_id ST = 5"
| "IpProtocol_id TCP = 6"
| "IpProtocol_id EGP = 8"
| "IpProtocol_id IGP = 9"
| "IpProtocol_id PUP = 12"
| "IpProtocol_id UDP = 17"
| "IpProtocol_id HMP = 20"
| "IpProtocol_id XNSIDP = 22"
| "IpProtocol_id RDP = 27"
| "IpProtocol_id ISOTP4 = 29"
| "IpProtocol_id DCCP = 33"
| "IpProtocol_id XTP = 36"
| "IpProtocol_id DDP = 37"
| "IpProtocol_id IDPRCMTP = 38"
| "IpProtocol_id IPV6 = 41"
| "IpProtocol_id IPV6ROUTE = 43"
| "IpProtocol_id IPV6FRAG = 44"
| "IpProtocol_id IDRP = 45"
| "IpProtocol_id RSVP = 46"
| "IpProtocol_id GRE = 47"
| "IpProtocol_id ESP = 50"
| "IpProtocol_id AH = 51"
| "IpProtocol_id SKIP = 57"
| "IpProtocol_id IPV6ICMP = 58"
| "IpProtocol_id IPV6NONXT = 59"
| "IpProtocol_id IPV6OPTS = 60"
| "IpProtocol_id RSPF = 73"
| "IpProtocol_id VMTP = 81"
| "IpProtocol_id EIGRP = 88"
| "IpProtocol_id OSPF = 89"
| "IpProtocol_id AX25 = 93"
| "IpProtocol_id IPIP = 94"
| "IpProtocol_id ETHERIP = 97"
| "IpProtocol_id ENCAP = 98"
| "IpProtocol_id PIM = 103"
| "IpProtocol_id IPCOMP = 108"
| "IpProtocol_id VRRP = 112"
| "IpProtocol_id L2TP = 115"
| "IpProtocol_id ISIS = 124"
| "IpProtocol_id SCTP = 132"
| "IpProtocol_id FC = 133"
| "IpProtocol_id MOBILITYHEADER = 135"
| "IpProtocol_id UDPLITE = 136"
| "IpProtocol_id MPLSINIP = 137"
| "IpProtocol_id MANET = 138"
| "IpProtocol_id HIP = 139"
| "IpProtocol_id SHIM6 = 140"
| "IpProtocol_id WESP = 141"
| "IpProtocol_id ROHC = 142"
| "IpProtocol_id (Unknown i) = i"

definition IpProtocol_default :: IpProtocol where
  "IpProtocol_default = TCP"

text \<open>Reading looks the identifier up; an identifier that is not listed is kept in \<open>Unknown\<close>.\<close>

definition IpProtocol_of_id :: "u8 \<Rightarrow> IpProtocol" where
  "IpProtocol_of_id = of_id_in IpProtocol_ids Unknown"

definition IpProtocol_wf :: "IpProtocol \<Rightarrow> bool" where
  "IpProtocol_wf t = (case t of Unknown i \<Rightarrow> map_of IpProtocol_ids i = None | _ \<Rightarrow> True)"

definition IpProtocol_read :: "deku \<Rightarrow> IpProtocol reader" where
  "IpProtocol_read D = rmap IpProtocol_of_id (read_uint D 8)"

definition IpProtocol_write :: "deku \<Rightarrow> IpProtocol writer" where
  "IpProtocol_write D t = write_uint D 8 (IpProtocol_id t)"

lemma IpProtocol_ids_sound: "list_all (\<lambda>(i, t). IpProtocol_id t = i) IpProtocol_ids"
  by (simp add: IpProtocol_ids_def)

lemma IpProtocol_ids_complete: "map_of IpProtocol_ids (IpProtocol_id t) = Some t \<or> (\<exists>i. t = Unknown i)"
  by (cases t) (simp_all add: IpProtocol_ids_def)

interpretation ipprotocol: id_enum IpProtocol_ids Unknown IpProtocol_id
  using IpProtocol_ids_sound IpProtocol_ids_complete
  by unfold_locales (auto simp: list_all_iff)

lemma IpProtocol_id_of_id [simp]: "IpProtocol_id (IpProtocol_of_id i) = i"
  unfolding IpProtocol_of_id_def by (rule ipprotocol.id_of_id)

lemma IpProtocol_of_id_id: "IpProtocol_wf t \<Longrightarrow> IpProtocol_of_id (IpProtocol_id t) = t"
  unfolding IpProtocol_of_id_def
  by (rule ipprotocol.of_id_id) (simp add: IpProtocol_wf_def)

lemma IpProtocol_ids_known: "list_all (\<lambda>(i, t). IpProtocol_wf t) IpProtocol_ids"
  by (simp add: IpProtocol_ids_def IpProtocol_wf_def)

lemma IpProtocol_wf_of_id [simp]: "IpProtocol_wf (IpProtocol_of_id i)"
proof (cases "map_of IpProtocol_ids i")
  case None
  then show ?thesis by (simp add: IpProtocol_of_id_def of_id_in_def IpProtocol_wf_def)
next
  case (Some t)
  then have "IpProtocol_id t = i" and known: "(i, t) \<in> set IpProtocol_ids"
    using IpProtocol_ids_sound by (auto simp: list_all_iff dest!: map_of_SomeD)
  moreover have "t = IpProtocol_of_id i"
    using Some by (simp add: IpProtocol_of_id_def of_id_in_def)
  ultimately show ?thesis
    using IpProtocol_ids_known by (auto simp: list_all_iff)
qed

context deku_laws
begin

lemma lossless_IpProtocol: "lossless (IpProtocol_read D) (IpProtocol_write D) IpProtocol_wf"
  unfolding IpProtocol_read_def IpProtocol_write_def
  by (rule lossless_map [OF lossless_u8]) simp

lemma rereads_IpProtocol: "rereads any_tail (IpProtocol_read D) (IpProtocol_write D) IpProtocol_wf"
  unfolding IpProtocol_read_def IpProtocol_write_def
  by (rule rereads_map [OF rereads_u8]) (simp add: IpProtocol_of_id_id)

lemma rfixed_IpProtocol [rfixed_intros]: "rfixed 8 (IpProtocol_read D)"
  unfolding IpProtocol_read_def by (intro rfixed_intros)

lemma wsize_IpProtocol [wsize_intros]: "wsize (IpProtocol_write D) (\<lambda>_. 8)"
  unfolding IpProtocol_write_def by (rule wsize_map [OF wsize_uint])

lemma wreturns_IpProtocol [wreturns_intros]: "wreturns (IpProtocol_write D)"
  unfolding IpProtocol_write_def by (rule wreturns_map [OF wreturns_uint])

end

end
