(* ===== verification/Ip_Checksum.thy ===== *)
theory Ip_Checksum
  imports Layer_Core
begin

text \<open>
  \<open>checksum\<close> of \<open>src/layer/ip/mod.rs\<close>: the 16-bit one's complement checksum of IPv4, ICMP, TCP and
  UDP.  The abstract specification is the end-around carry addition of RFC 1071 on the list of
  16-bit words; the code accumulates the words in a \<open>u32\<close> and folds the carries at the end.
\<close>

section \<open>The code\<close>

definition u16_from_be_bytes :: "u8 \<Rightarrow> u8 \<Rightarrow> u16" where
  "u16_from_be_bytes a b = word_of_nat (256 * unat a + unat b)"

definition add_u32 :: "platform \<Rightarrow> u32 \<Rightarrow> u32 \<Rightarrow> ('e, u32) outcome" where
  "add_u32 pf a b = (if overflow_checks pf \<and> 2 ^ 32 \<le> unat a + unat b then Panic overflow_msg else Ok (a + b))"

text \<open>The loop over \<open>input.as_chunks::<2>()\<close> and the remaining odd byte.\<close>

fun sum_chunks :: "platform \<Rightarrow> u32 \<Rightarrow> bytes \<Rightarrow> ('e, u32) outcome" where
  "sum_chunks pf acc (a # b # rest) =
     obind (add_u32 pf acc (ucast (u16_from_be_bytes a b))) (\<lambda>acc. sum_chunks pf acc rest)"
| "sum_chunks pf acc [rem] = add_u32 pf acc (ucast (u16_from_be_bytes rem 0))"
| "sum_chunks pf acc [] = Ok acc"

definition checksum :: "platform \<Rightarrow> bytes \<Rightarrow> ('e, u16) outcome" where
  "checksum pf input =
     obind (sum_chunks pf 0 input) (\<lambda>acc.
     obind (add_u32 pf (acc AND 0xffff) (drop_bit 16 acc)) (\<lambda>carry_add.
     obind (add_u32 pf (carry_add AND 0xffff) (drop_bit 16 carry_add)) (\<lambda>folded.
     Ok (NOT (ucast folded)))))"

section \<open>The specification\<close>

fun be_words :: "bytes \<Rightarrow> nat list" where
  "be_words (a # b # rest) = (256 * unat a + unat b) # be_words rest"
| "be_words [a] = [256 * unat a]"
| "be_words [] = []"

definition be_sum :: "bytes \<Rightarrow> nat" where
  "be_sum bs = sum_list (be_words bs)"

definition carry_add16 :: "nat \<Rightarrow> nat \<Rightarrow> nat" where
  "carry_add16 a b = (if a + b < 65536 then a + b else a + b - 65535)"

definition ones_sum :: "nat list \<Rightarrow> nat" where
  "ones_sum ws = foldl carry_add16 0 ws"

definition rfc1071 :: "bytes \<Rightarrow> u16" where
  "rfc1071 bs = NOT (word_of_nat (ones_sum (be_words bs)))"

section \<open>Normal form of a one's complement sum\<close>

definition ones_norm :: "nat \<Rightarrow> nat" where
  "ones_norm n = (if n = 0 then 0 else (n - 1) mod 65535 + 1)"

lemma ones_norm_le: "ones_norm n \<le> 65535"
  unfolding ones_norm_def using mod_less_divisor [of 65535 "n - 1"] by auto

lemma ones_norm_unique:
  assumes "m \<le> 65535" and "m mod 65535 = n mod 65535" and "m = 0 \<longleftrightarrow> n = 0"
  shows "ones_norm n = m"
proof (cases "n = 0")
  case False
  then obtain k where k: "n = Suc k" by (cases n) auto
  from False assms(3) obtain j where j: "m = Suc j" by (cases m) auto
  have "k mod 65535 = j mod 65535"
    using assms(2) unfolding k j by (simp add: mod_Suc split: if_splits)
  with assms(1) j k show ?thesis by (simp add: ones_norm_def)
qed (use assms in \<open>simp add: ones_norm_def\<close>)

lemma ones_norm_mod: "ones_norm n mod 65535 = n mod 65535"
proof (cases n)
  case (Suc k)
  then show ?thesis by (simp add: ones_norm_def mod_simps)
qed (simp add: ones_norm_def)

lemma ones_norm_eq_0 [simp]: "ones_norm n = 0 \<longleftrightarrow> n = 0"
  by (simp add: ones_norm_def)

lemma carry_add16_norm:
  assumes "b \<le> 65535"
  shows "carry_add16 (ones_norm a) b = ones_norm (a + b)"
proof (rule ones_norm_unique [symmetric])
  let ?s = "ones_norm a + b"
  have "?s mod 65535 = (a + b) mod 65535"
    by (metis mod_add_left_eq ones_norm_mod)
  moreover have "(?s - 65535) mod 65535 = ?s mod 65535" if "65536 \<le> ?s"
    using that le_mod_geq [of 65535 ?s] by simp
  ultimately show "carry_add16 (ones_norm a) b mod 65535 = (a + b) mod 65535"
    by (auto simp: carry_add16_def)
  show "carry_add16 (ones_norm a) b \<le> 65535"
    using ones_norm_le [of a] assms by (auto simp: carry_add16_def)
  show "carry_add16 (ones_norm a) b = 0 \<longleftrightarrow> a + b = 0"
    using ones_norm_le [of a] ones_norm_eq_0 [of a] by (auto simp: carry_add16_def)
qed

lemma be_word_le: "256 * unat (a :: u8) + unat (b :: u8) \<le> 65535"
proof -
  have "unat a < 256" and "unat b < 256" by simp_all
  then show ?thesis by linarith
qed

lemma be_words_le: "w \<in> set (be_words bs) \<Longrightarrow> w \<le> 65535"
  by (induction bs rule: be_words.induct) (use be_word_le be_word_le [where b = 0] in auto)

lemma ones_sum_norm: "ones_sum (be_words bs) = ones_norm (be_sum bs)"
proof -
  have "foldl carry_add16 (ones_norm n) ws = ones_norm (n + sum_list ws)"
    if "\<forall>w \<in> set ws. w \<le> 65535" for n ws
    using that by (induction ws arbitrary: n) (simp_all add: carry_add16_norm add.assoc)
  from this [of "be_words bs" 0] show ?thesis
    using be_words_le by (simp add: ones_sum_def be_sum_def ones_norm_def)
qed

section \<open>Sums of words\<close>

lemma be_sum_simps [simp]:
  "be_sum [] = 0" "be_sum [a] = 256 * unat a" "be_sum (a # b # rest) = 256 * unat a + unat b + be_sum rest"
  by (simp_all add: be_sum_def)

lemma be_sum_append: "even (length xs) \<Longrightarrow> be_sum (xs @ ys) = be_sum xs + be_sum ys"
  by (induction xs rule: be_words.induct) auto

lemma be_sum_bound: "be_sum bs \<le> 65535 * ((length bs + 1) div 2)"
proof (induction bs rule: be_words.induct)
  case (1 a b rest)
  then show ?case
    using be_word_le [of a b] by simp
next
  case (2 a)
  then show ?case
    using be_word_le [of a 0] by simp
qed simp

lemma be_sum_small:
  assumes "length bs \<le> 131074"
  shows "be_sum bs < 2 ^ 32"
proof -
  have "65535 * ((length bs + 1) div 2) \<le> 65535 * (65537 :: nat)"
    using assms by (intro mult_le_mono2) simp
  with be_sum_bound [of bs] show ?thesis by simp
qed

section \<open>The code computes the specification\<close>

lemma unat_from_be_bytes: "unat (u16_from_be_bytes a b) = 256 * unat a + unat b"
  unfolding u16_from_be_bytes_def
  by (rule unat_word_of_nat_small [where n = 16]) (use be_word_le [of a b] in simp_all)

lemma unat_low16: "unat ((w :: u32) AND 0xffff) = unat w mod 65536"
proof -
  have "w AND 0xffff = take_bit 16 w"
    by (simp only: take_bit_eq_mask mask_eq_exp_minus_1) simp
  moreover have "unat (take_bit 16 w) = take_bit 16 (unat w)"
    by (simp only: unsigned_take_bit_eq)
  ultimately show ?thesis
    by (simp only: take_bit_eq_mod) simp
qed

lemma unat_high16: "unat (drop_bit 16 (w :: u32)) = unat w div 65536"
proof -
  have "unat (drop_bit 16 w) = drop_bit 16 (unat w)"
    by (simp only: unat_drop_bit_eq)
  then show ?thesis
    by (simp only: drop_bit_eq_div) simp
qed

text \<open>A checked sum below \<open>2^32\<close> is the sum; above, it panics or wraps around.\<close>

lemma unat_ucast_u16: "unat (ucast (w :: u16) :: u32) = unat w"
proof -
  have "unat w < 65536" by simp
  then have "unat w < 4294967296" by linarith
  then have "take_bit 32 (unat w) = unat w"
    by (simp add: take_bit_nat_eq_self_iff)
  then show ?thesis
    by (simp add: unsigned_ucast_eq)
qed

lemma sum_chunks_eq:
  "sum_chunks pf acc bs = (if overflow_checks pf \<and> 2 ^ 32 \<le> unat acc + be_sum bs
     then Panic overflow_msg else Ok (acc + word_of_nat (be_sum bs)))"
proof (induction pf acc bs rule: sum_chunks.induct)
  case (1 pf acc a b rest)
  define w where "w = u16_from_be_bytes a b"
  have sum: "be_sum (a # b # rest) = unat w + be_sum rest"
    by (simp only: w_def unat_from_be_bytes be_sum_simps)
  show ?case
  proof (cases "overflow_checks pf \<and> 2 ^ 32 \<le> unat acc + unat w")
    case True
    then show ?thesis
      unfolding sum sum_chunks.simps w_def [symmetric] by (simp add: add_u32_def unat_ucast_u16)
  next
    case False
    then have add: "add_u32 pf acc (ucast w) = Ok (acc + ucast w)"
      by (auto simp: add_u32_def unat_ucast_u16)
    have "unat (acc + ucast w) = unat acc + unat w" if "overflow_checks pf"
    proof -
      have "unat acc + unat (ucast w :: u32) < 2 ^ LENGTH(32)"
        using False that by (simp add: unat_ucast_u16)
      then show ?thesis
        by (subst unat_add_lem [THEN iffD1]) (simp_all add: unat_ucast_u16)
    qed
    moreover note 1 [of "acc + ucast w", unfolded w_def [symmetric]]
    ultimately show ?thesis
      unfolding sum sum_chunks.simps w_def [symmetric] by (cases "overflow_checks pf") (simp_all add: add add.assoc)
  qed
next
  case (2 pf acc rem)
  define w where "w = u16_from_be_bytes rem 0"
  have "be_sum [rem] = unat w"
    by (simp only: w_def unat_from_be_bytes be_sum_simps) simp
  then show ?case
    unfolding sum_chunks.simps w_def [symmetric] by (simp only:) (simp add: add_u32_def unat_ucast_u16)
next
  case (3 pf acc)
  have "\<not> 2 ^ 32 \<le> unat acc"
    using unat_less_width(3) [of acc] by (simp del: unat_less_width)
  then show ?case by simp
qed

text \<open>Folding the carries twice normalises a 32-bit sum.\<close>

lemma fold_mod: "(n mod 65536 + n div 65536) mod 65535 = n mod (65535 :: nat)"
proof -
  have "n = (n mod 65536 + n div 65536) + 65535 * (n div 65536)"
    by simp
  then show ?thesis
    by (metis mod_mult_self2)
qed

lemma fold_twice:
  fixes n :: nat
  assumes "n < 2 ^ 32"
  defines "f \<equiv> \<lambda>n :: nat. n mod 65536 + n div 65536"
  shows "f (f n) = ones_norm n" and "f n < 2 ^ 32"
proof -
  have "n div 65536 < 65536"
    using assms(1) by (simp add: less_mult_imp_div_less)
  then have fn: "f n \<le> 131070"
    using mod_less_divisor [of 65536 n] unfolding f_def by linarith
  then show "f n < 2 ^ 32" by simp
  have "f g \<le> 65535" if "g \<le> 131070" for g
    using that le_div_geq [of 65536 g] le_mod_geq [of 65536 g]
    by (cases "g < 65536") (simp_all add: f_def)
  with fn have "f (f n) \<le> 65535" by blast
  moreover have "f (f n) mod 65535 = n mod 65535"
    unfolding f_def by (simp only: fold_mod)
  moreover have zero: "f k = 0 \<longleftrightarrow> k = 0" for k
    unfolding f_def by (metis add_is_0 div_mult_mod_eq mod_0 div_0 mult_0)
  ultimately show "f (f n) = ones_norm n"
    by (intro ones_norm_unique [symmetric]) simp_all
qed

lemma add_u32_fold:
  assumes "unat w mod 65536 + unat w div 65536 < 2 ^ 32"
  shows "add_u32 pf (w AND 0xffff) (drop_bit 16 w) = Ok (word_of_nat (unat w mod 65536 + unat w div 65536))"
proof -
  have "(w AND 0xffff) + drop_bit 16 w = word_of_nat (unat (w AND 0xffff) + unat (drop_bit 16 w))"
    by simp
  then show ?thesis
    using assms unfolding add_u32_def unat_low16 unat_high16 by simp
qed

text \<open>The code on every branch, overflow of the accumulator included.\<close>

lemma checksum_eq:
  "checksum pf input = (if overflow_checks pf \<and> 2 ^ 32 \<le> be_sum input then Panic overflow_msg
     else Ok (NOT (word_of_nat (ones_norm (be_sum input mod 2 ^ 32)))))"
proof (cases "overflow_checks pf \<and> 2 ^ 32 \<le> be_sum input")
  case True
  then show ?thesis
    by (simp add: checksum_def sum_chunks_eq)
next
  case False
  let ?n = "be_sum input mod 2 ^ 32"
  let ?m = "?n mod 65536 + ?n div 65536"
  have n: "unat (word_of_nat (be_sum input) :: u32) = ?n"
    by (simp add: unat_of_nat take_bit_eq_mod)
  have less: "?n < 2 ^ 32" by simp
  have m: "unat (word_of_nat ?m :: u32) = ?m"
    by (rule unat_word_of_nat_small [where n = 32, OF fold_twice(2) [OF less]]) simp
  have k: "?m mod 65536 + ?m div 65536 = ones_norm ?n"
    using fold_twice(1) [OF less] by simp
  have kl: "ones_norm ?n < 2 ^ 32"
    using ones_norm_le [of ?n] by simp
  have 1: "sum_chunks pf 0 input = Ok (word_of_nat (be_sum input))"
    using False by (simp add: sum_chunks_eq)
  have 2: "add_u32 pf (word_of_nat (be_sum input) AND 0xffff) (drop_bit 16 (word_of_nat (be_sum input)))
      = Ok (word_of_nat ?m)"
    using add_u32_fold [of "word_of_nat (be_sum input)" pf, unfolded n, OF fold_twice(2) [OF less]] .
  have 3: "add_u32 pf (word_of_nat ?m AND 0xffff) (drop_bit 16 (word_of_nat ?m)) = Ok (word_of_nat (ones_norm ?n))"
    using add_u32_fold [of "word_of_nat ?m" pf, unfolded m k, OF kl] .
  have 4: "(ucast (word_of_nat (ones_norm ?n) :: u32) :: u16) = word_of_nat (ones_norm ?n)"
    by (simp only: word_unat_eq_iff unsigned_ucast_eq unsigned_of_nat) (simp add: take_bit_take_bit)
  show ?thesis
    using False unfolding checksum_def 1 obind.simps 2 3 4 by simp
qed


text \<open>The 16-bit value written big-endian into two bytes.\<close>

definition u16_to_be_bytes :: "u16 \<Rightarrow> bytes" where
  "u16_to_be_bytes c = [word_of_nat (unat c div 256), word_of_nat (unat c)]"

lemma length_u16_to_be_bytes [simp]: "length (u16_to_be_bytes c) = 2"
  by (simp add: u16_to_be_bytes_def)

lemma be_sum_u16_to_be_bytes: "be_sum (u16_to_be_bytes c) = unat c"
proof -
  have "unat c div 256 < 256"
    using unat_less_width(2) [of c] by (simp add: less_mult_imp_div_less del: unat_less_width)
  then have "unat (word_of_nat (unat c div 256) :: u8) = unat c div 256"
    by (intro unat_word_of_nat_small [where n = 8]) simp_all
  moreover have "unat (word_of_nat (unat c) :: u8) = unat c mod 256"
    by (simp only: unsigned_of_nat take_bit_eq_mod) simp
  ultimately show ?thesis
    unfolding u16_to_be_bytes_def be_sum_simps by simp
qed

lemma unat_not_norm: "unat (NOT (word_of_nat (ones_norm n) :: u16)) = 65535 - ones_norm n"
proof -
  have "unat (word_of_nat (ones_norm n) :: u16) = ones_norm n"
    using ones_norm_le [of n] by (intro unat_word_of_nat_small [where n = 16]) simp_all
  moreover have "unat (NOT w) = 65535 - unat w" for w :: u16
  proof -
    have "NOT w = 65535 - w"
      by (simp add: not_eq_complement)
    moreover have "w \<le> 65535"
      using unat_less_width(2) [of w] by (simp add: word_le_nat_alt less_Suc_eq_le del: unat_less_width)
    ultimately show ?thesis
      by (simp add: unat_sub)
  qed
  ultimately show ?thesis by simp
qed

lemma ones_norm_complement: "ones_norm (n + (65535 - ones_norm n)) = 65535"
proof (rule ones_norm_unique)
  have le: "ones_norm n \<le> 65535" by (rule ones_norm_le)
  have "(n + (65535 - ones_norm n)) mod 65535 = (ones_norm n + (65535 - ones_norm n)) mod 65535"
    by (metis mod_add_left_eq ones_norm_mod)
  with le show "65535 mod 65535 = (n + (65535 - ones_norm n)) mod 65535" by simp
  show "(65535 :: nat) = 0 \<longleftrightarrow> n + (65535 - ones_norm n) = 0"
    using le by (cases "n = 0") (simp_all add: ones_norm_def [of 0])
qed simp

text \<open>Filling the checksum into its own zeroed field makes the whole sum to zero.\<close>

lemma checksum_fill:
  assumes "even (length pre)" and "length pre + 2 + length post \<le> 131074"
  shows "\<exists>c. checksum pf (pre @ [0, 0] @ post) = Ok c \<and>
     checksum pf (pre @ u16_to_be_bytes c @ post) = Ok 0"
proof -
  let ?n = "be_sum (pre @ [0, 0] @ post)"
  let ?c = "NOT (word_of_nat (ones_norm ?n)) :: u16"
  have n: "?n < 2 ^ 32"
    using assms(2) by (intro be_sum_small) simp
  have c: "checksum pf (pre @ [0, 0] @ post) = Ok ?c"
    using n unfolding checksum_eq by (simp only: mod_less not_le [symmetric]) simp
  let ?filled = "pre @ u16_to_be_bytes ?c @ post"
  have filled: "be_sum ?filled = ?n + (65535 - ones_norm ?n)"
    using assms(1) unat_not_norm [of ?n]
    by (simp add: be_sum_append be_sum_u16_to_be_bytes)
  have "be_sum ?filled < 2 ^ 32"
    using assms(2) by (intro be_sum_small) simp
  then have "checksum pf ?filled = Ok (NOT (word_of_nat (ones_norm (be_sum ?filled))))"
    unfolding checksum_eq by (simp only: mod_less not_le [symmetric]) simp
  also have "ones_norm (be_sum ?filled) = 65535"
    unfolding filled by (rule ones_norm_complement)
  also have "NOT (word_of_nat 65535 :: u16) = 0"
  proof -
    have "(word_of_nat 65535 :: u16) = - 1" by simp
    then show ?thesis by (simp only: bit.compl_one)
  qed
  finally show ?thesis
    using c by blast
qed

text \<open>The value of a checksum, and when a message verifies.\<close>

lemma checksum_rfc:
  assumes "length input \<le> 131074"
  shows "checksum pf input = Ok (rfc1071 input)"
  using be_sum_small [OF assms] unfolding checksum_eq rfc1071_def ones_sum_norm
  by (simp only: mod_less not_le [symmetric]) simp

lemma unat_rfc1071: "unat (rfc1071 input) = 65535 - ones_norm (be_sum input)"
  unfolding rfc1071_def ones_sum_norm by (rule unat_not_norm)

lemma ones_norm_full_iff: "ones_norm n = 65535 \<longleftrightarrow> n \<noteq> 0 \<and> n mod 65535 = 0"
proof (cases "n = 0")
  case False
  have "ones_norm n = 65535 \<longleftrightarrow> ones_norm n mod 65535 = 0"
    using False ones_norm_le [of n] ones_norm_eq_0 [of n]
    by (metis le_neq_implies_less mod_less mod_self)
  then show ?thesis
    using False by (simp add: ones_norm_mod)
qed (simp add: ones_norm_def)

lemma checksum_zero_iff:
  assumes "length input \<le> 131074"
  shows "checksum pf input = Ok 0 \<longleftrightarrow> be_sum input \<noteq> 0 \<and> be_sum input mod 65535 = 0"
proof -
  have "checksum pf input = Ok 0 \<longleftrightarrow> unat (rfc1071 input) = 0"
    unfolding checksum_rfc [OF assms] by (simp add: unat_eq_zero)
  also have "\<dots> \<longleftrightarrow> ones_norm (be_sum input) = 65535"
    using ones_norm_le [of "be_sum input"] by (auto simp: unat_rfc1071)
  finally show ?thesis
    by (simp add: ones_norm_full_iff)
qed

lemma rfc1071_completes: "(be_sum input + unat (rfc1071 input)) mod 65535 = 0"
  using ones_norm_complement [of "be_sum input"] by (simp add: unat_rfc1071 ones_norm_full_iff)

text \<open>The checksum field of a serialised header.\<close>

context deku_laws
begin

lemma to_bytes_hole:
  assumes hole: "u16_hole f upd w (8 * n)" and sz: "wsize w sz" and al: "\<And>v. 8 dvd sz v"
    and hdr: "to_bytes_with D w v = Ok hdr"
  shows "\<exists>pre post. length pre = n \<and> hdr = pre @ u16_to_be_bytes (f v) @ post \<and>
     (\<forall>c. to_bytes_with D w (upd c v) = Ok (pre @ u16_to_be_bytes c @ post))"
proof -
  from hdr obtain b where b: "w v = Ok b" and hdr: "hdr = pack b"
    using to_bytes_with_Ok_iff [OF sz al] by auto
  from hole b obtain pre post where pre: "length pre = 8 * n"
      and eq: "b = pre @ bits_be 16 (unat (f v)) @ post"
      and upd: "\<And>c. w (upd c v) = Ok (pre @ bits_be 16 (unat c) @ post)"
    unfolding u16_hole_def by blast
  have pack: "pack (pre @ bits_be 16 (unat c) @ post) = pack pre @ u16_to_be_bytes c @ pack post" for c
    using pre by (simp add: pack_append pack_bits_be_16 u16_to_be_bytes_def)
  have "to_bytes_with D w (upd c v) = Ok (pack pre @ u16_to_be_bytes c @ pack post)" for c
  proof -
    have "8 dvd length (pre @ bits_be 16 (unat c) @ post)"
      using sz al upd unfolding wsize_def by metis
    with upd show ?thesis
      using to_bytes_with_Ok pack by metis
  qed
  moreover have "length (pack pre) = n"
    using length_pack [of pre] pre by simp
  ultimately show ?thesis
    using hdr eq pack by blast
qed

end

text \<open>Clearing the checksum field of a header, as every \<open>finalize\<close> does.\<close>

lemma clear_checksum:
  assumes "length pre = n" and "m = Suc n"
  shows "obind (set_byte (pre @ u16_to_be_bytes c @ post) n 0) (\<lambda>data. set_byte data m 0)
    = (Ok (pre @ [0, 0] @ post) :: (LayerError, bytes) outcome)"
  using assms by (simp add: set_byte_def u16_to_be_bytes_def list_update_append)

section \<open>Properties\<close>

text \<open>
  (C2) For inputs of at most 131074 bytes (more than any IP packet holds) the code returns the
  RFC 1071 checksum: the complement of the end-around carry sum of the big-endian 16-bit words,
  an odd last byte padded with zero.
\<close>

theorem checksum_is_rfc1071:
  assumes "length input \<le> 131074"
  shows "checksum pf input = Ok (rfc1071 input)"
  using assms by (rule checksum_rfc)

theorem checksum_is_rfc1071_witness:
  "length (replicate 3 (1 :: u8)) \<le> 131074 \<and> checksum dev_profile (replicate 3 1) = Ok (rfc1071 (replicate 3 1))"
  using checksum_is_rfc1071 [of "replicate 3 1" dev_profile] by simp

text \<open>
  Storing the checksum of a message into the message's zeroed, even-aligned checksum field
  makes the message verify: its checksum is then 0.
\<close>

lemma checksum_verifies:
  assumes "even (length pre)" and "length pre + 2 + length post \<le> 131074"
  shows "\<exists>c. checksum pf (pre @ [0, 0] @ post) = Ok c \<and>
     checksum pf (pre @ u16_to_be_bytes c @ post) = Ok 0"
  using assms by (rule checksum_fill)

lemma be_sum_replicate: "be_sum (replicate (2 * n) 255) = n * 65535"
  by (induction n) simp_all

text \<open>
  (C34) The \<open>u32\<close> accumulator overflows on long inputs (TCP over IPv6 and ICMP do not bound the
  length): on 131076 bytes of \<open>0xff\<close> a build with overflow checks panics and a release build returns
  1 where RFC 1071 gives 0.
\<close>

theorem checksum_accumulator_overflow:
  "checksum dev_profile (replicate 131076 255) = Panic overflow_msg
   \<and> checksum release_profile (replicate 131076 255) = Ok 1
   \<and> rfc1071 (replicate 131076 255) = 0"
proof -
  have sum: "be_sum (replicate 131076 255) = 65538 * 65535"
    using be_sum_replicate [of 65538] by simp
  show ?thesis
    unfolding checksum_eq rfc1071_def ones_sum_norm sum
    by (simp add: dev_profile_def release_profile_def ones_norm_def)
qed

end
