(* ===== verification/Ipv4.thy ===== *)
theory Ipv4
  imports Ip_Protocol Ip_Checksum
begin

text \<open>
  \<open>src/layer/ip/ipv4.rs\<close>: the IPv4 header with its options, and the header checksum.  \<open>finalize\<close>,
  which needs the other layers of the packet, is in theory \<open>Finalize\<close>.
\<close>

section \<open>Options\<close>

datatype Ipv4OptionClass = Control | Reserved1 | Debug | Reserved2

fun Ipv4OptionClass_id :: "Ipv4OptionClass \<Rightarrow> u8" where
  "Ipv4OptionClass_id Control = 0"
| "Ipv4OptionClass_id Reserved1 = 1"
| "Ipv4OptionClass_id Debug = 2"
| "Ipv4OptionClass_id Reserved2 = 3"

definition Ipv4OptionClass_read :: "deku \<Rightarrow> Ipv4OptionClass reader" where
  "Ipv4OptionClass_read D = rbind (read_uint D 2) (\<lambda>i :: u8.
     if i = 0 then rret Control
     else if i = 1 then rret Reserved1
     else if i = 2 then rret Debug
     else if i = 3 then rret Reserved2
     else rfail (dk_no_variant D ''Ipv4OptionClass'' (unat i)))"

definition Ipv4OptionClass_write :: "deku \<Rightarrow> Ipv4OptionClass writer" where
  "Ipv4OptionClass_write D = wfield Ipv4OptionClass_id (write_uint D 2) wdone"

datatype Ipv4OptionType = EOOL | NOP | Unknown (opt_type: u8) (opt_length: u8) (opt_value: bytes)

fun Ipv4OptionType_id :: "Ipv4OptionType \<Rightarrow> u8" where
  "Ipv4OptionType_id EOOL = 0"
| "Ipv4OptionType_id NOP = 1"
| "Ipv4OptionType_id (Unknown ty len val) = ty"

definition ipv4_option_overflow :: DekuError where
  "ipv4_option_overflow = DParse ''overflow when parsing ipv4 option''"

text \<open>The catch-all variant keeps the identifier in its first field.\<close>

definition Ipv4OptionType_read :: "deku \<Rightarrow> Ipv4OptionType reader" where
  "Ipv4OptionType_read D = rbind (read_uint D 5) (\<lambda>i :: u8.
     if i = 0 then rret EOOL
     else if i = 1 then rret NOP
     else rbind (read_uint D 8) (\<lambda>len.
       rbind (rtry ipv4_option_overflow (u8_checked_sub len 2)) (\<lambda>n.
       rbind (read_count (read_uint D 8) (unat n)) (\<lambda>val.
       rret (Unknown i len val)))))"

fun Ipv4OptionType_body :: "deku \<Rightarrow> Ipv4OptionType writer" where
  "Ipv4OptionType_body D (Unknown ty len val) =
     wfield opt_length (write_uint D 8) (wfield opt_value (write_list (write_uint D 8)) wdone)
       (Unknown ty len val)"
| "Ipv4OptionType_body D t = Ok []"

definition Ipv4OptionType_write :: "deku \<Rightarrow> Ipv4OptionType writer" where
  "Ipv4OptionType_write D = wfield Ipv4OptionType_id (write_uint D 5) (Ipv4OptionType_body D)"

text \<open>\<open>DekuUpdate::update\<close>: the length field from the value.\<close>

definition Ipv4OptionType_update ::
    "platform \<Rightarrow> deku \<Rightarrow> Ipv4OptionType \<Rightarrow> Ipv4OptionType \<times> (DekuError, unit) outcome" where
  "Ipv4OptionType_update pf D self = (case self of
       Unknown ty len val \<Rightarrow>
         try_in self (ok_or (DParse ''overflow when updating ipv4 option length'')
             (checked_add_usize pf (length val) 2)) (\<lambda>n.
         try_in self (ok_or (dk_int_error D) (u8_try_from n)) (\<lambda>len'.
         (Unknown ty len' val, Ok ())))
     | _ \<Rightarrow> (self, Ok ()))"

record Ipv4Option =
  opt_copied :: u8
  opt_class :: Ipv4OptionClass
  opt_option :: Ipv4OptionType

definition Ipv4Option_read :: "deku \<Rightarrow> Ipv4Option reader" where
  "Ipv4Option_read D =
     rbind (read_uint D 1) (\<lambda>copied.
     rbind (Ipv4OptionClass_read D) (\<lambda>cls.
     rbind (Ipv4OptionType_read D) (\<lambda>opt.
     rret \<lparr>opt_copied = copied, opt_class = cls, opt_option = opt\<rparr>)))"

definition Ipv4Option_write :: "deku \<Rightarrow> Ipv4Option writer" where
  "Ipv4Option_write D =
     wfield opt_copied (write_uint D 1) (
     wfield opt_class (Ipv4OptionClass_write D) (
     wfield opt_option (Ipv4OptionType_write D) wdone))"

section \<open>The header\<close>

record Ipv4 =
  ip4_version :: u8
  ip4_ihl :: u8
  ip4_dscp :: u8
  ip4_ecn :: u8
  ip4_length :: u16
  ip4_identification :: u16
  ip4_flags :: u8
  ip4_offset :: u16
  ip4_ttl :: u8
  ip4_protocol :: IpProtocol
  ip4_checksum :: u16
  ip4_src :: u32
  ip4_dst :: u32
  ip4_options :: "Ipv4Option list"

text \<open>\<open>bytes_read = "ihl.saturating_sub(5) * 4"\<close>; a four-bit \<open>ihl\<close> cannot overflow the product.\<close>

definition Ipv4_options_bytes :: "u8 \<Rightarrow> u8" where
  "Ipv4_options_bytes ihl = u8_saturating_sub ihl 5 * 4"

definition Ipv4_read :: "deku \<Rightarrow> Ipv4 reader" where
  "Ipv4_read D =
     rbind (read_uint D 4) (\<lambda>version.
     rbind (read_uint D 4) (\<lambda>ihl.
     rbind (read_uint D 6) (\<lambda>dscp.
     rbind (read_uint D 2) (\<lambda>ecn.
     rbind (read_uint D 16) (\<lambda>len.
     rbind (read_uint D 16) (\<lambda>identification.
     rbind (read_uint D 3) (\<lambda>flags.
     rbind (read_uint D 13) (\<lambda>offset.
     rbind (read_uint D 8) (\<lambda>ttl.
     rbind (IpProtocol_read D) (\<lambda>protocol.
     rbind (read_uint D 16) (\<lambda>csum.
     rbind (read_uint D 32) (\<lambda>src.
     rbind (read_uint D 32) (\<lambda>dst.
     rbind (read_limit D (8 * unat (Ipv4_options_bytes ihl)) (Ipv4Option_read D) 0) (\<lambda>options.
     rret \<lparr>ip4_version = version, ip4_ihl = ihl, ip4_dscp = dscp, ip4_ecn = ecn, ip4_length = len,
       ip4_identification = identification, ip4_flags = flags, ip4_offset = offset, ip4_ttl = ttl,
       ip4_protocol = protocol, ip4_checksum = csum, ip4_src = src, ip4_dst = dst,
       ip4_options = options\<rparr>))))))))))))))"

definition Ipv4_write :: "deku \<Rightarrow> Ipv4 writer" where
  "Ipv4_write D =
     wfield ip4_version (write_uint D 4) (
     wfield ip4_ihl (write_uint D 4) (
     wfield ip4_dscp (write_uint D 6) (
     wfield ip4_ecn (write_uint D 2) (
     wfield ip4_length (write_uint D 16) (
     wfield ip4_identification (write_uint D 16) (
     wfield ip4_flags (write_uint D 3) (
     wfield ip4_offset (write_uint D 13) (
     wfield ip4_ttl (write_uint D 8) (
     wfield ip4_protocol (IpProtocol_write D) (
     wfield ip4_checksum (write_uint D 16) (
     wfield ip4_src (write_uint D 32) (
     wfield ip4_dst (write_uint D 32) (
     wfield ip4_options (write_list (Ipv4Option_write D)) wdone)))))))))))))"

definition Ipv4_parse :: "platform \<Rightarrow> deku \<Rightarrow> bytes \<Rightarrow> (LayerError, bytes \<times> Ipv4) outcome" where
  "Ipv4_parse pf D input = parse_with pf D (Ipv4_read D) input"

definition Ipv4_to_bytes :: "deku \<Rightarrow> Ipv4 \<Rightarrow> (LayerError, bytes) outcome" where
  "Ipv4_to_bytes D self = to_bytes_with D (Ipv4_write D) self"

definition Ipv4_default :: Ipv4 where
  "Ipv4_default = \<lparr>ip4_version = 4, ip4_ihl = 5, ip4_dscp = 0, ip4_ecn = 0, ip4_length = 0,
     ip4_identification = 0, ip4_flags = 0, ip4_offset = 0, ip4_ttl = 0,
     ip4_protocol = IpProtocol_default, ip4_checksum = 0, ip4_src = 0x7F000001, ip4_dst = 0x7F000001,
     ip4_options = []\<rparr>"

definition Ipv4_update_checksum :: "platform \<Rightarrow> deku \<Rightarrow> Ipv4 \<Rightarrow> Ipv4 \<times> (LayerError, unit) outcome" where
  "Ipv4_update_checksum pf D self =
     try_in self (Ipv4_to_bytes D self) (\<lambda>ipv4.
     try_in self (obind (set_byte ipv4 10 0) (\<lambda>ipv4. set_byte ipv4 11 0)) (\<lambda>ipv4.
     try_in self (checksum pf ipv4) (\<lambda>c.
     (self\<lparr>ip4_checksum := c\<rparr>, Ok ()))))"

section \<open>Well-formed headers\<close>

text \<open>Sizes in bits, and the headers that are read back as they were written.\<close>

fun Ipv4OptionType_bits :: "Ipv4OptionType \<Rightarrow> nat" where
  "Ipv4OptionType_bits (Unknown ty len val) = 13 + 8 * length val"
| "Ipv4OptionType_bits t = 5"

definition Ipv4Option_bits :: "Ipv4Option \<Rightarrow> nat" where
  "Ipv4Option_bits opt = 3 + Ipv4OptionType_bits (opt_option opt)"

definition Ipv4_bits :: "Ipv4 \<Rightarrow> nat" where
  "Ipv4_bits v = 160 + sum_list (map Ipv4Option_bits (ip4_options v))"

fun Ipv4OptionType_wf :: "Ipv4OptionType \<Rightarrow> bool" where
  "Ipv4OptionType_wf (Unknown ty len val) \<longleftrightarrow>
     ty \<noteq> 0 \<and> ty \<noteq> 1 \<and> unat ty < 32 \<and> unat len = length val + 2"
| "Ipv4OptionType_wf t = True"

definition Ipv4Option_wf :: "Ipv4Option \<Rightarrow> bool" where
  "Ipv4Option_wf opt \<longleftrightarrow> unat (opt_copied opt) < 2 \<and> Ipv4OptionType_wf (opt_option opt)"

definition Ipv4_parsed :: "Ipv4 \<Rightarrow> bool" where
  "Ipv4_parsed v \<longleftrightarrow> unat (ip4_version v) < 16 \<and> unat (ip4_ihl v) < 16 \<and> unat (ip4_dscp v) < 64 \<and>
     unat (ip4_ecn v) < 4 \<and> unat (ip4_flags v) < 8 \<and> unat (ip4_offset v) < 8192 \<and>
     IpProtocol_wf (ip4_protocol v) \<and> list_all Ipv4Option_wf (ip4_options v) \<and>
     (unat (ip4_ihl v) \<le> 5 \<longrightarrow> ip4_options v = [])"

definition Ipv4_wf :: "Ipv4 \<Rightarrow> bool" where
  "Ipv4_wf v \<longleftrightarrow> Ipv4_parsed v \<and>
     sum_list (map Ipv4Option_bits (ip4_options v)) = 32 * (unat (ip4_ihl v) - 5)"

lemma unat_options_bytes:
  assumes "unat ihl < 16"
  shows "8 * unat (Ipv4_options_bytes ihl) = 32 * (unat ihl - 5)"
proof (cases "5 \<le> ihl")
  case True
  then have sub: "unat (ihl - 5) = unat ihl - 5"
    by (simp add: unat_sub)
  with assms have "unat ((ihl - 5) * 4) = (unat ihl - 5) * 4"
    by (subst unat_mult_lem [THEN iffD1]) simp_all
  with True show ?thesis
    by (simp add: Ipv4_options_bytes_def u8_saturating_sub_def)
next
  case False
  then show ?thesis
    by (simp add: Ipv4_options_bytes_def u8_saturating_sub_def word_le_nat_alt)
qed


lemma Ipv4Option_bits_dvd: "8 dvd Ipv4Option_bits opt"
  by (cases "opt_option opt") (simp_all add: Ipv4Option_bits_def)

lemma Ipv4_bits_dvd: "8 dvd Ipv4_bits v"
proof -
  have "8 dvd sum_list (map Ipv4Option_bits opts)" for opts
    using Ipv4Option_bits_dvd by (induction opts) auto
  moreover have "8 dvd (160 :: nat)" by simp
  ultimately show ?thesis
    unfolding Ipv4_bits_def by (intro dvd_add)
qed

section \<open>Codec\<close>

text \<open>The part of the header after its first byte.\<close>

definition Ipv4_read_tail :: "deku \<Rightarrow> u8 \<Rightarrow> u8 \<Rightarrow> Ipv4 reader" where
  "Ipv4_read_tail E version ihl =
     rbind (read_uint E 6) (\<lambda>dscp. rbind (read_uint E 2) (\<lambda>ecn. rbind (read_uint E 16) (\<lambda>len.
     rbind (read_uint E 16) (\<lambda>identification. rbind (read_uint E 3) (\<lambda>flags. rbind (read_uint E 13) (\<lambda>offset.
     rbind (read_uint E 8) (\<lambda>ttl. rbind (IpProtocol_read E) (\<lambda>protocol. rbind (read_uint E 16) (\<lambda>csum.
     rbind (read_uint E 32) (\<lambda>src. rbind (read_uint E 32) (\<lambda>dst.
     rbind (read_limit E (8 * unat (Ipv4_options_bytes ihl)) (Ipv4Option_read E) 0) (\<lambda>options.
     rret \<lparr>ip4_version = version, ip4_ihl = ihl, ip4_dscp = dscp, ip4_ecn = ecn, ip4_length = len,
       ip4_identification = identification, ip4_flags = flags, ip4_offset = offset, ip4_ttl = ttl,
       ip4_protocol = protocol, ip4_checksum = csum, ip4_src = src, ip4_dst = dst,
       ip4_options = options\<rparr>))))))))))))"

lemma Ipv4_read_split:
  "Ipv4_read E = rbind (read_uint E 4) (\<lambda>version. rbind (read_uint E 4) (\<lambda>ihl. Ipv4_read_tail E version ihl))"
  unfolding Ipv4_read_def Ipv4_read_tail_def ..

context deku_laws
begin

subsection \<open>Options\<close>

lemma lossless_Ipv4OptionClass:
  "lossless (Ipv4OptionClass_read D) (Ipv4OptionClass_write D) (\<lambda>_. True)"
  unfolding Ipv4OptionClass_read_def Ipv4OptionClass_write_def
  by (rule lossless_field [OF lossless_uint]) (auto intro!: lossless_done lossless_fail)

lemma u8_below_4: "unat (i :: u8) < 4 \<Longrightarrow> i = 0 \<or> i = 1 \<or> i = 2 \<or> i = 3"
  by (simp add: word_unat_eq_iff) linarith

lemma rereads_Ipv4OptionClass:
  "rereads any_tail (Ipv4OptionClass_read D) (Ipv4OptionClass_write D) (\<lambda>_. True)"
  unfolding Ipv4OptionClass_read_def Ipv4OptionClass_write_def
proof (rule rereads_field [OF rereads_uint])
  fix v show "unat (Ipv4OptionClass_id v) < 2 ^ 2"
    by (cases v) simp_all
next
  fix i :: u8 assume "unat i < 2 ^ 2"
  moreover have "v = Control" if "Ipv4OptionClass_id v = 0" for v using that by (cases v) simp_all
  moreover have "v = Reserved1" if "Ipv4OptionClass_id v = 1" for v using that by (cases v) simp_all
  moreover have "v = Debug" if "Ipv4OptionClass_id v = 2" for v using that by (cases v) simp_all
  moreover have "v = Reserved2" if "Ipv4OptionClass_id v = 3" for v using that by (cases v) simp_all
  ultimately show "rereads any_tail (if i = 0 then rret Control else if i = 1 then rret Reserved1
      else if i = 2 then rret Debug else if i = 3 then rret Reserved2
      else rfail (dk_no_variant D ''Ipv4OptionClass'' (unat i))) wdone (\<lambda>v. True \<and> Ipv4OptionClass_id v = i)"
    using u8_below_4 [of i] by (auto intro!: rereads_done)
qed simp

lemma rsafe_Ipv4OptionClass [rsafe_intros]: "rsafe (Ipv4OptionClass_read D)"
  unfolding Ipv4OptionClass_read_def by (auto intro!: rsafe_intros)

lemma wsize_Ipv4OptionClass [wsize_intros]: "wsize (Ipv4OptionClass_write D) (\<lambda>_. 2)"
proof -
  have "wsize (Ipv4OptionClass_write D) (\<lambda>_. 2 + 0)"
    unfolding Ipv4OptionClass_write_def by (intro wsize_intros)
  then show ?thesis by simp
qed

lemma wreturns_Ipv4OptionClass [wreturns_intros]: "wreturns (Ipv4OptionClass_write D)"
  unfolding Ipv4OptionClass_write_def by (intro wreturns_intros)

lemma lossless_Ipv4OptionType:
  "lossless (Ipv4OptionType_read D) (Ipv4OptionType_write D) Ipv4OptionType_wf"
  unfolding Ipv4OptionType_read_def Ipv4OptionType_write_def
proof (rule lossless_field [OF lossless_uint])
  fix i :: u8 assume i: "unat i < 2 ^ 5"
  let ?P = "\<lambda>v. Ipv4OptionType_wf v \<and> Ipv4OptionType_id v = i"
  let ?r = "rbind (read_uint D 8) (\<lambda>len. rbind (rtry ipv4_option_overflow (u8_checked_sub len 2)) (\<lambda>n.
    rbind (read_count (read_uint D 8) (unat n)) (\<lambda>val. rret (Unknown i len val))))"
  have "lossless ?r (Ipv4OptionType_body D) ?P" if "i \<noteq> 0" "i \<noteq> 1"
  proof -
    have "lossless ?r (wfield opt_length (write_uint D 8) (wfield opt_value (write_list (write_uint D 8)) wdone))
        (\<lambda>v. ?P v \<and> (\<exists>t l x. v = Unknown t l x))"
      using i that
      by (intro lossless_field [OF lossless_u8] lossless_rtry lossless_field [OF lossless_count [OF lossless_u8]]
          lossless_done) (auto simp: u8_checked_sub_Some)
    then have "lossless ?r (Ipv4OptionType_body D) (\<lambda>v. ?P v \<and> (\<exists>t l x. v = Unknown t l x))"
      by (rule lossless_wcong) auto
    then show ?thesis by (rule lossless_weaken) simp
  qed
  then show "lossless (if i = 0 then rret EOOL else if i = 1 then rret NOP else ?r) (Ipv4OptionType_body D) ?P"
    by (auto simp: lossless_def rret_def)
qed simp

lemma rereads_Ipv4OptionType:
  "rereads any_tail (Ipv4OptionType_read D) (Ipv4OptionType_write D) Ipv4OptionType_wf"
  unfolding Ipv4OptionType_read_def Ipv4OptionType_write_def
proof (rule rereads_field [OF rereads_uint])
  fix v assume "Ipv4OptionType_wf v"
  then show "unat (Ipv4OptionType_id v) < 2 ^ 5" by (cases v) auto
next
  fix i :: u8 assume i: "unat i < 2 ^ 5"
  let ?P = "\<lambda>v. Ipv4OptionType_wf v \<and> Ipv4OptionType_id v = i"
  let ?r = "rbind (read_uint D 8) (\<lambda>len. rbind (rtry ipv4_option_overflow (u8_checked_sub len 2)) (\<lambda>n.
    rbind (read_count (read_uint D 8) (unat n)) (\<lambda>val. rret (Unknown i len val))))"
  have P: "?P v \<longleftrightarrow> (if i = 0 then v = EOOL else if i = 1 then v = NOP
      else \<exists>len val. v = Unknown i len val \<and> unat len = length val + 2)" for v
    using i by (cases v) auto
  have "rereads any_tail ?r (Ipv4OptionType_body D) ?P" if "i \<noteq> 0" "i \<noteq> 1"
  proof -
    have "rereads any_tail ?r (wfield opt_length (write_uint D 8) (wfield opt_value (write_list (write_uint D 8)) wdone)) ?P"
      using that unfolding P
      by (intro rereads_field [OF rereads_u8] rereads_rtry rereads_field [OF rereads_count [OF rereads_u8]]
          rereads_done TrueI) (auto simp: u8_checked_sub_ex dest!: u8_checked_sub_Some [THEN iffD1])
    then show ?thesis by (rule rereads_wcong) (use that P in auto)
  qed
  then show "rereads any_tail (if i = 0 then rret EOOL else if i = 1 then rret NOP else ?r) (Ipv4OptionType_body D) ?P"
    unfolding P by (auto simp: rereads_def rret_def)
qed simp

lemma rsafe_Ipv4OptionType [rsafe_intros]: "rsafe (Ipv4OptionType_read D)"
  unfolding Ipv4OptionType_read_def by (auto intro!: rsafe_intros)

lemma wsize_Ipv4OptionType [wsize_intros]: "wsize (Ipv4OptionType_write D) Ipv4OptionType_bits"
proof -
  have "wsize (wfield opt_length (write_uint D 8) (wfield opt_value (write_list (write_uint D 8)) wdone))
      (\<lambda>v. 8 + (sum_list (map (\<lambda>_. 8) (opt_value v)) + 0))"
    by (intro wsize_intros)
  then have "length b = 8 + 8 * length val"
    if "Ipv4OptionType_body D (Unknown ty len val) = Ok b" for ty len val b
    using that unfolding wsize_def by (fastforce simp: sum_list_triv)
  then have "wsize (Ipv4OptionType_body D) (\<lambda>v. Ipv4OptionType_bits v - 5)"
    unfolding wsize_def by (auto elim!: Ipv4OptionType_body.elims)
  then have "wsize (Ipv4OptionType_write D) (\<lambda>v. 5 + (Ipv4OptionType_bits v - 5))"
    unfolding Ipv4OptionType_write_def by (intro wsize_field wsize_uint)
  moreover have "5 + (Ipv4OptionType_bits v - 5) = Ipv4OptionType_bits v" for v
    by (cases v) simp_all
  ultimately show ?thesis by simp
qed

lemma wreturns_Ipv4OptionType [wreturns_intros]: "wreturns (Ipv4OptionType_write D)"
proof -
  have "wreturns (wfield opt_length (write_uint D 8) (wfield opt_value (write_list (write_uint D 8)) wdone))"
    by (intro wreturns_intros)
  then have "returns (Ipv4OptionType_body D v)" for v
    by (cases v) (auto simp: wreturns_def)
  then have "wreturns (Ipv4OptionType_body D)"
    by (simp add: wreturns_def)
  then show ?thesis
    unfolding Ipv4OptionType_write_def by (intro wreturns_intros)
qed

lemma lossless_Ipv4Option: "lossless (Ipv4Option_read D) (Ipv4Option_write D) Ipv4Option_wf"
  unfolding Ipv4Option_read_def Ipv4Option_write_def
  by (intro lossless_field [OF lossless_uint] lossless_field [OF lossless_Ipv4OptionClass]
      lossless_field [OF lossless_Ipv4OptionType] lossless_done) (simp_all add: Ipv4Option_wf_def)

lemma rereads_Ipv4Option: "rereads any_tail (Ipv4Option_read D) (Ipv4Option_write D) Ipv4Option_wf"
  unfolding Ipv4Option_read_def Ipv4Option_write_def
  by (intro rereads_field [OF rereads_uint] rereads_field [OF rereads_Ipv4OptionClass]
      rereads_field [OF rereads_Ipv4OptionType] rereads_done) (simp_all add: Ipv4Option_wf_def)

lemma rsafe_Ipv4Option [rsafe_intros]: "rsafe (Ipv4Option_read D)"
  unfolding Ipv4Option_read_def by (intro rsafe_intros)

lemma rprogress_Ipv4Option: "rprogress (Ipv4Option_read D)"
  unfolding Ipv4Option_read_def by (intro rprogress_bind rprogress_uint rsafe_intros) simp

lemma wsize_Ipv4Option [wsize_intros]: "wsize (Ipv4Option_write D) Ipv4Option_bits"
proof -
  have "wsize (Ipv4Option_write D) (\<lambda>v. 1 + (2 + (Ipv4OptionType_bits (opt_option v) + 0)))"
    unfolding Ipv4Option_write_def by (intro wsize_intros)
  then show ?thesis by (simp add: Ipv4Option_bits_def [abs_def] numeral_3_eq_3)
qed

lemma wreturns_Ipv4Option [wreturns_intros]: "wreturns (Ipv4Option_write D)"
  unfolding Ipv4Option_write_def by (intro wreturns_intros)

subsection \<open>The header\<close>

lemma lossless_Ipv4: "lossless (Ipv4_read D) (Ipv4_write D) Ipv4_parsed"
  unfolding Ipv4_read_def Ipv4_write_def
  by (intro lossless_field [OF lossless_uint] lossless_field [OF lossless_IpProtocol]
      lossless_field [OF lossless_limit_nil [OF lossless_Ipv4Option]] lossless_done)
    (simp_all add: Ipv4_parsed_def list_all_iff unat_options_bytes)

lemma rereads_Ipv4: "rereads any_tail (Ipv4_read D) (Ipv4_write D) Ipv4_wf"
  unfolding Ipv4_read_def Ipv4_write_def
  by (intro rereads_field [OF rereads_uint] rereads_field [OF rereads_IpProtocol]
      rereads_field [OF rereads_limit [OF rereads_Ipv4Option wsize_Ipv4Option]] rereads_done)
    (auto simp: Ipv4_wf_def Ipv4_parsed_def list_all_iff unat_options_bytes Ipv4Option_bits_def)

lemma rsafe_Ipv4: "rsafe (Ipv4_read D)"
  unfolding Ipv4_read_def
  by (intro rsafe_intros rsafe_limit rprogress_Ipv4Option rfixed_rsafe [OF rfixed_IpProtocol])

lemma rmin_Ipv4: "rmin (8 * 20) (Ipv4_read D)"
proof -
  have "rmin (4 + (4 + (6 + (2 + (16 + (16 + (3 + (13 + (8 + (8 + (16 + (32 + (32 + 0))))))))))))) (Ipv4_read D)"
    unfolding Ipv4_read_def by (intro rfixed_intros)
  then show ?thesis by simp
qed

text \<open>What follows the first byte of a header without options has a fixed size.\<close>

lemma rfixed_Ipv4_tail:
  assumes "unat (Ipv4_options_bytes ihl) = 0"
  shows "rfixed (8 * 19) (Ipv4_read_tail D version ihl)"
proof -
  have "rfixed (6 + (2 + (16 + (16 + (3 + (13 + (8 + (8 + (16 + (32 + (32 + (0 + 0)))))))))))) (Ipv4_read_tail D version ihl)"
    unfolding Ipv4_read_tail_def assms mult_0_right read_limit_0 by (intro rfixed_intros)
  then show ?thesis by simp
qed

lemma Ipv4_parse_plain:
  assumes "20 \<le> length input" and "unat (input ! 0) mod 16 \<le> 5"
  shows "\<exists>v. Ipv4_parse pf D input = Ok (drop 20 input, v)"
proof -
  obtain b bs where input: "input = b # bs"
    using assms(1) by (cases input) auto
  let ?v = "word_of_nat (unat b div 16) :: u8" and ?ihl = "word_of_nat (unat b mod 16) :: u8"
  have ihl: "unat ?ihl = unat b mod 16"
    by (rule unat_word_of_nat_small [where n = 4]) simp_all
  have 1: "read_uint D 4 (input, 0) = Ok (advance 4 (input, 0), ?v)"
    using assms(1) by (subst read_uint_enough) (simp_all add: input nat_of_bits_nibbles)
  have 2: "read_uint D 4 (advance 4 (input, 0)) = Ok (advance 8 (input, 0), ?ihl)"
    using assms(1) by (subst read_uint_enough) (simp_all add: input nat_of_bits_nibbles)
  have "unat (Ipv4_options_bytes ?ihl) = 0"
    using unat_options_bytes [of ?ihl] assms(2) ihl by (simp add: input)
  from rfixed_Ipv4_tail [OF this] have tail: "rfixed (8 * 19) (Ipv4_read_tail D ?v ?ihl)" .
  have "8 * 19 \<le> remaining (advance 8 (input, 0))"
    using assms(1) by simp
  from rfixed_enough [OF tail snd_advance this] obtain v
    where "Ipv4_read_tail D ?v ?ihl (advance 8 (input, 0)) = Ok (advance (8 * 19) (advance 8 (input, 0)), v)" .
  with 1 2 have "Ipv4_read D (input, 0) = Ok (advance (8 * 20) (input, 0), v)"
    by (simp add: Ipv4_read_split rbind_def)
  then have "Ipv4_read D (input, 0) = Ok ((drop 20 input, 0), v)"
    unfolding advance_start .
  then show ?thesis
    by (simp add: Ipv4_parse_def parse_with_def debug_assert_def)
qed

lemma wsize_Ipv4: "wsize (Ipv4_write D) Ipv4_bits"
proof -
  have "wsize (Ipv4_write D) (\<lambda>v. 4 + (4 + (6 + (2 + (16 + (16 + (3 + (13 + (8 + (8 + (16 + (32 + (32 +
      (sum_list (map Ipv4Option_bits (ip4_options v)) + 0))))))))))))))"
    unfolding Ipv4_write_def by (intro wsize_intros)
  then show ?thesis by (simp add: Ipv4_bits_def [abs_def] add.assoc)
qed

lemma wreturns_Ipv4: "wreturns (Ipv4_write D)"
  unfolding Ipv4_write_def by (intro wreturns_intros)

lemma ipv4_codec: "layer_codec (Ipv4_parse pf D) (Ipv4_to_bytes D) Ipv4_wf (\<lambda>_. True)"
  using layer_codecI [OF lossless_Ipv4 rereads_Ipv4 rsafe_Ipv4 wsize_Ipv4 Ipv4_bits_dvd Ipv4_bits_dvd
      wreturns_Ipv4, where pf = pf]
  by (simp add: any_tail_def Ipv4_parse_def [abs_def] Ipv4_to_bytes_def [abs_def])

lemma Ipv4_to_bytes_length:
  assumes "Ipv4_to_bytes D v = Ok hdr"
  shows "8 * length hdr = Ipv4_bits v"
  using to_bytes_with_length [OF wsize_Ipv4 Ipv4_bits_dvd] assms by (simp add: Ipv4_to_bytes_def)

lemma Ipv4_hole: "u16_hole ip4_checksum (\<lambda>c v. v\<lparr>ip4_checksum := c\<rparr>) (Ipv4_write D) (8 * 10)"
proof -
  have "u16_hole ip4_checksum (\<lambda>c v. v\<lparr>ip4_checksum := c\<rparr>) (Ipv4_write D)
      (4 + (4 + (6 + (2 + (16 + (16 + (3 + (13 + (8 + (8 + 0))))))))))"
    unfolding Ipv4_write_def
    by (intro u16_hole_skip wsize_intros u16_hole_here) (simp_all add: wfield_def wdone_def)
  then show ?thesis by simp
qed

lemma Ipv4_to_bytes_checksum:
  assumes "Ipv4_to_bytes D v = Ok hdr"
  shows "\<exists>pre post. length pre = 10 \<and> hdr = pre @ u16_to_be_bytes (ip4_checksum v) @ post \<and>
     (\<forall>c. Ipv4_to_bytes D (v\<lparr>ip4_checksum := c\<rparr>) = Ok (pre @ u16_to_be_bytes c @ post))"
  using to_bytes_hole [OF Ipv4_hole wsize_Ipv4 Ipv4_bits_dvd] assms by (simp add: Ipv4_to_bytes_def)

lemma Ipv4_update_checksum_cases:
  "(\<exists>e. Ipv4_to_bytes D v = Err e \<and> Ipv4_update_checksum pf D v = (v, Err e)) \<or>
   (\<exists>pre post. Ipv4_to_bytes D v = Ok (pre @ u16_to_be_bytes (ip4_checksum v) @ post) \<and> length pre = 10 \<and>
     (\<forall>c. Ipv4_to_bytes D (v\<lparr>ip4_checksum := c\<rparr>) = Ok (pre @ u16_to_be_bytes c @ post)) \<and>
     Ipv4_update_checksum pf D v = try_in v (checksum pf (pre @ [0, 0] @ post)) (\<lambda>c.
       (v\<lparr>ip4_checksum := c\<rparr>, Ok ())))"
proof (cases "Ipv4_to_bytes D v")
  case (Ok hdr)
  from Ipv4_to_bytes_checksum [OF this] obtain pre post where pre: "length pre = 10"
      and hdr: "hdr = pre @ u16_to_be_bytes (ip4_checksum v) @ post"
      and upd: "\<forall>c. Ipv4_to_bytes D (v\<lparr>ip4_checksum := c\<rparr>) = Ok (pre @ u16_to_be_bytes c @ post)"
    by blast
  have "Ipv4_update_checksum pf D v = try_in v (checksum pf (pre @ [0, 0] @ post)) (\<lambda>c.
       (v\<lparr>ip4_checksum := c\<rparr>, Ok ()))"
    using Ok clear_checksum [OF pre, of 11 "ip4_checksum v" post]
    by (simp add: Ipv4_update_checksum_def hdr)
  with Ok hdr pre upd show ?thesis by blast
next
  case (Err e)
  then show ?thesis by (simp add: Ipv4_update_checksum_def)
qed (use layer_codec.to_bytes_returns [OF ipv4_codec, of v] in simp_all)

lemma Ipv4_update_checksum_valid:
  assumes "Ipv4_bits v \<le> 8 * 131074"
  shows "case Ipv4_to_bytes D v of
      Ok hdr \<Rightarrow> \<exists>c hdr'. Ipv4_update_checksum pf D v = (v\<lparr>ip4_checksum := c\<rparr>, Ok ()) \<and>
        Ipv4_to_bytes D (v\<lparr>ip4_checksum := c\<rparr>) = Ok hdr' \<and> length hdr' = length hdr \<and>
        checksum pf hdr' = (Ok 0 :: (LayerError, u16) outcome)
    | Err e \<Rightarrow> Ipv4_update_checksum pf D v = (v, Err e)
    | _ \<Rightarrow> False"
  using Ipv4_update_checksum_cases [of v pf]
proof (elim disjE exE conjE)
  fix pre post assume pre: "length pre = 10"
    and ok: "Ipv4_to_bytes D v = Ok (pre @ u16_to_be_bytes (ip4_checksum v) @ post)"
    and upd: "\<forall>c. Ipv4_to_bytes D (v\<lparr>ip4_checksum := c\<rparr>) = Ok (pre @ u16_to_be_bytes c @ post)"
    and run: "Ipv4_update_checksum pf D v = try_in v (checksum pf (pre @ [0, 0] @ post)) (\<lambda>c.
       (v\<lparr>ip4_checksum := c\<rparr>, Ok ()))"
  have "length pre + 2 + length post \<le> 131074"
    using Ipv4_to_bytes_length [OF ok] assms by simp
  then obtain c where "checksum pf (pre @ [0, 0] @ post) = (Ok c :: (LayerError, u16) outcome)"
      and "checksum pf (pre @ u16_to_be_bytes c @ post) = (Ok 0 :: (LayerError, u16) outcome)"
    using checksum_fill [of pre post pf] pre by (metis even_numeral)
  with ok upd run show ?thesis by auto
qed simp

lemma Ipv4_parse_short:
  assumes "length input < 20"
  shows "\<exists>n. Ipv4_parse pf D input = Err (Incomplete n)"
  using parse_with_min [OF rmin_Ipv4 assms] by (simp add: Ipv4_parse_def)

lemma Ipv4_parse_sound:
  "case Ipv4_parse pf D input of
     Ok (rest, v) \<Rightarrow> Ipv4_parsed v \<and> (\<exists>hdr. Ipv4_to_bytes D v = Ok hdr \<and> input = hdr @ rest \<and> 20 \<le> length hdr)
   | Err e \<Rightarrow> True | _ \<Rightarrow> False"
proof (cases "Ipv4_parse pf D input")
  case (Ok p)
  then obtain rest v where p: "p = (rest, v)" by (cases p)
  from layer_codec.parse_lossless [OF ipv4_codec Ok [unfolded p]] obtain hdr
    where hdr: "Ipv4_to_bytes D v = Ok hdr" "input = hdr @ rest" by blast
  have "20 \<le> length hdr"
    using Ipv4_to_bytes_length [OF hdr(1)] by (simp add: Ipv4_bits_def)
  moreover obtain c where "Ipv4_read D (input, 0) = Ok (c, v)"
    using Ok p by (auto simp: Ipv4_parse_def parse_with_def outcome_simps)
  then have "Ipv4_parsed v"
    using lossless_Ipv4 unfolding lossless_def by (metis snd_conv zero_less_numeral)
  ultimately show ?thesis
    using Ok p hdr by simp
qed (use layer_codec.parse_returns [OF ipv4_codec, of pf input] in simp_all)

end

sublocale nata_env \<subseteq> ipv4: layer_codec "Ipv4_parse pf D" "Ipv4_to_bytes D" Ipv4_wf "\<lambda>_. True"
  by (rule ipv4_codec)

section \<open>Properties\<close>

text \<open>
  (C26) Parsing an IPv4 header always returns.  An input of fewer than 20 bytes is incomplete; a
  header without options (\<open>ihl\<close> at most 5) of which 20 bytes are there always parses and takes
  exactly those; and every header that is parsed consists of exactly the bytes that serialising it
  gives back, at least 20, with every field within its width.
\<close>

theorem Ipv4_parse_total:
  assumes "deku_laws D"
  shows "(length input < 20 \<longrightarrow> (\<exists>n. Ipv4_parse pf D input = Err (Incomplete n))) \<and>
    (20 \<le> length input \<and> unat (input ! 0) mod 16 \<le> 5 \<longrightarrow> (\<exists>v. Ipv4_parse pf D input = Ok (drop 20 input, v))) \<and>
    (case Ipv4_parse pf D input of
       Ok (rest, v) \<Rightarrow> Ipv4_parsed v \<and> (\<exists>hdr. Ipv4_to_bytes D v = Ok hdr \<and> input = hdr @ rest \<and> 20 \<le> length hdr)
     | Err e \<Rightarrow> True | _ \<Rightarrow> False)"
  using deku_laws.Ipv4_parse_short [OF assms] deku_laws.Ipv4_parse_plain [OF assms]
    deku_laws.Ipv4_parse_sound [OF assms] by blast

theorem Ipv4_parse_total_witness:
  "deku_laws ref_deku \<and> (\<exists>v. Ipv4_parse dev_profile ref_deku (replicate 24 0x45) = Ok (replicate 4 0x45, v))"
  using ref.deku_laws_axioms Ipv4_parse_total [OF ref.deku_laws_axioms, of "replicate 24 0x45" dev_profile]
  by simp

text \<open>
  A well-formed IPv4 header (fields within their widths, options that fill the \<open>ihl\<close>) serialises
  to 4 bytes per word of its \<open>ihl\<close> and is parsed back unchanged, whatever follows it.
\<close>

lemma Ipv4_roundtrip:
  assumes "deku_laws D" and "Ipv4_wf v"
  shows "\<exists>hdr. Ipv4_to_bytes D v = Ok hdr \<and> length hdr = 20 + 4 * (unat (ip4_ihl v) - 5) \<and>
     (\<forall>rest. Ipv4_parse pf D (hdr @ rest) = Ok (rest, v))"
proof -
  from layer_codec.reparse [OF deku_laws.ipv4_codec [OF assms(1)] assms(2)] obtain hdr
    where hdr: "Ipv4_to_bytes D v = Ok hdr" "\<forall>rest. Ipv4_parse pf D (hdr @ rest) = Ok (rest, v)"
    by blast
  have "8 * length hdr = 160 + 32 * (unat (ip4_ihl v) - 5)"
    using deku_laws.Ipv4_to_bytes_length [OF assms(1) hdr(1)] assms(2) by (simp add: Ipv4_bits_def Ipv4_wf_def)
  with hdr show ?thesis by auto
qed

definition Ipv4_sample :: Ipv4 where
  "Ipv4_sample = Ipv4_default\<lparr>ip4_ihl := 6, ip4_options := [
     \<lparr>opt_copied = 1, opt_class = Debug, opt_option = Unknown 7 3 [9]\<rparr>,
     \<lparr>opt_copied = 0, opt_class = Control, opt_option = EOOL\<rparr>]\<rparr>"

text \<open>
  \<open>update_checksum\<close> changes nothing but the checksum field, never panics on a header of sane size,
  and leaves a header that verifies: the checksum of its bytes is 0.  It fails only when the header
  does not serialise, and then leaves the header as it was.
\<close>

lemma Ipv4_update_checksum_verifies:
  assumes "deku_laws D" and "Ipv4_bits v \<le> 8 * 131074"
  shows "case Ipv4_to_bytes D v of
      Ok hdr \<Rightarrow> \<exists>c hdr'. Ipv4_update_checksum pf D v = (v\<lparr>ip4_checksum := c\<rparr>, Ok ()) \<and>
        Ipv4_to_bytes D (v\<lparr>ip4_checksum := c\<rparr>) = Ok hdr' \<and> length hdr' = length hdr \<and>
        checksum pf hdr' = (Ok 0 :: (LayerError, u16) outcome)
    | Err e \<Rightarrow> Ipv4_update_checksum pf D v = (v, Err e)
    | _ \<Rightarrow> False"
  by (rule deku_laws.Ipv4_update_checksum_valid [OF assms])

end
