(* ===== verification/Ipv6.thy ===== *)
theory Ipv6
  imports Ip_Protocol
begin

text \<open>
  \<open>src/layer/ip/ipv6.rs\<close>: the fixed IPv6 header, 40 bytes.  \<open>finalize\<close> is in theory \<open>Finalize\<close>.
\<close>

record Ipv6 =
  ip6_version :: u8
  ip6_ds :: u8
  ip6_ecn :: u8
  ip6_label :: u32
  ip6_length :: u16
  ip6_next_header :: IpProtocol
  ip6_hop_limit :: u8
  ip6_src :: u128
  ip6_dst :: u128

definition Ipv6_default :: Ipv6 where
  "Ipv6_default = \<lparr>ip6_version = 0, ip6_ds = 0, ip6_ecn = 0, ip6_label = 0, ip6_length = 0,
     ip6_next_header = IPV6NONXT, ip6_hop_limit = 0,
     ip6_src = 0xff000000000000000000000000000000, ip6_dst = 0xff000000000000000000000000000000\<rparr>"

definition Ipv6_read :: "deku \<Rightarrow> Ipv6 reader" where
  "Ipv6_read D =
     rbind (read_uint D 4) (\<lambda>version.
     rbind (read_uint D 6) (\<lambda>ds.
     rbind (read_uint D 2) (\<lambda>ecn.
     rbind (read_uint D 20) (\<lambda>label.
     rbind (read_uint D 16) (\<lambda>len.
     rbind (IpProtocol_read D) (\<lambda>next_header.
     rbind (read_uint D 8) (\<lambda>hop_limit.
     rbind (read_uint D 128) (\<lambda>src.
     rbind (read_uint D 128) (\<lambda>dst.
     rret \<lparr>ip6_version = version, ip6_ds = ds, ip6_ecn = ecn, ip6_label = label, ip6_length = len,
       ip6_next_header = next_header, ip6_hop_limit = hop_limit, ip6_src = src, ip6_dst = dst\<rparr>)))))))))"

definition Ipv6_write :: "deku \<Rightarrow> Ipv6 writer" where
  "Ipv6_write D =
     wfield ip6_version (write_uint D 4) (
     wfield ip6_ds (write_uint D 6) (
     wfield ip6_ecn (write_uint D 2) (
     wfield ip6_label (write_uint D 20) (
     wfield ip6_length (write_uint D 16) (
     wfield ip6_next_header (IpProtocol_write D) (
     wfield ip6_hop_limit (write_uint D 8) (
     wfield ip6_src (write_uint D 128) (
     wfield ip6_dst (write_uint D 128) wdone))))))))"

definition Ipv6_parse :: "platform \<Rightarrow> deku \<Rightarrow> bytes \<Rightarrow> (LayerError, bytes \<times> Ipv6) outcome" where
  "Ipv6_parse pf D input = parse_with pf D (Ipv6_read D) input"

definition Ipv6_to_bytes :: "deku \<Rightarrow> Ipv6 \<Rightarrow> (LayerError, bytes) outcome" where
  "Ipv6_to_bytes D self = to_bytes_with D (Ipv6_write D) self"

text \<open>A header whose fields fit their widths.\<close>

definition Ipv6_wf :: "Ipv6 \<Rightarrow> bool" where
  "Ipv6_wf v \<longleftrightarrow> unat (ip6_version v) < 16 \<and> unat (ip6_ds v) < 64 \<and> unat (ip6_ecn v) < 4 \<and>
     unat (ip6_label v) < 1048576 \<and> IpProtocol_wf (ip6_next_header v)"

section \<open>Codec\<close>

context deku_laws
begin

lemma lossless_Ipv6: "lossless (Ipv6_read D) (Ipv6_write D) Ipv6_wf"
  unfolding Ipv6_read_def Ipv6_write_def
  by (intro lossless_field [OF lossless_uint] lossless_field [OF lossless_IpProtocol] lossless_done)
    (simp_all add: Ipv6_wf_def)

lemma rereads_Ipv6: "rereads any_tail (Ipv6_read D) (Ipv6_write D) Ipv6_wf"
  unfolding Ipv6_read_def Ipv6_write_def
  by (intro rereads_field [OF rereads_uint] rereads_field [OF rereads_IpProtocol] rereads_done)
    (simp_all add: Ipv6_wf_def)

lemma rfixed_Ipv6: "rfixed (8 * 40) (Ipv6_read D)"
proof -
  have "rfixed (4 + (6 + (2 + (20 + (16 + (8 + (8 + (128 + (128 + 0))))))))) (Ipv6_read D)"
    unfolding Ipv6_read_def by (intro rfixed_intros)
  then show ?thesis by simp
qed

lemma wsize_Ipv6: "wsize (Ipv6_write D) (\<lambda>_. 8 * 40)"
proof -
  have "wsize (Ipv6_write D) (\<lambda>_. 4 + (6 + (2 + (20 + (16 + (8 + (8 + (128 + (128 + 0)))))))))"
    unfolding Ipv6_write_def by (intro wsize_intros)
  then show ?thesis by simp
qed

lemma wreturns_Ipv6: "wreturns (Ipv6_write D)"
  unfolding Ipv6_write_def by (intro wreturns_intros)

lemma ipv6_header: "fixed_header (Ipv6_parse pf D) (Ipv6_to_bytes D) Ipv6_wf (\<lambda>_. True) 40"
  unfolding Ipv6_parse_def Ipv6_to_bytes_def
  by (rule fixed_headerI [OF lossless_Ipv6 rereads_Ipv6 rfixed_Ipv6 wsize_Ipv6 wreturns_Ipv6])

lemma Ipv6_hole_length: "u16_hole ip6_length (\<lambda>n v. v\<lparr>ip6_length := n\<rparr>) (Ipv6_write D) (8 * 4)"
proof -
  have "u16_hole ip6_length (\<lambda>n v. v\<lparr>ip6_length := n\<rparr>) (Ipv6_write D) (4 + (6 + (2 + (20 + 0))))"
    unfolding Ipv6_write_def
    by (intro u16_hole_skip wsize_intros u16_hole_here) (simp_all add: wfield_def wdone_def)
  then show ?thesis by simp
qed

end

sublocale nata_env \<subseteq> ipv6: fixed_header "Ipv6_parse pf D" "Ipv6_to_bytes D" Ipv6_wf "\<lambda>_. True" 40
  by (rule ipv6_header)

section \<open>Properties\<close>

text \<open>
  Parsing an IPv6 header succeeds exactly when 40 bytes are there, consumes exactly those, and
  serialising the result gives the same 40 bytes; a shorter input is reported as incomplete.
\<close>

lemma Ipv6_parse_total:
  assumes "deku_laws D"
  shows "if 40 \<le> length input
     then \<exists>v. Ipv6_parse pf D input = Ok (drop 40 input, v) \<and> Ipv6_to_bytes D v = Ok (take 40 input)
     else \<exists>n. Ipv6_parse pf D input = Err (Incomplete n)"
  by (rule fixed_header.parse_total [OF deku_laws.ipv6_header [OF assms]])

text \<open>
  An IPv6 header whose fields fit their widths serialises to 40 bytes and is parsed back
  unchanged, whatever follows it.
\<close>

lemma Ipv6_roundtrip:
  assumes "deku_laws D" and "Ipv6_wf v"
  shows "\<exists>hdr. Ipv6_to_bytes D v = Ok hdr \<and> length hdr = 40 \<and>
     (\<forall>rest. Ipv6_parse pf D (hdr @ rest) = Ok (rest, v))"
  using fixed_header.roundtrip [OF deku_laws.ipv6_header [OF assms(1)] assms(2)] by simp

end
