(* ===== verification/Icmp_Type.thy ===== *)
theory Icmp_Type
  imports Layer_Core Id_Table
begin

text \<open>
  \<open>src/layer/icmp/icmp_type.rs\<close>: the type of an ICMP message, an 8-bit identifier.
\<close>

datatype (plugins only:) IcmpType =
    EchoReply | DestUnreach | SourceQuench | Redirect | AlternateHostAddress | EchoRequest
  | RouterAdvertisement | RouterSolicitation | TimeExceeded | ParameterProblem | TimestampRequest | TimestampReply
  | InformationRequest | InformationReply | AddressMaskRequest | AddressMaskReply | Traceroute | DatagramConversionError
  | MobileHostRedirect | Ipv6WhereAreYou | Ipv6IAmHere | MobileRegistrationRequest | MobileRegistrationReply | DomainNameRequest
  | DomainNameReply | Skip | Photuris | ExtendedEchoRequest | ExtendedEchoReply | Unknown u8

text \<open>The identifiers, in the order of the declaration.\<close>

definition IcmpType_ids :: "(u8 \<times> IcmpType) list" where
  "IcmpType_ids =
    [(0, EchoReply), (3, DestUnreach), (4, SourceQuench), (5, Redirect),
     (6, AlternateHostAddress), (8, EchoRequest), (9, RouterAdvertisement), (10, RouterSolicitation),
     (11, TimeExceeded), (12, ParameterProblem), (13, TimestampRequest), (14, TimestampReply),
     (15, InformationRequest), (16, InformationReply), (17, AddressMaskRequest), (18, AddressMaskReply),
     (30, Traceroute), (31, DatagramConversionError), (32, MobileHostRedirect), (33, Ipv6WhereAreYou),
     (34, Ipv6IAmHere), (35, MobileRegistrationRequest), (36, MobileRegistrationReply), (37, DomainNameRequest),
     (38, DomainNameReply), (39, Skip), (40, Photuris), (42, ExtendedEchoRequest),
     (43, ExtendedEchoReply)]"

primrec IcmpType_id :: "IcmpType \<Rightarrow> u8" where
  "IcmpType_id EchoReply = 0"
| "IcmpType_id DestUnreach = 3"
| "IcmpType_id SourceQuench = 4"
| "IcmpType_id Redirect = 5"
| "IcmpType_id AlternateHostAddress = 6"
| "IcmpType_id EchoRequest = 8"
| "IcmpType_id RouterAdvertisement = 9"
| "IcmpType_id RouterSolicitation = 10"
| "IcmpType_id TimeExceeded = 11"
| "IcmpType_id ParameterProblem = 12"
| "IcmpType_id TimestampRequest = 13"
| "IcmpType_id TimestampReply = 14"
| "IcmpType_id InformationRequest = 15"
| "IcmpType_id InformationReply = 16"
| "IcmpType_id AddressMaskRequest = 17"
| "IcmpType_id AddressMaskReply = 18"
| "IcmpType_id Traceroute = 30"
| "IcmpType_id DatagramConversionError = 31"
| "IcmpType_id MobileHostRedirect = 32"
| "IcmpType_id Ipv6WhereAreYou = 33"
| "IcmpType_id Ipv6IAmHere = 34"
| "IcmpType_id MobileRegistrationRequest = 35"
| "IcmpType_id MobileRegistrationReply = 36"
| "IcmpType_id DomainNameRequest = 37"
| "IcmpType_id DomainNameReply = 38"
| "IcmpType_id Skip = 39"
| "IcmpType_id Photuris = 40"
| "IcmpType_id ExtendedEchoRequest = 42"
| "IcmpType_id ExtendedEchoReply = 43"
| "IcmpType_id (Unknown i) = i"

text \<open>Reading looks the identifier up; an identifier that is not listed is kept in \<open>Unknown\<close>.\<close>

definition IcmpType_of_id :: "u8 \<Rightarrow> IcmpType" where
  "IcmpType_of_id = of_id_in IcmpType_ids Unknown"

definition IcmpType_wf :: "IcmpType \<Rightarrow> bool" where
  "IcmpType_wf t = (case t of Unknown i \<Rightarrow> map_of IcmpType_ids i = None | _ \<Rightarrow> True)"

definition IcmpType_read :: "deku \<Rightarrow> IcmpType reader" where
  "IcmpType_read D = rmap IcmpType_of_id (read_uint D 8)"

definition IcmpType_write :: "deku \<Rightarrow> IcmpType writer" where
  "IcmpType_write D t = write_uint D 8 (IcmpType_id t)"

lemma IcmpType_ids_sound: "list_all (\<lambda>(i, t). IcmpType_id t = i) IcmpType_ids"
  by (simp add: IcmpType_ids_def)

lemma IcmpType_ids_complete: "map_of IcmpType_ids (IcmpType_id t) = Some t \<or> (\<exists>i. t = Unknown i)"
  by (cases t) (simp_all add: IcmpType_ids_def)

interpretation icmptype: id_enum IcmpType_ids Unknown IcmpType_id
  using IcmpType_ids_sound IcmpType_ids_complete
  by unfold_locales (auto simp: list_all_iff)

lemma IcmpType_id_of_id [simp]: "IcmpType_id (IcmpType_of_id i) = i"
  unfolding IcmpType_of_id_def by (rule icmptype.id_of_id)

lemma IcmpType_of_id_id: "IcmpType_wf t \<Longrightarrow> IcmpType_of_id (IcmpType_id t) = t"
  unfolding IcmpType_of_id_def
  by (rule icmptype.of_id_id) (simp add: IcmpType_wf_def)

lemma IcmpType_ids_known: "list_all (\<lambda>(i, t). IcmpType_wf t) IcmpType_ids"
  by (simp add: IcmpType_ids_def IcmpType_wf_def)

lemma IcmpType_wf_of_id [simp]: "IcmpType_wf (IcmpType_of_id i)"
proof (cases "map_of IcmpType_ids i")
  case None
  then show ?thesis by (simp add: IcmpType_of_id_def of_id_in_def IcmpType_wf_def)
next
  case (Some t)
  then have "IcmpType_id t = i" and known: "(i, t) \<in> set IcmpType_ids"
    using IcmpType_ids_sound by (auto simp: list_all_iff dest!: map_of_SomeD)
  moreover have "t = IcmpType_of_id i"
    using Some by (simp add: IcmpType_of_id_def of_id_in_def)
  ultimately show ?thesis
    using IcmpType_ids_known by (auto simp: list_all_iff)
qed

context deku_laws
begin

lemma lossless_IcmpType: "lossless (IcmpType_read D) (IcmpType_write D) IcmpType_wf"
  unfolding IcmpType_read_def IcmpType_write_def
  by (rule lossless_map [OF lossless_u8]) simp

lemma rereads_IcmpType: "rereads any_tail (IcmpType_read D) (IcmpType_write D) IcmpType_wf"
  unfolding IcmpType_read_def IcmpType_write_def
  by (rule rereads_map [OF rereads_u8]) (simp add: IcmpType_of_id_id)

lemma rfixed_IcmpType [rfixed_intros]: "rfixed 8 (IcmpType_read D)"
  unfolding IcmpType_read_def by (intro rfixed_intros)

lemma wsize_IcmpType [wsize_intros]: "wsize (IcmpType_write D) (\<lambda>_. 8)"
  unfolding IcmpType_write_def by (rule wsize_map [OF wsize_uint])

lemma wreturns_IcmpType [wreturns_intros]: "wreturns (IcmpType_write D)"
  unfolding IcmpType_write_def by (rule wreturns_map [OF wreturns_uint])

end

end
