(* ===== verification/Icmp.thy ===== *)
theory Icmp
  imports Icmp_Type Raw Ip_Checksum
begin

text \<open>
  \<open>src/layer/icmp/mod.rs\<close>: an ICMP message; the data is all the rest of the input, and the checksum
  covers the whole message.
\<close>

record Icmp4 =
  icmp_type :: IcmpType
  icmp_code :: u8
  icmp_checksum :: u16
  icmp_message :: u32
  icmp_data :: bytes

definition Icmp4_default :: Icmp4 where
  "Icmp4_default = \<lparr>icmp_type = EchoReply, icmp_code = 0, icmp_checksum = 0, icmp_message = 0, icmp_data = []\<rparr>"

definition Icmp4_read :: "deku \<Rightarrow> Icmp4 reader" where
  "Icmp4_read D =
     rbind (IcmpType_read D) (\<lambda>ty.
     rbind (read_uint D 8) (\<lambda>code.
     rbind (read_uint D 16) (\<lambda>csum.
     rbind (read_uint D 32) (\<lambda>message.
     rbind (read_all (read_uint D 8)) (\<lambda>data.
     rret \<lparr>icmp_type = ty, icmp_code = code, icmp_checksum = csum, icmp_message = message,
       icmp_data = data\<rparr>)))))"

definition Icmp4_write :: "deku \<Rightarrow> Icmp4 writer" where
  "Icmp4_write D =
     wfield icmp_type (IcmpType_write D) (
     wfield icmp_code (write_uint D 8) (
     wfield icmp_checksum (write_uint D 16) (
     wfield icmp_message (write_uint D 32) (
     wfield icmp_data (write_list (write_uint D 8)) wdone))))"

definition Icmp4_parse :: "platform \<Rightarrow> deku \<Rightarrow> bytes \<Rightarrow> (LayerError, bytes \<times> Icmp4) outcome" where
  "Icmp4_parse pf D input = parse_with pf D (Icmp4_read D) input"

definition Icmp4_to_bytes :: "deku \<Rightarrow> Icmp4 \<Rightarrow> (LayerError, bytes) outcome" where
  "Icmp4_to_bytes D self = to_bytes_with D (Icmp4_write D) self"

definition Icmp4_finalize ::
    "platform \<Rightarrow> deku \<Rightarrow> Icmp4 \<Rightarrow> 'l list \<Rightarrow> 'l list \<Rightarrow> Icmp4 \<times> (LayerError, unit) outcome" where
  "Icmp4_finalize pf D self prev next =
     try_in self (Icmp4_to_bytes D self) (\<lambda>data.
     try_in self (obind (set_byte data 2 0) (\<lambda>data. set_byte data 3 0)) (\<lambda>icmp_header.
     try_in self (checksum pf icmp_header) (\<lambda>c.
     (self\<lparr>icmp_checksum := c\<rparr>, Ok ()))))"

definition Icmp4_wf :: "Icmp4 \<Rightarrow> bool" where
  "Icmp4_wf v \<longleftrightarrow> IcmpType_wf (icmp_type v)"

definition Icmp4_bits :: "Icmp4 \<Rightarrow> nat" where
  "Icmp4_bits v = 64 + 8 * length (icmp_data v)"

lemma Icmp4_bits_dvd: "8 dvd Icmp4_bits v"
  by (simp add: Icmp4_bits_def)

section \<open>Codec\<close>

text \<open>The eight bytes before the data.\<close>

definition Icmp4_read_head :: "deku \<Rightarrow> Icmp4 reader" where
  "Icmp4_read_head E =
     rbind (IcmpType_read E) (\<lambda>ty. rbind (read_uint E 8) (\<lambda>code. rbind (read_uint E 16) (\<lambda>csum.
     rbind (read_uint E 32) (\<lambda>message.
     rret \<lparr>icmp_type = ty, icmp_code = code, icmp_checksum = csum, icmp_message = message, icmp_data = []\<rparr>))))"

lemma Icmp4_read_split:
  "Icmp4_read E = rbind (Icmp4_read_head E) (\<lambda>v. rbind (read_all (read_uint E 8)) (\<lambda>data.
     rret (v\<lparr>icmp_data := data\<rparr>)))"
  by (simp add: Icmp4_read_def Icmp4_read_head_def rbind_assoc)

context deku_laws
begin

lemma lossless_Icmp4: "lossless (Icmp4_read D) (Icmp4_write D) Icmp4_wf"
  unfolding Icmp4_read_def Icmp4_write_def
  by (intro lossless_field [OF lossless_IcmpType] lossless_field [OF lossless_ints(1)]
      lossless_field [OF lossless_ints(2)] lossless_field [OF lossless_ints(3)]
      lossless_field [OF lossless_all [OF lossless_u8]] lossless_done) (simp_all add: Icmp4_wf_def)

lemma rereads_Icmp4: "rereads no_tail (Icmp4_read D) (Icmp4_write D) Icmp4_wf"
  unfolding Icmp4_read_def Icmp4_write_def
proof (intro rereads_field [OF rereads_IcmpType] rereads_field [OF rereads_ints(1)]
      rereads_field [OF rereads_ints(2)] rereads_field [OF rereads_ints(3)] TrueI)
  fix ty code csum message
  let ?Q = "\<lambda>v. (((Icmp4_wf v \<and> icmp_type v = ty) \<and> icmp_code v = code) \<and> icmp_checksum v = csum) \<and>
    icmp_message v = message"
  show "rereads no_tail (rbind (read_all (read_uint D 8)) (\<lambda>data. rret \<lparr>icmp_type = ty, icmp_code = code,
      icmp_checksum = csum, icmp_message = message, icmp_data = data\<rparr>))
      (wfield icmp_data (write_list (write_uint D 8)) wdone) ?Q"
    by (rule rereads_field_last [OF rereads_all [OF rereads_u8 wsize_uint]]) auto
qed (simp_all add: Icmp4_wf_def)

lemma rsafe_Icmp4: "rsafe (Icmp4_read D)"
  unfolding Icmp4_read_def
  by (intro rsafe_intros rsafe_all rprogress_uint rfixed_rsafe [OF rfixed_IcmpType]) simp

lemma rmin_Icmp4: "rmin (8 * 8) (Icmp4_read D)"
proof -
  have "rmin (8 + (8 + (16 + (32 + 0)))) (Icmp4_read D)"
    unfolding Icmp4_read_def by (intro rfixed_intros)
  then show ?thesis by simp
qed

lemma wsize_Icmp4: "wsize (Icmp4_write D) Icmp4_bits"
proof -
  have "wsize (Icmp4_write D) (\<lambda>v. 8 + (8 + (16 + (32 + (sum_list (map (\<lambda>_. 8) (icmp_data v)) + 0)))))"
    unfolding Icmp4_write_def by (intro wsize_intros)
  then show ?thesis by (simp add: Icmp4_bits_def [abs_def] sum_list_triv mult.commute)
qed

lemma wreturns_Icmp4: "wreturns (Icmp4_write D)"
  unfolding Icmp4_write_def by (intro wreturns_intros)

lemma icmp4_codec: "layer_codec (Icmp4_parse pf D) (Icmp4_to_bytes D) Icmp4_wf (\<lambda>rest. rest = [])"
proof -
  have "no_tail (bytes_bits rest) \<longleftrightarrow> rest = []" for rest
    using bytes_bits_inject [of rest "[]"] by (simp add: no_tail_def)
  then show ?thesis
    using layer_codecI [OF lossless_Icmp4 rereads_Icmp4 rsafe_Icmp4 wsize_Icmp4 Icmp4_bits_dvd Icmp4_bits_dvd
        wreturns_Icmp4, where pf = pf]
    by (simp add: no_tail_def Icmp4_parse_def [abs_def] Icmp4_to_bytes_def [abs_def])
qed

lemma Icmp4_to_bytes_length:
  assumes "Icmp4_to_bytes D v = Ok hdr"
  shows "length hdr = 8 + length (icmp_data v)"
  using to_bytes_with_length [OF wsize_Icmp4 Icmp4_bits_dvd] assms
  by (fastforce simp: Icmp4_to_bytes_def Icmp4_bits_def)

lemma Icmp4_to_bytes_Ok: "\<exists>hdr. Icmp4_to_bytes D v = Ok hdr"
proof -
  have "\<exists>b. Icmp4_write D v = Ok b"
    by (simp add: Icmp4_write_def wfield_def wdone_def IcmpType_write_def write_uint_def write_fits write_bytes)
  then obtain b where "Icmp4_write D v = Ok b" ..
  then show ?thesis
    by (simp add: Icmp4_to_bytes_def to_bytes_with_def container_to_bytes_def)
qed

lemma Icmp4_hole: "u16_hole icmp_checksum (\<lambda>c v. v\<lparr>icmp_checksum := c\<rparr>) (Icmp4_write D) (8 * 2)"
proof -
  have "u16_hole icmp_checksum (\<lambda>c v. v\<lparr>icmp_checksum := c\<rparr>) (Icmp4_write D) (8 + (8 + 0))"
    unfolding Icmp4_write_def
    by (intro u16_hole_skip wsize_intros u16_hole_here) (simp_all add: wfield_def wdone_def)
  then show ?thesis by simp
qed

lemma Icmp4_finalize_valid:
  assumes "length (icmp_data v) \<le> 131066"
  shows "\<exists>c msg. Icmp4_finalize pf D v prev next = (v\<lparr>icmp_checksum := c\<rparr>, Ok ()) \<and>
    Icmp4_to_bytes D (v\<lparr>icmp_checksum := c\<rparr>) = Ok msg \<and> checksum pf msg = (Ok 0 :: (LayerError, u16) outcome)"
proof -
  obtain hdr where hdr: "Icmp4_to_bytes D v = Ok hdr"
    using Icmp4_to_bytes_Ok by blast
  with to_bytes_hole [OF Icmp4_hole wsize_Icmp4 Icmp4_bits_dvd] obtain pre post where
      pre: "length pre = 2" and eq: "hdr = pre @ u16_to_be_bytes (icmp_checksum v) @ post"
      and upd: "\<forall>c. Icmp4_to_bytes D (v\<lparr>icmp_checksum := c\<rparr>) = Ok (pre @ u16_to_be_bytes c @ post)"
    unfolding Icmp4_to_bytes_def by blast
  have "length pre + 2 + length post \<le> 131074"
    using Icmp4_to_bytes_length [OF hdr] assms by (simp add: eq)
  then obtain c where "checksum pf (pre @ [0, 0] @ post) = (Ok c :: (LayerError, u16) outcome)"
      and "checksum pf (pre @ u16_to_be_bytes c @ post) = (Ok 0 :: (LayerError, u16) outcome)"
    using checksum_fill [of pre post pf] pre by (metis even_numeral)
  then show ?thesis
    using hdr upd clear_checksum [OF pre, of 3 "icmp_checksum v" post]
    by (auto simp: Icmp4_finalize_def eq)
qed

lemma Icmp4_parse_short:
  assumes "length input < 8"
  shows "\<exists>n. Icmp4_parse pf D input = Err (Incomplete n)"
  using parse_with_min [OF rmin_Icmp4 assms] by (simp add: Icmp4_parse_def)

lemma Icmp4_parse_enough:
  assumes "8 \<le> length input"
  shows "\<exists>v. Icmp4_parse pf D input = Ok ([], v) \<and> icmp_data v = drop 8 input"
proof -
  have "rfixed (8 + (8 + (16 + (32 + 0)))) (Icmp4_read_head D)"
    unfolding Icmp4_read_head_def by (intro rfixed_intros)
  then have "rfixed (8 * 8) (Icmp4_read_head D)" by simp
  from rfixed_enough [OF this, of "(input, 0)"] assms obtain v
    where "Icmp4_read_head D (input, 0) = Ok (advance (8 * 8) (input, 0), v)" by auto
  then have "Icmp4_read_head D (input, 0) = Ok ((drop 8 input, 0), v)"
    unfolding advance_start .
  then have "Icmp4_read D (input, 0) = Ok (([], 0), v\<lparr>icmp_data := drop 8 input\<rparr>)"
    by (simp add: Icmp4_read_split rbind_def rret_def read_all_bytes)
  then show ?thesis
    by (simp add: Icmp4_parse_def parse_with_def debug_assert_def)
qed

end

sublocale nata_env \<subseteq> icmp4: layer_codec "Icmp4_parse pf D" "Icmp4_to_bytes D" Icmp4_wf "\<lambda>rest. rest = []"
  by (rule icmp4_codec)

section \<open>Properties\<close>

text \<open>
  Parsing an ICMP message succeeds exactly when 8 bytes are there; it takes the whole input, the
  data being what follows the 8 bytes, and serialising the message gives the input back.
\<close>

lemma Icmp4_parse_total:
  assumes "deku_laws D"
  shows "if 8 \<le> length input
     then \<exists>v. Icmp4_parse pf D input = Ok ([], v) \<and> icmp_data v = drop 8 input \<and> Icmp4_to_bytes D v = Ok input
     else \<exists>n. Icmp4_parse pf D input = Err (Incomplete n)"
proof (cases "8 \<le> length input")
  case True
  from deku_laws.Icmp4_parse_enough [OF assms True] obtain v
    where v: "Icmp4_parse pf D input = Ok ([], v)" "icmp_data v = drop 8 input" by blast
  moreover from layer_codec.parse_lossless [OF deku_laws.icmp4_codec [OF assms] v(1)]
  have "Icmp4_to_bytes D v = Ok input" by auto
  ultimately show ?thesis using True by auto
next
  case False
  then show ?thesis using deku_laws.Icmp4_parse_short [OF assms, of input] by simp
qed

text \<open>
  Finalising an ICMP message with at most 131066 bytes of data succeeds, changes nothing but the
  checksum, and the whole serialised message then verifies.
\<close>

lemma Icmp4_finalize_verifies:
  assumes "deku_laws D" and "length (icmp_data v) \<le> 131066"
  shows "\<exists>c msg. Icmp4_finalize pf D v prev next = (v\<lparr>icmp_checksum := c\<rparr>, Ok ()) \<and>
    Icmp4_to_bytes D (v\<lparr>icmp_checksum := c\<rparr>) = Ok msg \<and> checksum pf msg = (Ok 0 :: (LayerError, u16) outcome)"
  by (rule deku_laws.Icmp4_finalize_valid [OF assms])

end
