(* ===== verification/Udp.thy ===== *)
theory Udp
  imports Ip_Checksum
begin

text \<open>
  \<open>src/layer/udp/mod.rs\<close>: the UDP header, 8 bytes.  \<open>finalize\<close> is in theory \<open>Finalize\<close>.
\<close>

record Udp =
  udp_sport :: u16
  udp_dport :: u16
  udp_length :: u16
  udp_checksum :: u16

definition Udp_default :: Udp where
  "Udp_default = \<lparr>udp_sport = 0, udp_dport = 0, udp_length = 0, udp_checksum = 0\<rparr>"

definition Udp_read :: "deku \<Rightarrow> Udp reader" where
  "Udp_read D =
     rbind (read_uint D 16) (\<lambda>sport.
     rbind (read_uint D 16) (\<lambda>dport.
     rbind (read_uint D 16) (\<lambda>len.
     rbind (read_uint D 16) (\<lambda>csum.
     rret \<lparr>udp_sport = sport, udp_dport = dport, udp_length = len, udp_checksum = csum\<rparr>))))"

definition Udp_write :: "deku \<Rightarrow> Udp writer" where
  "Udp_write D =
     wfield udp_sport (write_uint D 16) (
     wfield udp_dport (write_uint D 16) (
     wfield udp_length (write_uint D 16) (
     wfield udp_checksum (write_uint D 16) wdone)))"

definition Udp_parse :: "platform \<Rightarrow> deku \<Rightarrow> bytes \<Rightarrow> (LayerError, bytes \<times> Udp) outcome" where
  "Udp_parse pf D input = parse_with pf D (Udp_read D) input"

definition Udp_to_bytes :: "deku \<Rightarrow> Udp \<Rightarrow> (LayerError, bytes) outcome" where
  "Udp_to_bytes D self = to_bytes_with D (Udp_write D) self"

section \<open>Codec\<close>

text \<open>The header as a reference list of bytes.\<close>

definition Udp_bytes :: "Udp \<Rightarrow> bytes" where
  "Udp_bytes u = u16_to_be_bytes (udp_sport u) @ u16_to_be_bytes (udp_dport u) @
     u16_to_be_bytes (udp_length u) @ u16_to_be_bytes (udp_checksum u)"

lemma length_Udp_bytes [simp]: "length (Udp_bytes u) = 8"
  by (simp add: Udp_bytes_def)

context deku_laws
begin

lemma lossless_Udp: "lossless (Udp_read D) (Udp_write D) (\<lambda>_. True)"
  unfolding Udp_read_def Udp_write_def
  by (intro lossless_field [OF lossless_u16] lossless_done) simp

lemma rereads_Udp: "rereads any_tail (Udp_read D) (Udp_write D) (\<lambda>_. True)"
  unfolding Udp_read_def Udp_write_def
  by (intro rereads_field [OF rereads_u16] rereads_done TrueI) simp

lemma rfixed_Udp: "rfixed (8 * 8) (Udp_read D)"
proof -
  have "rfixed (16 + (16 + (16 + (16 + 0)))) (Udp_read D)"
    unfolding Udp_read_def by (intro rfixed_intros)
  then show ?thesis by simp
qed

lemma wsize_Udp: "wsize (Udp_write D) (\<lambda>_. 8 * 8)"
proof -
  have "wsize (Udp_write D) (\<lambda>_. 16 + (16 + (16 + (16 + 0))))"
    unfolding Udp_write_def by (intro wsize_intros)
  then show ?thesis by simp
qed

lemma wreturns_Udp: "wreturns (Udp_write D)"
  unfolding Udp_write_def by (intro wreturns_intros)

lemma udp_header: "fixed_header (Udp_parse pf D) (Udp_to_bytes D) (\<lambda>_. True) (\<lambda>_. True) 8"
  unfolding Udp_parse_def Udp_to_bytes_def
  by (rule fixed_headerI [OF lossless_Udp rereads_Udp rfixed_Udp wsize_Udp wreturns_Udp])

lemma Udp_to_bytes_eq: "Udp_to_bytes D u = Ok (Udp_bytes u)"
proof -
  have "Udp_write D u = Ok (bits_be 16 (unat (udp_sport u)) @ bits_be 16 (unat (udp_dport u)) @
      bits_be 16 (unat (udp_length u)) @ bits_be 16 (unat (udp_checksum u)))"
    by (simp add: Udp_write_def wfield_def wdone_def write_uint_def write_fits)
  from to_bytes_with_Ok [of "Udp_write D" u, OF this] show ?thesis
    by (simp add: Udp_to_bytes_def Udp_bytes_def u16_to_be_bytes_def pack_append pack_bits_be_16)
qed

end

sublocale nata_env \<subseteq> udp: fixed_header "Udp_parse pf D" "Udp_to_bytes D" "\<lambda>_. True" "\<lambda>_. True" 8
  by (rule udp_header)

section \<open>Properties\<close>

text \<open>
  UDP headers and their bytes correspond one to one: parsing succeeds exactly when 8 bytes are
  there, takes those and returns the header whose serialisation they are; every header serialises to
  its four big-endian fields and is parsed back, whatever follows it.
\<close>

lemma Udp_codec_bijective:
  assumes "deku_laws D"
  shows "(if 8 \<le> length input
      then \<exists>u. Udp_parse pf D input = Ok (drop 8 input, u) \<and> Udp_to_bytes D u = Ok (take 8 input)
      else \<exists>n. Udp_parse pf D input = Err (Incomplete n)) \<and>
    Udp_to_bytes D u = Ok (Udp_bytes u) \<and> Udp_parse pf D (Udp_bytes u @ rest) = Ok (rest, u)"
  using fixed_header.parse_total [OF deku_laws.udp_header [OF assms], of input pf]
    fixed_header.roundtrip [OF deku_laws.udp_header [OF assms] TrueI, of u pf]
    deku_laws.Udp_to_bytes_eq [OF assms, of u]
  by fastforce

end
