(* ===== verification/Tcp.thy ===== *)
theory Tcp
  imports Ip_Checksum
begin

text \<open>
  \<open>src/layer/tcp/mod.rs\<close> and \<open>src/layer/tcp/options.rs\<close>: the TCP header with its options.  \<open>finalize\<close>
  is in theory \<open>Finalize\<close>.
\<close>

section \<open>Options\<close>

record SAckData =
  sack_begin :: u32
  sack_end :: u32

record TimestampData =
  ts_start :: u32
  ts_end :: u32

datatype TcpOption =
    EOL
  | NOP
  | MSS (topt_length: u8) (mss_value: u16)
  | WScale (topt_length: u8) (wscale_value: u8)
  | SAckOK (topt_length: u8)
  | SAck (topt_length: u8) (sack_value: "SAckData list")
  | Timestamp (topt_length: u8) (ts_value: TimestampData)

definition SAckData_read :: "deku \<Rightarrow> SAckData reader" where
  "SAckData_read D =
     rbind (read_uint D 32) (\<lambda>b. rbind (read_uint D 32) (\<lambda>e. rret \<lparr>sack_begin = b, sack_end = e\<rparr>))"

definition SAckData_write :: "deku \<Rightarrow> SAckData writer" where
  "SAckData_write D = wfield sack_begin (write_uint D 32) (wfield sack_end (write_uint D 32) wdone)"

definition TimestampData_read :: "deku \<Rightarrow> TimestampData reader" where
  "TimestampData_read D =
     rbind (read_uint D 32) (\<lambda>s. rbind (read_uint D 32) (\<lambda>e. rret \<lparr>ts_start = s, ts_end = e\<rparr>))"

definition TimestampData_write :: "deku \<Rightarrow> TimestampData writer" where
  "TimestampData_write D = wfield ts_start (write_uint D 32) (wfield ts_end (write_uint D 32) wdone)"

fun TcpOption_id :: "TcpOption \<Rightarrow> u8" where
  "TcpOption_id EOL = 0"
| "TcpOption_id NOP = 1"
| "TcpOption_id (MSS _ _) = 2"
| "TcpOption_id (WScale _ _) = 3"
| "TcpOption_id (SAckOK _) = 4"
| "TcpOption_id (SAck _ _) = 5"
| "TcpOption_id (Timestamp _ _) = 8"

text \<open>\<open>count = "length.checked_sub(2).and_then(|v| v.checked_div(8))..."\<close>.\<close>

definition sack_count :: "u8 \<Rightarrow> u8 option" where
  "sack_count len = Option.bind (u8_checked_sub len 2) (\<lambda>v. u8_checked_div v 8)"

definition TcpOption_read :: "deku \<Rightarrow> TcpOption reader" where
  "TcpOption_read D = rbind (read_uint D 8) (\<lambda>i :: u8.
     if i = 0 then rret EOL
     else if i = 1 then rret NOP
     else if i = 2 then rbind (read_uint D 8) (\<lambda>len. rbind (read_uint D 16) (\<lambda>v. rret (MSS len v)))
     else if i = 3 then rbind (read_uint D 8) (\<lambda>len. rbind (read_uint D 8) (\<lambda>v. rret (WScale len v)))
     else if i = 4 then rbind (read_uint D 8) (\<lambda>len. rret (SAckOK len))
     else if i = 5 then rbind (read_uint D 8) (\<lambda>len.
       rbind (rtry (DParse ''overflow when parsing SAckData vec'') (sack_count len)) (\<lambda>n.
       rbind (read_count (SAckData_read D) (unat n)) (\<lambda>v. rret (SAck len v))))
     else if i = 8 then rbind (read_uint D 8) (\<lambda>len. rbind (TimestampData_read D) (\<lambda>v. rret (Timestamp len v)))
     else rfail (dk_no_variant D ''TcpOption'' (unat i)))"

definition TcpOption_body :: "deku \<Rightarrow> TcpOption writer" where
  "TcpOption_body D opt = (case opt of
       EOL \<Rightarrow> Ok []
     | NOP \<Rightarrow> Ok []
     | MSS _ _ \<Rightarrow> wfield topt_length (write_uint D 8) (wfield mss_value (write_uint D 16) wdone) opt
     | WScale _ _ \<Rightarrow> wfield topt_length (write_uint D 8) (wfield wscale_value (write_uint D 8) wdone) opt
     | SAckOK _ \<Rightarrow> wfield topt_length (write_uint D 8) wdone opt
     | SAck _ _ \<Rightarrow> wfield topt_length (write_uint D 8) (wfield sack_value (write_list (SAckData_write D)) wdone) opt
     | Timestamp _ _ \<Rightarrow> wfield topt_length (write_uint D 8) (wfield ts_value (TimestampData_write D) wdone) opt)"

definition TcpOption_write :: "deku \<Rightarrow> TcpOption writer" where
  "TcpOption_write D = wfield TcpOption_id (write_uint D 8) (TcpOption_body D)"

text \<open>\<open>DekuUpdate::update\<close>: the length of a \<open>SAck\<close> from its value.\<close>

definition sack_update_length :: "platform \<Rightarrow> nat \<Rightarrow> nat option" where
  "sack_update_length pf n = (if n * 8 \<le> usize_max pf then checked_add_usize pf (n * 8) 2 else None)"

definition TcpOption_update :: "platform \<Rightarrow> deku \<Rightarrow> TcpOption \<Rightarrow> TcpOption \<times> (DekuError, unit) outcome" where
  "TcpOption_update pf D self = (case self of
       SAck len val \<Rightarrow>
         try_in self (ok_or (DParse ''overflow when parsing SAckData length'')
             (sack_update_length pf (length val))) (\<lambda>n.
         try_in self (ok_or (dk_int_error D) (u8_try_from n)) (\<lambda>len'.
         (SAck len' val, Ok ())))
     | _ \<Rightarrow> (self, Ok ()))"

section \<open>Flags\<close>

record TcpFlags =
  fl_reserved :: u8
  fl_nonce :: u8
  fl_crw :: u8
  fl_ecn :: u8
  fl_urgent :: u8
  fl_ack :: u8
  fl_push :: u8
  fl_reset :: u8
  fl_syn :: u8
  fl_fin :: u8

definition TcpFlags_default :: TcpFlags where
  "TcpFlags_default = \<lparr>fl_reserved = 0, fl_nonce = 0, fl_crw = 0, fl_ecn = 0, fl_urgent = 0, fl_ack = 0,
     fl_push = 0, fl_reset = 0, fl_syn = 0, fl_fin = 0\<rparr>"

definition TcpFlags_read :: "deku \<Rightarrow> TcpFlags reader" where
  "TcpFlags_read D =
     rbind (read_uint D 3) (\<lambda>reserved.
     rbind (read_uint D 1) (\<lambda>nonce.
     rbind (read_uint D 1) (\<lambda>crw.
     rbind (read_uint D 1) (\<lambda>ecn.
     rbind (read_uint D 1) (\<lambda>urgent.
     rbind (read_uint D 1) (\<lambda>ack.
     rbind (read_uint D 1) (\<lambda>push.
     rbind (read_uint D 1) (\<lambda>reset.
     rbind (read_uint D 1) (\<lambda>syn.
     rbind (read_uint D 1) (\<lambda>fin.
     rret \<lparr>fl_reserved = reserved, fl_nonce = nonce, fl_crw = crw, fl_ecn = ecn, fl_urgent = urgent,
       fl_ack = ack, fl_push = push, fl_reset = reset, fl_syn = syn, fl_fin = fin\<rparr>))))))))))"

definition TcpFlags_write :: "deku \<Rightarrow> TcpFlags writer" where
  "TcpFlags_write D =
     wfield fl_reserved (write_uint D 3) (
     wfield fl_nonce (write_uint D 1) (
     wfield fl_crw (write_uint D 1) (
     wfield fl_ecn (write_uint D 1) (
     wfield fl_urgent (write_uint D 1) (
     wfield fl_ack (write_uint D 1) (
     wfield fl_push (write_uint D 1) (
     wfield fl_reset (write_uint D 1) (
     wfield fl_syn (write_uint D 1) (
     wfield fl_fin (write_uint D 1) wdone)))))))))"

text \<open>\<open>Display\<close>.\<close>

definition TcpFlags_fmt :: "TcpFlags \<Rightarrow> string" where
  "TcpFlags_fmt self =
     (if fl_syn self = 1 then ''S'' else '''') @
     (if fl_push self = 1 then ''P'' else '''') @
     (if fl_ack self = 1 then ''A'' else '''') @
     (if fl_fin self = 1 then ''F'' else '''') @
     (if fl_reset self = 1 then ''R'' else '''')"

section \<open>The header\<close>

record Tcp =
  tcp_sport :: u16
  tcp_dport :: u16
  tcp_seq :: u32
  tcp_ack :: u32
  tcp_offset :: u8
  tcp_flags :: TcpFlags
  tcp_window :: u16
  tcp_checksum :: u16
  tcp_urgptr :: u16
  tcp_options :: "TcpOption list"

definition Tcp_default :: Tcp where
  "Tcp_default = \<lparr>tcp_sport = 0, tcp_dport = 0, tcp_seq = 0, tcp_ack = 0, tcp_offset = 5,
     tcp_flags = TcpFlags_default, tcp_window = 0, tcp_checksum = 0, tcp_urgptr = 0, tcp_options = []\<rparr>"

text \<open>\<open>bytes_read = "offset.checked_sub(5).and_then(|value| value.checked_mul(4))..."\<close>.\<close>

definition Tcp_options_bytes :: "u8 \<Rightarrow> u8 option" where
  "Tcp_options_bytes offset = Option.bind (u8_checked_sub offset 5) (\<lambda>v. u8_checked_mul v 4)"

definition Tcp_read :: "deku \<Rightarrow> Tcp reader" where
  "Tcp_read D =
     rbind (read_uint D 16) (\<lambda>sport.
     rbind (read_uint D 16) (\<lambda>dport.
     rbind (read_uint D 32) (\<lambda>seq.
     rbind (read_uint D 32) (\<lambda>ack.
     rbind (read_uint D 4) (\<lambda>offset.
     rbind (TcpFlags_read D) (\<lambda>flags.
     rbind (read_uint D 16) (\<lambda>window.
     rbind (read_uint D 16) (\<lambda>csum.
     rbind (read_uint D 16) (\<lambda>urgptr.
     rbind (rtry (DParse ''error: invalid tcp offset'') (Tcp_options_bytes offset)) (\<lambda>n.
     rbind (read_limit D (8 * unat n) (TcpOption_read D) 0) (\<lambda>options.
     rret \<lparr>tcp_sport = sport, tcp_dport = dport, tcp_seq = seq, tcp_ack = ack, tcp_offset = offset,
       tcp_flags = flags, tcp_window = window, tcp_checksum = csum, tcp_urgptr = urgptr,
       tcp_options = options\<rparr>)))))))))))"

definition Tcp_write :: "deku \<Rightarrow> Tcp writer" where
  "Tcp_write D =
     wfield tcp_sport (write_uint D 16) (
     wfield tcp_dport (write_uint D 16) (
     wfield tcp_seq (write_uint D 32) (
     wfield tcp_ack (write_uint D 32) (
     wfield tcp_offset (write_uint D 4) (
     wfield tcp_flags (TcpFlags_write D) (
     wfield tcp_window (write_uint D 16) (
     wfield tcp_checksum (write_uint D 16) (
     wfield tcp_urgptr (write_uint D 16) (
     wfield tcp_options (write_list (TcpOption_write D)) wdone)))))))))"

definition Tcp_parse :: "platform \<Rightarrow> deku \<Rightarrow> bytes \<Rightarrow> (LayerError, bytes \<times> Tcp) outcome" where
  "Tcp_parse pf D input = parse_with pf D (Tcp_read D) input"

definition Tcp_to_bytes :: "deku \<Rightarrow> Tcp \<Rightarrow> (LayerError, bytes) outcome" where
  "Tcp_to_bytes D self = to_bytes_with D (Tcp_write D) self"

section \<open>Well-formed headers\<close>

fun TcpOption_bits :: "TcpOption \<Rightarrow> nat" where
  "TcpOption_bits EOL = 8"
| "TcpOption_bits NOP = 8"
| "TcpOption_bits (MSS _ _) = 32"
| "TcpOption_bits (WScale _ _) = 24"
| "TcpOption_bits (SAckOK _) = 16"
| "TcpOption_bits (SAck _ val) = 16 + 64 * length val"
| "TcpOption_bits (Timestamp _ _) = 80"

definition Tcp_bits :: "Tcp \<Rightarrow> nat" where
  "Tcp_bits v = 160 + sum_list (map TcpOption_bits (tcp_options v))"

text \<open>A length of \<open>SAck\<close> that is read back gives the number of blocks, rounded down.\<close>

fun TcpOption_wf :: "TcpOption \<Rightarrow> bool" where
  "TcpOption_wf (SAck len val) \<longleftrightarrow> 2 \<le> unat len \<and> length val = (unat len - 2) div 8"
| "TcpOption_wf opt = True"

definition TcpFlags_wf :: "TcpFlags \<Rightarrow> bool" where
  "TcpFlags_wf f \<longleftrightarrow> unat (fl_reserved f) < 8 \<and> unat (fl_nonce f) < 2 \<and> unat (fl_crw f) < 2 \<and>
     unat (fl_ecn f) < 2 \<and> unat (fl_urgent f) < 2 \<and> unat (fl_ack f) < 2 \<and> unat (fl_push f) < 2 \<and>
     unat (fl_reset f) < 2 \<and> unat (fl_syn f) < 2 \<and> unat (fl_fin f) < 2"

definition Tcp_parsed :: "Tcp \<Rightarrow> bool" where
  "Tcp_parsed v \<longleftrightarrow> 5 \<le> unat (tcp_offset v) \<and> unat (tcp_offset v) < 16 \<and> TcpFlags_wf (tcp_flags v) \<and>
     list_all TcpOption_wf (tcp_options v) \<and> (unat (tcp_offset v) = 5 \<longrightarrow> tcp_options v = [])"

definition Tcp_wf :: "Tcp \<Rightarrow> bool" where
  "Tcp_wf v \<longleftrightarrow> Tcp_parsed v \<and>
     sum_list (map TcpOption_bits (tcp_options v)) = 32 * (unat (tcp_offset v) - 5)"

lemma TcpOption_bits_dvd: "8 dvd TcpOption_bits opt"
  by (cases opt) simp_all

lemma Tcp_bits_dvd: "8 dvd Tcp_bits v"
proof -
  have "8 dvd sum_list (map TcpOption_bits opts)" for opts
    using TcpOption_bits_dvd by (induction opts) auto
  moreover have "8 dvd (160 :: nat)" by simp
  ultimately show ?thesis
    unfolding Tcp_bits_def by (intro dvd_add)
qed

lemma ex_u8: "n < 256 \<Longrightarrow> \<exists>y :: u8. unat y = n"
  by (rule exI [where x = "word_of_nat n"], rule unat_word_of_nat_small [where n = 8]) simp_all

lemma Tcp_options_bytes_Some:
  assumes "unat offset < 16"
  shows "Tcp_options_bytes offset = Some n \<longleftrightarrow> 5 \<le> unat offset \<and> unat n = 4 * (unat offset - 5)"
proof -
  have "unat offset - 5 < 256"
    using assms by linarith
  then obtain y :: u8 where "unat y = unat offset - 5"
    using ex_u8 by blast
  then show ?thesis
    using assms
    by (auto simp: Tcp_options_bytes_def bind_eq_Some_conv u8_checked_sub_Some u8_checked_mul_Some
        intro!: exI [where x = y])
qed

lemma sack_count_Some: "sack_count len = Some n \<longleftrightarrow> 2 \<le> unat len \<and> unat n = (unat len - 2) div 8"
proof -
  have "unat len - 2 < 256"
    using unat_less_width(1) [of len] by linarith
  then obtain y :: u8 where "unat y = unat len - 2"
    using ex_u8 by blast
  then show ?thesis
    by (auto simp: sack_count_def bind_eq_Some_conv u8_checked_sub_Some u8_checked_div_Some
        intro!: exI [where x = y])
qed

lemma Tcp_options_bytes_ex:
  assumes "unat offset < 16"
  shows "(\<exists>n. Tcp_options_bytes offset = Some n) \<longleftrightarrow> 5 \<le> unat offset"
proof -
  have "4 * (unat offset - 5) < 256"
    using assms by linarith
  then obtain y :: u8 where "unat y = 4 * (unat offset - 5)"
    using ex_u8 by blast
  with assms show ?thesis
    by (auto simp: Tcp_options_bytes_Some)
qed

lemma TcpOption_bits_pos: "0 < TcpOption_bits opt"
  by (cases opt) simp_all

lemma sack_count_ex: "(\<exists>n. sack_count len = Some n) \<longleftrightarrow> 2 \<le> unat len"
proof -
  have "(unat len - 2) div 8 < 256"
    using unat_less_width(1) [of len] by linarith
  then obtain y :: u8 where "unat y = (unat len - 2) div 8"
    using ex_u8 by blast
  then show ?thesis
    by (auto simp: sack_count_Some)
qed

lemma wreturnsD: "wreturns w \<Longrightarrow> returns (w v)"
  by (simp add: wreturns_def)

text \<open>Readers that fail with a given error once the fixed part before the failure is there.\<close>

definition rfails :: "nat \<Rightarrow> DekuError \<Rightarrow> 'a reader \<Rightarrow> bool" where
  "rfails n e r \<longleftrightarrow> (\<forall>c. snd c < 8 \<longrightarrow> n \<le> remaining c \<longrightarrow> r c = Err e)"

lemma rfails_bind:
  assumes "rfixed m r" and "\<And>a. rfails n e (k a)"
  shows "rfails (m + n) e (rbind r k)"
  unfolding rfails_def
proof (intro allI impI)
  fix c :: cursor assume off: "snd c < 8" and enough: "m + n \<le> remaining c"
  then obtain a where "r c = Ok (advance m c, a)"
    using rfixed_enough [OF assms(1) off] by auto
  moreover have "n \<le> remaining (advance m c)"
    using enough by simp
  then have "k a (advance m c) = Err e"
    using assms(2) [of a] snd_advance unfolding rfails_def by blast
  ultimately show "rbind r k c = Err e"
    by (simp add: rbind_def)
qed

lemma rfails_rtry: "rfails 0 e (rbind (rtry e None) k)"
  by (simp add: rfails_def rbind_def rtry_def rfail_def)

text \<open>The part of the header after its data offset.\<close>

definition Tcp_read_tail :: "deku \<Rightarrow> u16 \<Rightarrow> u16 \<Rightarrow> u32 \<Rightarrow> u32 \<Rightarrow> u8 \<Rightarrow> Tcp reader" where
  "Tcp_read_tail E sport dport seq ack offset =
     rbind (TcpFlags_read E) (\<lambda>flags. rbind (read_uint E 16) (\<lambda>window. rbind (read_uint E 16) (\<lambda>csum.
     rbind (read_uint E 16) (\<lambda>urgptr.
     rbind (rtry (DParse ''error: invalid tcp offset'') (Tcp_options_bytes offset)) (\<lambda>n.
     rbind (read_limit E (8 * unat n) (TcpOption_read E) 0) (\<lambda>options.
     rret \<lparr>tcp_sport = sport, tcp_dport = dport, tcp_seq = seq, tcp_ack = ack, tcp_offset = offset,
       tcp_flags = flags, tcp_window = window, tcp_checksum = csum, tcp_urgptr = urgptr,
       tcp_options = options\<rparr>))))))"

lemma Tcp_read_split:
  "Tcp_read E = rbind (read_uint E 16) (\<lambda>sport. rbind (read_uint E 16) (\<lambda>dport.
     rbind (read_uint E 32) (\<lambda>seq. rbind (read_uint E 32) (\<lambda>ack. rbind (read_uint E 4) (\<lambda>offset.
     Tcp_read_tail E sport dport seq ack offset)))))"
  unfolding Tcp_read_def Tcp_read_tail_def ..

section \<open>Codec\<close>

context deku_laws
begin

subsection \<open>Options\<close>

lemma lossless_SAckData: "lossless (SAckData_read D) (SAckData_write D) (\<lambda>_. True)"
  unfolding SAckData_read_def SAckData_write_def
  by (intro lossless_field [OF lossless_u32] lossless_done) simp

lemma rereads_SAckData: "rereads any_tail (SAckData_read D) (SAckData_write D) (\<lambda>_. True)"
  unfolding SAckData_read_def SAckData_write_def
  by (intro rereads_field [OF rereads_u32] rereads_done TrueI) simp

lemma rsafe_SAckData [rsafe_intros]: "rsafe (SAckData_read D)"
  unfolding SAckData_read_def by (intro rsafe_intros)

lemma wsize_SAckData [wsize_intros]: "wsize (SAckData_write D) (\<lambda>_. 64)"
proof -
  have "wsize (SAckData_write D) (\<lambda>_. 32 + (32 + 0))"
    unfolding SAckData_write_def by (intro wsize_intros)
  then show ?thesis by simp
qed

lemma wreturns_SAckData [wreturns_intros]: "wreturns (SAckData_write D)"
  unfolding SAckData_write_def by (intro wreturns_intros)

lemma lossless_TimestampData: "lossless (TimestampData_read D) (TimestampData_write D) (\<lambda>_. True)"
  unfolding TimestampData_read_def TimestampData_write_def
  by (intro lossless_field [OF lossless_u32] lossless_done) simp

lemma rereads_TimestampData: "rereads any_tail (TimestampData_read D) (TimestampData_write D) (\<lambda>_. True)"
  unfolding TimestampData_read_def TimestampData_write_def
  by (intro rereads_field [OF rereads_u32] rereads_done TrueI) simp

lemma rsafe_TimestampData [rsafe_intros]: "rsafe (TimestampData_read D)"
  unfolding TimestampData_read_def by (intro rsafe_intros)

lemma wsize_TimestampData [wsize_intros]: "wsize (TimestampData_write D) (\<lambda>_. 64)"
proof -
  have "wsize (TimestampData_write D) (\<lambda>_. 32 + (32 + 0))"
    unfolding TimestampData_write_def by (intro wsize_intros)
  then show ?thesis by simp
qed

lemma wreturns_TimestampData [wreturns_intros]: "wreturns (TimestampData_write D)"
  unfolding TimestampData_write_def by (intro wreturns_intros)

text \<open>Each variant writes its fields in order.\<close>

lemma TcpOption_body_simps:
  "TcpOption_body D EOL = Ok []"
  "TcpOption_body D NOP = Ok []"
  "TcpOption_body D (MSS len v) = wfield topt_length (write_uint D 8) (wfield mss_value (write_uint D 16) wdone) (MSS len v)"
  "TcpOption_body D (WScale len w) = wfield topt_length (write_uint D 8) (wfield wscale_value (write_uint D 8) wdone) (WScale len w)"
  "TcpOption_body D (SAckOK len) = wfield topt_length (write_uint D 8) wdone (SAckOK len)"
  "TcpOption_body D (SAck len s) =
     wfield topt_length (write_uint D 8) (wfield sack_value (write_list (SAckData_write D)) wdone) (SAck len s)"
  "TcpOption_body D (Timestamp len t) =
     wfield topt_length (write_uint D 8) (wfield ts_value (TimestampData_write D) wdone) (Timestamp len t)"
  by (simp_all add: TcpOption_body_def)

lemma TcpOption_id_cases:
  "TcpOption_id opt = 0 \<longleftrightarrow> opt = EOL"
  "TcpOption_id opt = 1 \<longleftrightarrow> opt = NOP"
  "TcpOption_id opt = 2 \<longleftrightarrow> (\<exists>len v. opt = MSS len v)"
  "TcpOption_id opt = 3 \<longleftrightarrow> (\<exists>len v. opt = WScale len v)"
  "TcpOption_id opt = 4 \<longleftrightarrow> (\<exists>len. opt = SAckOK len)"
  "TcpOption_id opt = 5 \<longleftrightarrow> (\<exists>len v. opt = SAck len v)"
  "TcpOption_id opt = 8 \<longleftrightarrow> (\<exists>len v. opt = Timestamp len v)"
  by (cases opt; simp)+

lemma lossless_variant:
  assumes "lossless r w (\<lambda>v. P v \<and> TcpOption_id v = i)"
    and "\<And>v. TcpOption_id v = i \<Longrightarrow> TcpOption_body D v = w v"
  shows "lossless r (TcpOption_body D) (\<lambda>v. P v \<and> TcpOption_id v = i)"
  using assms(1) by (rule lossless_wcong) (use assms(2) in simp)

lemma rereads_variant:
  assumes "rereads any_tail r w (\<lambda>v. P v \<and> TcpOption_id v = i)"
    and "\<And>v. TcpOption_id v = i \<Longrightarrow> TcpOption_body D v = w v"
  shows "rereads any_tail r (TcpOption_body D) (\<lambda>v. P v \<and> TcpOption_id v = i)"
  using assms(1) by (rule rereads_wcong) (use assms(2) in simp)

lemma lossless_TcpOption: "lossless (TcpOption_read D) (TcpOption_write D) TcpOption_wf"
  unfolding TcpOption_read_def TcpOption_write_def
proof (rule lossless_field [OF lossless_u8])
  fix i :: u8
  let ?P = "\<lambda>v. TcpOption_wf v \<and> TcpOption_id v = i"
  have mss: "lossless (rbind (read_uint D 8) (\<lambda>len. rbind (read_uint D 16) (\<lambda>v. rret (MSS len v)))) (TcpOption_body D) ?P" if "i = 2"
    by (rule lossless_variant [where w = "wfield topt_length (write_uint D 8) (wfield mss_value (write_uint D 16) wdone)"])
      (auto simp: that TcpOption_id_cases TcpOption_body_simps
        intro!: lossless_field [OF lossless_u8] lossless_field [OF lossless_u16] lossless_done)
  have ws: "lossless (rbind (read_uint D 8) (\<lambda>len. rbind (read_uint D 8) (\<lambda>v. rret (WScale len v)))) (TcpOption_body D) ?P" if "i = 3"
    by (rule lossless_variant [where w = "wfield topt_length (write_uint D 8) (wfield wscale_value (write_uint D 8) wdone)"])
      (auto simp: that TcpOption_id_cases TcpOption_body_simps intro!: lossless_field [OF lossless_u8] lossless_done)
  have ok: "lossless (rbind (read_uint D 8) (\<lambda>len. rret (SAckOK len))) (TcpOption_body D) ?P" if "i = 4"
    by (rule lossless_variant [where w = "wfield topt_length (write_uint D 8) wdone"])
      (auto simp: that TcpOption_id_cases TcpOption_body_simps intro!: lossless_field [OF lossless_u8] lossless_done)
  have sack: "lossless (rbind (read_uint D 8) (\<lambda>len.
       rbind (rtry (DParse ''overflow when parsing SAckData vec'') (sack_count len)) (\<lambda>n.
       rbind (read_count (SAckData_read D) (unat n)) (\<lambda>v. rret (SAck len v))))) (TcpOption_body D) ?P" if "i = 5"
    by (rule lossless_variant [where w = "wfield topt_length (write_uint D 8) (wfield sack_value (write_list (SAckData_write D)) wdone)"])
      (auto simp: that TcpOption_id_cases TcpOption_body_simps sack_count_Some intro!: lossless_field [OF lossless_u8]
        lossless_rtry lossless_field [OF lossless_count [OF lossless_SAckData]] lossless_done)
  have ts: "lossless (rbind (read_uint D 8) (\<lambda>len. rbind (TimestampData_read D) (\<lambda>v. rret (Timestamp len v)))) (TcpOption_body D) ?P" if "i = 8"
    by (rule lossless_variant [where w = "wfield topt_length (write_uint D 8) (wfield ts_value (TimestampData_write D) wdone)"])
      (auto simp: that TcpOption_id_cases TcpOption_body_simps intro!: lossless_field [OF lossless_u8]
        lossless_field [OF lossless_TimestampData] lossless_done)
  show "lossless (if i = 0 then rret EOL else if i = 1 then rret NOP
     else if i = 2 then rbind (read_uint D 8) (\<lambda>len. rbind (read_uint D 16) (\<lambda>v. rret (MSS len v)))
     else if i = 3 then rbind (read_uint D 8) (\<lambda>len. rbind (read_uint D 8) (\<lambda>v. rret (WScale len v)))
     else if i = 4 then rbind (read_uint D 8) (\<lambda>len. rret (SAckOK len))
     else if i = 5 then rbind (read_uint D 8) (\<lambda>len.
       rbind (rtry (DParse ''overflow when parsing SAckData vec'') (sack_count len)) (\<lambda>n.
       rbind (read_count (SAckData_read D) (unat n)) (\<lambda>v. rret (SAck len v))))
     else if i = 8 then rbind (read_uint D 8) (\<lambda>len. rbind (TimestampData_read D) (\<lambda>v. rret (Timestamp len v)))
     else rfail (dk_no_variant D ''TcpOption'' (unat i))) (TcpOption_body D) ?P"
    using mss ws ok sack ts by (simp add: lossless_fail lossless_ret TcpOption_body_simps)
qed

lemma rereads_TcpOption: "rereads any_tail (TcpOption_read D) (TcpOption_write D) TcpOption_wf"
  unfolding TcpOption_read_def TcpOption_write_def
proof (rule rereads_field [OF rereads_u8])
  fix i :: u8
  let ?P = "\<lambda>v. TcpOption_wf v \<and> TcpOption_id v = i"
  have mss: "rereads any_tail (rbind (read_uint D 8) (\<lambda>len. rbind (read_uint D 16) (\<lambda>v. rret (MSS len v)))) (TcpOption_body D) ?P" if "i = 2"
    by (rule rereads_variant [where w = "wfield topt_length (write_uint D 8) (wfield mss_value (write_uint D 16) wdone)"])
      (auto simp: that TcpOption_id_cases TcpOption_body_simps
        intro!: rereads_field [OF rereads_u8] rereads_field [OF rereads_u16] rereads_done)
  have ws: "rereads any_tail (rbind (read_uint D 8) (\<lambda>len. rbind (read_uint D 8) (\<lambda>v. rret (WScale len v)))) (TcpOption_body D) ?P" if "i = 3"
    by (rule rereads_variant [where w = "wfield topt_length (write_uint D 8) (wfield wscale_value (write_uint D 8) wdone)"])
      (auto simp: that TcpOption_id_cases TcpOption_body_simps intro!: rereads_field [OF rereads_u8] rereads_done)
  have ok: "rereads any_tail (rbind (read_uint D 8) (\<lambda>len. rret (SAckOK len))) (TcpOption_body D) ?P" if "i = 4"
    by (rule rereads_variant [where w = "wfield topt_length (write_uint D 8) wdone"])
      (auto simp: that TcpOption_id_cases TcpOption_body_simps intro!: rereads_field [OF rereads_u8] rereads_done)
  have sack: "rereads any_tail (rbind (read_uint D 8) (\<lambda>len.
       rbind (rtry (DParse ''overflow when parsing SAckData vec'') (sack_count len)) (\<lambda>n.
       rbind (read_count (SAckData_read D) (unat n)) (\<lambda>v. rret (SAck len v))))) (TcpOption_body D) ?P" if "i = 5"
    by (rule rereads_variant [where w = "wfield topt_length (write_uint D 8) (wfield sack_value (write_list (SAckData_write D)) wdone)"])
      (auto simp: that TcpOption_id_cases TcpOption_body_simps sack_count_ex dest!: sack_count_Some [THEN iffD1]
        intro!: rereads_field [OF rereads_u8]
        rereads_rtry rereads_field [OF rereads_count [OF rereads_SAckData]] rereads_done)
  have ts: "rereads any_tail (rbind (read_uint D 8) (\<lambda>len. rbind (TimestampData_read D) (\<lambda>v. rret (Timestamp len v)))) (TcpOption_body D) ?P" if "i = 8"
    by (rule rereads_variant [where w = "wfield topt_length (write_uint D 8) (wfield ts_value (TimestampData_write D) wdone)"])
      (auto simp: that TcpOption_id_cases TcpOption_body_simps intro!: rereads_field [OF rereads_u8]
        rereads_field [OF rereads_TimestampData] rereads_done)
  have "TcpOption_id v \<in> {0, 1, 2, 3, 4, 5, 8}" for v
    by (cases v) simp_all
  then have other: "rereads any_tail (rfail e) (TcpOption_body D) ?P" if "i \<notin> {0, 1, 2, 3, 4, 5, 8}" for e
    using that by (intro rereads_false) auto
  show "rereads any_tail (if i = 0 then rret EOL else if i = 1 then rret NOP
     else if i = 2 then rbind (read_uint D 8) (\<lambda>len. rbind (read_uint D 16) (\<lambda>v. rret (MSS len v)))
     else if i = 3 then rbind (read_uint D 8) (\<lambda>len. rbind (read_uint D 8) (\<lambda>v. rret (WScale len v)))
     else if i = 4 then rbind (read_uint D 8) (\<lambda>len. rret (SAckOK len))
     else if i = 5 then rbind (read_uint D 8) (\<lambda>len.
       rbind (rtry (DParse ''overflow when parsing SAckData vec'') (sack_count len)) (\<lambda>n.
       rbind (read_count (SAckData_read D) (unat n)) (\<lambda>v. rret (SAck len v))))
     else if i = 8 then rbind (read_uint D 8) (\<lambda>len. rbind (TimestampData_read D) (\<lambda>v. rret (Timestamp len v)))
     else rfail (dk_no_variant D ''TcpOption'' (unat i))) (TcpOption_body D) ?P"
    using mss ws ok sack ts other
    by (auto simp: TcpOption_id_cases TcpOption_body_simps intro!: rereads_ret)
qed simp

lemma rsafe_TcpOption [rsafe_intros]: "rsafe (TcpOption_read D)"
  unfolding TcpOption_read_def by (auto intro!: rsafe_intros)

lemma rprogress_TcpOption: "rprogress (TcpOption_read D)"
  unfolding TcpOption_read_def by (rule rprogress_bind) (auto intro!: rprogress_uint rsafe_intros)

lemma wsize_TcpOption [wsize_intros]: "wsize (TcpOption_write D) TcpOption_bits"
proof -
  have "length b + 8 = TcpOption_bits v" if "TcpOption_body D v = Ok b" for v b
  proof -
    have "wsize (write_list (SAckData_write D)) (\<lambda>xs. sum_list (map (\<lambda>_. 64) xs))"
      by (intro wsize_intros)
    then have sack: "length y = 64 * length xs" if "write_list (SAckData_write D) xs = Ok y" for xs y
      using that by (auto simp: wsize_def sum_list_triv)
    have u8: "length y = 8" if "write_uint D 8 (x :: u8) = Ok y" for x y
      using that wsize_uint unfolding wsize_def by blast
    have u16: "length y = 16" if "write_uint D 16 (x :: u16) = Ok y" for x y
      using that wsize_uint unfolding wsize_def by blast
    have ts: "length y = 64" if "TimestampData_write D x = Ok y" for x y
      using that wsize_TimestampData unfolding wsize_def by blast
    from that show ?thesis
      by (cases v) (auto simp: TcpOption_body_simps wfield_def wdone_def outcome_simps dest!: u8 u16 ts sack)
  qed
  then have "wsize (TcpOption_body D) (\<lambda>v. TcpOption_bits v - 8)"
    unfolding wsize_def by (metis add_diff_cancel_right')
  then have "wsize (TcpOption_write D) (\<lambda>v. 8 + (TcpOption_bits v - 8))"
    unfolding TcpOption_write_def by (intro wsize_field wsize_uint)
  moreover have "8 + (TcpOption_bits v - 8) = TcpOption_bits v" for v
    by (cases v) simp_all
  ultimately show ?thesis by simp
qed

lemma wreturns_TcpOption [wreturns_intros]: "wreturns (TcpOption_write D)"
proof -
  have "returns (TcpOption_body D v)" for v
    unfolding TcpOption_body_def
    by (cases v; simp; intro wreturnsD wreturns_intros)
  then show ?thesis
    unfolding TcpOption_write_def by (intro wreturns_intros) (simp add: wreturns_def)
qed

subsection \<open>The header\<close>

lemma lossless_TcpFlags: "lossless (TcpFlags_read D) (TcpFlags_write D) TcpFlags_wf"
  unfolding TcpFlags_read_def TcpFlags_write_def
  by (intro lossless_field [OF lossless_uint] lossless_done) (simp_all add: TcpFlags_wf_def)

lemma rereads_TcpFlags: "rereads any_tail (TcpFlags_read D) (TcpFlags_write D) TcpFlags_wf"
  unfolding TcpFlags_read_def TcpFlags_write_def
  by (intro rereads_field [OF rereads_uint] rereads_done) (simp_all add: TcpFlags_wf_def)

lemma rfixed_TcpFlags [rfixed_intros]: "rfixed 12 (TcpFlags_read D)"
proof -
  have "rfixed (3 + (1 + (1 + (1 + (1 + (1 + (1 + (1 + (1 + (1 + 0)))))))))) (TcpFlags_read D)"
    unfolding TcpFlags_read_def by (intro rfixed_intros)
  then show ?thesis by simp
qed

lemma wsize_TcpFlags [wsize_intros]: "wsize (TcpFlags_write D) (\<lambda>_. 12)"
proof -
  have "wsize (TcpFlags_write D) (\<lambda>_. 3 + (1 + (1 + (1 + (1 + (1 + (1 + (1 + (1 + (1 + 0))))))))))"
    unfolding TcpFlags_write_def by (intro wsize_intros)
  then show ?thesis by simp
qed

lemma wreturns_TcpFlags [wreturns_intros]: "wreturns (TcpFlags_write D)"
  unfolding TcpFlags_write_def by (intro wreturns_intros)

lemma lossless_Tcp: "lossless (Tcp_read D) (Tcp_write D) Tcp_parsed"
  unfolding Tcp_read_def Tcp_write_def
  by (intro lossless_field [OF lossless_uint] lossless_field [OF lossless_TcpFlags] lossless_rtry
      lossless_field [OF lossless_limit_nil [OF lossless_TcpOption]] lossless_done)
    (simp_all add: Tcp_parsed_def list_all_iff Tcp_options_bytes_Some)

lemma rereads_Tcp: "rereads any_tail (Tcp_read D) (Tcp_write D) Tcp_wf"
  unfolding Tcp_read_def Tcp_write_def
  by (intro rereads_field [OF rereads_uint] rereads_field [OF rereads_TcpFlags] rereads_rtry
      rereads_field [OF rereads_limit [OF rereads_TcpOption wsize_TcpOption]] rereads_done)
    (auto simp: Tcp_wf_def Tcp_parsed_def list_all_iff Tcp_options_bytes_ex TcpOption_bits_pos
      dest!: Tcp_options_bytes_Some [THEN iffD1, rotated])

lemma rsafe_Tcp: "rsafe (Tcp_read D)"
  unfolding Tcp_read_def
  by (intro rsafe_intros rsafe_limit rprogress_TcpOption rfixed_rsafe [OF rfixed_TcpFlags])

lemma rmin_Tcp: "rmin (8 * 20) (Tcp_read D)"
proof -
  have "rmin (16 + (16 + (32 + (32 + (4 + (12 + (16 + (16 + (16 + 0))))))))) (Tcp_read D)"
    unfolding Tcp_read_def by (intro rfixed_intros)
  then show ?thesis by simp
qed

lemma wsize_Tcp: "wsize (Tcp_write D) Tcp_bits"
proof -
  have "wsize (Tcp_write D) (\<lambda>v. 16 + (16 + (32 + (32 + (4 + (12 + (16 + (16 + (16 +
      (sum_list (map TcpOption_bits (tcp_options v)) + 0))))))))))"
    unfolding Tcp_write_def by (intro wsize_intros)
  then show ?thesis by (simp add: Tcp_bits_def [abs_def] add.assoc)
qed

lemma wreturns_Tcp: "wreturns (Tcp_write D)"
  unfolding Tcp_write_def by (intro wreturns_intros)

lemma tcp_codec: "layer_codec (Tcp_parse pf D) (Tcp_to_bytes D) Tcp_wf (\<lambda>_. True)"
  using layer_codecI [OF lossless_Tcp rereads_Tcp rsafe_Tcp wsize_Tcp Tcp_bits_dvd Tcp_bits_dvd
      wreturns_Tcp, where pf = pf]
  by (simp add: any_tail_def Tcp_parse_def [abs_def] Tcp_to_bytes_def [abs_def])

lemma Tcp_to_bytes_length:
  assumes "Tcp_to_bytes D v = Ok hdr"
  shows "8 * length hdr = Tcp_bits v"
  using to_bytes_with_length [OF wsize_Tcp Tcp_bits_dvd] assms by (simp add: Tcp_to_bytes_def)

lemma Tcp_hole: "u16_hole tcp_checksum (\<lambda>c v. v\<lparr>tcp_checksum := c\<rparr>) (Tcp_write D) (8 * 16)"
proof -
  have "u16_hole tcp_checksum (\<lambda>c v. v\<lparr>tcp_checksum := c\<rparr>) (Tcp_write D)
      (16 + (16 + (32 + (32 + (4 + (12 + (16 + 0)))))))"
    unfolding Tcp_write_def
    by (intro u16_hole_skip wsize_intros u16_hole_here) (simp_all add: wfield_def wdone_def)
  then show ?thesis by simp
qed

lemma Tcp_to_bytes_checksum:
  assumes "Tcp_to_bytes D v = Ok hdr"
  shows "\<exists>pre post. length pre = 16 \<and> hdr = pre @ u16_to_be_bytes (tcp_checksum v) @ post \<and>
     (\<forall>c. Tcp_to_bytes D (v\<lparr>tcp_checksum := c\<rparr>) = Ok (pre @ u16_to_be_bytes c @ post))"
  using to_bytes_hole [OF Tcp_hole wsize_Tcp Tcp_bits_dvd] assms by (simp add: Tcp_to_bytes_def)

lemma Tcp_parse_short:
  assumes "length input < 20"
  shows "\<exists>n. Tcp_parse pf D input = Err (Incomplete n)"
  using parse_with_min [OF rmin_Tcp assms] by (simp add: Tcp_parse_def)

text \<open>The first twelve bytes and a half of the header, and what the data offset does with the rest.\<close>

lemma Tcp_read_head:
  assumes "20 \<le> length input"
  obtains s d q a where "Tcp_read D (input, 0) = Tcp_read_tail D s d q a (word_of_nat (unat (input ! 12) div 16))
    (advance 100 (input, 0))"
proof -
  have "drop 12 input = input ! 12 # drop 13 input"
    using Cons_nth_drop_Suc [of 12 input] assms by simp
  then have "drop 96 (bytes_bits input) = byte_bits (input ! 12) @ bytes_bits (drop 13 input)"
    using drop_bytes_bits [of 12 input] by simp
  then have "take 4 (drop 96 (bytes_bits input)) = take 4 (byte_bits (input ! 12))"
    by simp
  then show thesis
    using assms that by (simp add: Tcp_read_split rbind_def read_uint_enough nat_of_bits_nibbles)
qed

lemma Tcp_read_bad_offset:
  assumes "20 \<le> length input" and "unat (input ! 12) div 16 < 5"
  shows "Tcp_read D (input, 0) = Err (DParse ''error: invalid tcp offset'')"
proof -
  let ?off = "word_of_nat (unat (input ! 12) div 16) :: u8"
  obtain s d q a where hd: "Tcp_read D (input, 0) = Tcp_read_tail D s d q a ?off (advance 100 (input, 0))"
    using Tcp_read_head [OF assms(1)] by blast
  have "unat ?off = unat (input ! 12) div 16"
    using assms(2) by (intro unat_word_of_nat_small [where n = 4]) simp_all
  then have none: "Tcp_options_bytes ?off = None"
    using assms(2) Tcp_options_bytes_ex [of ?off] by (cases "Tcp_options_bytes ?off") auto
  have "rfails (12 + (16 + (16 + (16 + 0)))) (DParse ''error: invalid tcp offset'') (Tcp_read_tail D s d q a ?off)"
    unfolding Tcp_read_tail_def none by (intro rfails_bind rfixed_intros rfails_rtry)
  moreover have "12 + (16 + (16 + (16 + 0))) \<le> remaining (advance 100 (input, 0))"
    using assms(1) by simp
  ultimately show ?thesis
    unfolding hd rfails_def using snd_advance by blast
qed

lemma Tcp_parse_bad_offset:
  assumes "20 \<le> length input" and "unat (input ! 12) div 16 < 5"
  shows "Tcp_parse pf D input = Err (Parse (dk_to_string D (DParse ''error: invalid tcp offset'')))"
  by (simp add: Tcp_parse_def parse_with_def LayerError_from_def Tcp_read_bad_offset [OF assms])

lemma Tcp_parse_plain:
  assumes "20 \<le> length input" and "unat (input ! 12) div 16 = 5"
  shows "\<exists>v. Tcp_parse pf D input = Ok (drop 20 input, v)"
proof -
  obtain s d q a where "Tcp_read D (input, 0) = Tcp_read_tail D s d q a (word_of_nat (unat (input ! 12) div 16))
      (advance 100 (input, 0))"
    using Tcp_read_head [OF assms(1)] by blast
  then have hd: "Tcp_read D (input, 0) = Tcp_read_tail D s d q a 5 (advance 100 (input, 0))"
    using assms(2) by simp
  obtain n where n: "Tcp_options_bytes 5 = Some n" "unat n = 0"
    using Tcp_options_bytes_ex [of 5] Tcp_options_bytes_Some [of 5] by auto
  have "rfixed (12 + (16 + (16 + (16 + 0)))) (Tcp_read_tail D s d q a 5)"
    unfolding Tcp_read_tail_def n rtry_def option.case rbind_rret mult_0_right read_limit_0
    by (intro rfixed_intros)
  moreover have "12 + (16 + (16 + (16 + 0))) \<le> remaining (advance 100 (input, 0))"
    using assms(1) by simp
  ultimately obtain v where "Tcp_read D (input, 0) = Ok (advance (12 + (16 + (16 + (16 + 0)))) (advance 100 (input, 0)), v)"
    unfolding hd by (rule rfixed_enough [OF _ snd_advance])
  then have "Tcp_read D (input, 0) = Ok (advance (8 * 20) (input, 0), v)" by simp
  then have "Tcp_read D (input, 0) = Ok ((drop 20 input, 0), v)"
    unfolding advance_start .
  then show ?thesis
    by (simp add: Tcp_parse_def parse_with_def debug_assert_def)
qed

lemma Tcp_parse_sound:
  "case Tcp_parse pf D input of
     Ok (rest, v) \<Rightarrow> Tcp_parsed v \<and> (\<exists>hdr. Tcp_to_bytes D v = Ok hdr \<and> input = hdr @ rest \<and> 20 \<le> length hdr)
   | Err e \<Rightarrow> True | _ \<Rightarrow> False"
proof (cases "Tcp_parse pf D input")
  case (Ok p)
  then obtain rest v where p: "p = (rest, v)" by (cases p)
  from layer_codec.parse_lossless [OF tcp_codec Ok [unfolded p]] obtain hdr
    where hdr: "Tcp_to_bytes D v = Ok hdr" "input = hdr @ rest" by blast
  have "20 \<le> length hdr"
    using Tcp_to_bytes_length [OF hdr(1)] by (simp add: Tcp_bits_def)
  moreover obtain c where "Tcp_read D (input, 0) = Ok (c, v)"
    using Ok p by (auto simp: Tcp_parse_def parse_with_def outcome_simps)
  then have "Tcp_parsed v"
    using lossless_Tcp unfolding lossless_def by (metis snd_conv zero_less_numeral)
  ultimately show ?thesis
    using Ok p hdr by simp
qed (use layer_codec.parse_returns [OF tcp_codec, of pf input] in simp_all)

end

sublocale nata_env \<subseteq> tcp: layer_codec "Tcp_parse pf D" "Tcp_to_bytes D" Tcp_wf "\<lambda>_. True"
  by (rule tcp_codec)

text \<open>A header with options that fill it.\<close>

section \<open>Properties\<close>

text \<open>
  (C27) Parsing a TCP header always returns.  Fewer than 20 bytes are incomplete; a data offset below
  5 is rejected with the parser's own message; a header without options (offset 5) always parses and
  takes exactly 20 bytes; and every header that is parsed consists of exactly the bytes that
  serialising it gives back, at least 20, with every field within its width.
\<close>

theorem Tcp_parse_total:
  assumes "deku_laws D"
  shows "(length input < 20 \<longrightarrow> (\<exists>n. Tcp_parse pf D input = Err (Incomplete n))) \<and>
    (20 \<le> length input \<and> unat (input ! 12) div 16 < 5 \<longrightarrow>
       Tcp_parse pf D input = Err (Parse (dk_to_string D (DParse ''error: invalid tcp offset'')))) \<and>
    (20 \<le> length input \<and> unat (input ! 12) div 16 = 5 \<longrightarrow> (\<exists>v. Tcp_parse pf D input = Ok (drop 20 input, v))) \<and>
    (case Tcp_parse pf D input of
       Ok (rest, v) \<Rightarrow> Tcp_parsed v \<and> (\<exists>hdr. Tcp_to_bytes D v = Ok hdr \<and> input = hdr @ rest \<and> 20 \<le> length hdr)
     | Err e \<Rightarrow> True | _ \<Rightarrow> False)"
  using deku_laws.Tcp_parse_short [OF assms] deku_laws.Tcp_parse_bad_offset [OF assms]
    deku_laws.Tcp_parse_plain [OF assms] deku_laws.Tcp_parse_sound [OF assms] by blast

theorem Tcp_parse_total_witness:
  "deku_laws ref_deku \<and> (\<exists>v. Tcp_parse dev_profile ref_deku (replicate 21 0x50) = Ok ([0x50], v)) \<and>
   Tcp_parse dev_profile ref_deku (replicate 21 0) = Err (Parse ''error: invalid tcp offset'')"
  using ref.deku_laws_axioms Tcp_parse_total [OF ref.deku_laws_axioms, of "replicate 21 0x50" dev_profile]
    Tcp_parse_total [OF ref.deku_laws_axioms, of "replicate 21 0" dev_profile]
  by (simp add: ref_deku_def)

text \<open>
  A well-formed TCP header (fields within their widths, options that fill the data offset)
  serialises to four bytes per word of its offset and is parsed back unchanged, whatever follows it.
\<close>

lemma Tcp_roundtrip:
  assumes "deku_laws D" and "Tcp_wf v"
  shows "\<exists>hdr. Tcp_to_bytes D v = Ok hdr \<and> length hdr = 4 * unat (tcp_offset v) \<and>
     (\<forall>rest. Tcp_parse pf D (hdr @ rest) = Ok (rest, v))"
proof -
  from layer_codec.reparse [OF deku_laws.tcp_codec [OF assms(1)] assms(2)] obtain hdr
    where hdr: "Tcp_to_bytes D v = Ok hdr" "\<forall>rest. Tcp_parse pf D (hdr @ rest) = Ok (rest, v)"
    by blast
  have "8 * length hdr = 160 + 32 * (unat (tcp_offset v) - 5)" and "5 \<le> unat (tcp_offset v)"
    using deku_laws.Tcp_to_bytes_length [OF assms(1) hdr(1)] assms(2)
    by (simp_all add: Tcp_bits_def Tcp_wf_def Tcp_parsed_def)
  then have "length hdr = 4 * unat (tcp_offset v)" by linarith
  with hdr show ?thesis by auto
qed

text \<open>
  \<open>update\<close> of a selective acknowledgement succeeds exactly when it has at most 31 blocks (on a
  platform whose \<open>usize\<close> holds 257); the option it leaves then has the length of its blocks and is one
  the parser reads back.  Otherwise it is an error and the option is unchanged.  Every other option is
  left as it is.
\<close>

lemma TcpOption_update_sack:
  assumes "257 \<le> usize_max pf"
  shows "(if length val \<le> 31
      then \<exists>len'. TcpOption_update pf D (SAck len val) = (SAck len' val, Ok ()) \<and>
        unat len' = 8 * length val + 2 \<and> TcpOption_wf (SAck len' val)
      else \<exists>e. TcpOption_update pf D (SAck len val) = (SAck len val, Err e)) \<and>
    (\<not> is_SAck opt \<longrightarrow> TcpOption_update pf D opt = (opt, Ok ()))"
proof (intro conjI impI)
  show "if length val \<le> 31
      then \<exists>len'. TcpOption_update pf D (SAck len val) = (SAck len' val, Ok ()) \<and>
        unat len' = 8 * length val + 2 \<and> TcpOption_wf (SAck len' val)
      else \<exists>e. TcpOption_update pf D (SAck len val) = (SAck len val, Err e)"
  proof (cases "length val \<le> 31")
    case True
    let ?len = "word_of_nat (8 * length val + 2) :: u8"
    have "sack_update_length pf (length val) = Some (8 * length val + 2)"
      using True assms by (simp add: sack_update_length_def checked_add_usize_def)
    moreover have "u8_try_from (8 * length val + 2) = Some ?len"
      using True by (simp add: u8_try_from_def)
    moreover have "unat ?len = 8 * length val + 2"
      using True by (intro unat_word_of_nat_small [where n = 8]) simp_all
    ultimately show ?thesis
      using True by (simp add: TcpOption_update_def del: of_nat_add of_nat_mult)
  next
    case False
    then have "sack_update_length pf (length val) = Some n \<Longrightarrow> u8_try_from n = None" for n
      by (auto simp: sack_update_length_def checked_add_usize_def u8_try_from_def split: if_splits)
    then show ?thesis
      using False by (cases "sack_update_length pf (length val)") (simp_all add: TcpOption_update_def)
  qed
  show "TcpOption_update pf D opt = (opt, Ok ())" if "\<not> is_SAck opt"
    using that by (cases opt) (simp_all add: TcpOption_update_def)
qed

text \<open>
  The display of the flags determines the five flags it shows: two sets of one-bit flags that
  print alike agree on SYN, PSH, ACK, FIN and RST.
\<close>

lemma TcpFlags_fmt_inj:
  assumes "TcpFlags_wf f" and "TcpFlags_wf g" and "TcpFlags_fmt f = TcpFlags_fmt g"
  shows "fl_syn f = fl_syn g \<and> fl_push f = fl_push g \<and> fl_ack f = fl_ack g \<and> fl_fin f = fl_fin g \<and>
    fl_reset f = fl_reset g"
proof -
  have bit: "x = y" if "unat x < 2" "unat y < 2" "x = 1 \<longleftrightarrow> y = 1" for x y :: u8
    using that by (auto simp: word_unat_eq_iff)
  have shown: "CHR ''S'' \<in> set (TcpFlags_fmt h) \<longleftrightarrow> fl_syn h = 1" "CHR ''P'' \<in> set (TcpFlags_fmt h) \<longleftrightarrow> fl_push h = 1"
    "CHR ''A'' \<in> set (TcpFlags_fmt h) \<longleftrightarrow> fl_ack h = 1" "CHR ''F'' \<in> set (TcpFlags_fmt h) \<longleftrightarrow> fl_fin h = 1"
    "CHR ''R'' \<in> set (TcpFlags_fmt h) \<longleftrightarrow> fl_reset h = 1" for h
    by (auto simp: TcpFlags_fmt_def)
  have agree: "fl_syn f = 1 \<longleftrightarrow> fl_syn g = 1" "fl_push f = 1 \<longleftrightarrow> fl_push g = 1" "fl_ack f = 1 \<longleftrightarrow> fl_ack g = 1"
    "fl_fin f = 1 \<longleftrightarrow> fl_fin g = 1" "fl_reset f = 1 \<longleftrightarrow> fl_reset g = 1"
    unfolding shown [symmetric] assms(3) by (rule refl)+
  show ?thesis
    using assms(1,2) unfolding TcpFlags_wf_def by (intro conjI bit agree) simp_all
qed

end
