(* ===== verification/Layers.thy ===== *)
theory Layers
  imports Ether Raw Ipv4 Ipv6 Icmp Udp Tcp
begin

text \<open>
  \<open>src/layer/mod.rs\<close> and \<open>src/layer/utils.rs\<close>: boxed layers and the operations on lists of them.

  \<open>LayerOwned\<close> is \<open>Box<dyn LayerExt>\<close>.  The trait is open: besides the layers of the crate there are
  the client's own, the constructor \<open>LCustom\<close> over a type the client chooses; what the client
  implements for them (the trait methods and the type's identity) is the record \<open>vtable\<close>, a parameter.
  \<open>env\<close> collects the parameters of the model: deku, the platform and the client's methods.
\<close>

datatype 'c LayerOwned =
    LEther Ether
  | LRaw Raw
  | LIpv4 Ipv4
  | LIpv6 Ipv6
  | LIcmp4 Icmp4
  | LUdp Udp
  | LTcp Tcp
  | LCustom 'c

text \<open>\<open>TypeId\<close>: one per layer type; the client's types are numbered.\<close>

datatype TypeId = TEther | TRaw | TIpv4 | TIpv6 | TIcmp4 | TUdp | TTcp | TCustom nat

record 'c vtable =
  vt_type_id :: "'c \<Rightarrow> nat"
  vt_finalize :: "'c \<Rightarrow> 'c LayerOwned list \<Rightarrow> 'c LayerOwned list \<Rightarrow> 'c \<times> (LayerError, unit) outcome"
  vt_to_bytes :: "'c \<Rightarrow> (LayerError, bytes) outcome"
  vt_length :: "'c \<Rightarrow> (LayerError, nat) outcome"

record 'c env =
  env_dk :: deku
  env_pf :: platform
  env_vt :: "'c vtable"

section \<open>\<open>AsAny\<close>, \<open>get_layer!\<close>, \<open>is_layer!\<close>\<close>

fun type_id :: "'c env \<Rightarrow> 'c LayerOwned \<Rightarrow> TypeId" where
  "type_id env (LEther _) = TEther"
| "type_id env (LRaw _) = TRaw"
| "type_id env (LIpv4 _) = TIpv4"
| "type_id env (LIpv6 _) = TIpv6"
| "type_id env (LIcmp4 _) = TIcmp4"
| "type_id env (LUdp _) = TUdp"
| "type_id env (LTcp _) = TTcp"
| "type_id env (LCustom c) = TCustom (vt_type_id (env_vt env) c)"

definition is_layer :: "'c env \<Rightarrow> 'c LayerOwned \<Rightarrow> TypeId \<Rightarrow> bool" where
  "is_layer env l t \<longleftrightarrow> type_id env l = t"

fun get_ether :: "'c LayerOwned \<Rightarrow> Ether option" where
  "get_ether (LEther e) = Some e"
| "get_ether _ = None"

fun get_ipv4 :: "'c LayerOwned \<Rightarrow> Ipv4 option" where
  "get_ipv4 (LIpv4 v) = Some v"
| "get_ipv4 _ = None"

fun get_ipv6 :: "'c LayerOwned \<Rightarrow> Ipv6 option" where
  "get_ipv6 (LIpv6 v) = Some v"
| "get_ipv6 _ = None"

fun get_udp :: "'c LayerOwned \<Rightarrow> Udp option" where
  "get_udp (LUdp u) = Some u"
| "get_udp _ = None"

fun get_tcp :: "'c LayerOwned \<Rightarrow> Tcp option" where
  "get_tcp (LTcp t) = Some t"
| "get_tcp _ = None"

fun get_raw :: "'c LayerOwned \<Rightarrow> Raw option" where
  "get_raw (LRaw r) = Some r"
| "get_raw _ = None"

fun get_icmp4 :: "'c LayerOwned \<Rightarrow> Icmp4 option" where
  "get_icmp4 (LIcmp4 i) = Some i"
| "get_icmp4 _ = None"

text \<open>The downcast to one of the client's types.\<close>

definition get_custom :: "'c env \<Rightarrow> nat \<Rightarrow> 'c LayerOwned \<Rightarrow> 'c option" where
  "get_custom env n l = (case l of LCustom c \<Rightarrow> if vt_type_id (env_vt env) c = n then Some c else None | _ \<Rightarrow> None)"

lemma find_map_get:
  "find_map get_ether xs = Some e \<Longrightarrow> LEther e \<in> set xs" "find_map get_ipv4 xs = Some v \<Longrightarrow> LIpv4 v \<in> set xs"
  "find_map get_udp xs = Some u \<Longrightarrow> LUdp u \<in> set xs" "find_map get_tcp xs = Some t \<Longrightarrow> LTcp t \<in> set xs"
  "find_map get_raw xs = Some r \<Longrightarrow> LRaw r \<in> set xs"
  by (auto dest!: find_map_Some elim!: get_ether.elims get_ipv4.elims get_udp.elims get_tcp.elims get_raw.elims)

section \<open>\<open>LayerExt::to_bytes\<close> and \<open>LayerExt::length\<close>\<close>

fun to_bytes :: "'c env \<Rightarrow> 'c LayerOwned \<Rightarrow> (LayerError, bytes) outcome" where
  "to_bytes env (LEther e) = Ether_to_bytes (env_dk env) e"
| "to_bytes env (LRaw r) = Raw_to_bytes (env_dk env) r"
| "to_bytes env (LIpv4 v) = Ipv4_to_bytes (env_dk env) v"
| "to_bytes env (LIpv6 v) = Ipv6_to_bytes (env_dk env) v"
| "to_bytes env (LIcmp4 i) = Icmp4_to_bytes (env_dk env) i"
| "to_bytes env (LUdp u) = Udp_to_bytes (env_dk env) u"
| "to_bytes env (LTcp t) = Tcp_to_bytes (env_dk env) t"
| "to_bytes env (LCustom c) = vt_to_bytes (env_vt env) c"

text \<open>No layer of the crate overrides the default \<open>length\<close>; a client's layer may.\<close>

definition layer_length :: "'c env \<Rightarrow> 'c LayerOwned \<Rightarrow> (LayerError, nat) outcome" where
  "layer_length env l = (case l of
       LCustom c \<Rightarrow> vt_length (env_vt env) c
     | _ \<Rightarrow> omap length (to_bytes env l))"

section \<open>\<open>src/layer/utils.rs\<close>\<close>

definition length_overflow :: LayerError where
  "length_overflow = Finalize ''Overflow occured when calculating ipv4 length field''"

fun length_fold :: "'c env \<Rightarrow> nat \<Rightarrow> 'c LayerOwned list \<Rightarrow> (LayerError, nat) outcome" where
  "length_fold env acc [] = Ok acc"
| "length_fold env acc (l # ls) =
     obind (layer_length env l) (\<lambda>len.
     obind (ok_or length_overflow (checked_add_usize (env_pf env) acc len)) (\<lambda>acc.
     length_fold env acc ls))"

definition length_of_layers :: "'c env \<Rightarrow> 'c LayerOwned list \<Rightarrow> (LayerError, nat) outcome" where
  "length_of_layers env layers = length_fold env 0 layers"

fun bytes_fold :: "'c env \<Rightarrow> bytes \<Rightarrow> 'c LayerOwned list \<Rightarrow> (LayerError, bytes) outcome" where
  "bytes_fold env acc [] = Ok acc"
| "bytes_fold env acc (l # ls) = obind (to_bytes env l) (\<lambda>data. bytes_fold env (acc @ data) ls)"

definition layers_to_bytes :: "'c env \<Rightarrow> 'c LayerOwned list \<Rightarrow> (LayerError, bytes) outcome" where
  "layers_to_bytes env layers = bytes_fold env [] layers"

section \<open>What the client's layers owe\<close>

text \<open>
  The documentation of the trait: \<open>length\<close> is the length of what \<open>to_bytes\<close> returns; \<open>to_bytes\<close> returns;
  and a method on \<open>&mut self\<close> cannot change the type of the layer.
\<close>

locale client_layers =
  fixes vt :: "'c vtable"
  assumes length_agrees: "vt_length vt c = omap length (vt_to_bytes vt c)"
    and client_to_bytes_returns: "returns (vt_to_bytes vt c)"
    and client_finalize_type: "vt_type_id vt (fst (vt_finalize vt c prev next)) = vt_type_id vt c"

text \<open>A client without layers of its own, and the packets of such clients.\<close>

definition no_client :: "unit vtable" where
  "no_client = \<lparr>vt_type_id = (\<lambda>_. 0), vt_finalize = (\<lambda>c _ _. (c, Ok ())), vt_to_bytes = (\<lambda>_. Ok []),
     vt_length = (\<lambda>_. Ok 0)\<rparr>"

interpretation none: client_layers no_client
  by unfold_locales (simp_all add: no_client_def)

definition dev_env :: "unit env" where
  "dev_env = \<lparr>env_dk = ref_deku, env_pf = dev_profile, env_vt = no_client\<rparr>"

text \<open>The setting of the packet-level properties; \<open>usize\<close> has at least 16 bits.\<close>

locale packet_env =
  fixes env :: "'c env"
  assumes env_deku: "deku_laws (env_dk env)"
    and env_client: "client_layers (env_vt env)"
    and usize_16: "65535 \<le> usize_max (env_pf env)"
begin

sublocale deku: deku_laws "env_dk env"
  by (rule env_deku)

sublocale client: client_layers "env_vt env"
  by (rule env_client)

lemma to_bytes_returns: "returns (to_bytes env l)"
  using layer_codec.to_bytes_returns [OF deku.raw_codec] layer_codec.to_bytes_returns [OF deku.ipv4_codec]
    layer_codec.to_bytes_returns [OF deku.tcp_codec] layer_codec.to_bytes_returns [OF deku.icmp4_codec]
    layer_codec.to_bytes_returns [OF fixed_header.axioms(1) [OF deku.ether_header]]
    layer_codec.to_bytes_returns [OF fixed_header.axioms(1) [OF deku.ipv6_header]]
    layer_codec.to_bytes_returns [OF fixed_header.axioms(1) [OF deku.udp_header]]
    client.client_to_bytes_returns
  by (cases l) simp_all

lemma layer_length_eq: "layer_length env l = omap length (to_bytes env l)"
  by (cases l) (simp_all add: layer_length_def client.length_agrees)

end

lemma dev_env_simps [simp]:
  "env_dk dev_env = ref_deku" "env_pf dev_env = dev_profile" "env_vt dev_env = no_client"
  by (simp_all add: dev_env_def)

interpretation dev_packets: packet_env dev_env
  by (rule packet_env.intro) (simp_all add: ref.deku_laws_axioms none.client_layers_axioms dev_profile_def)

section \<open>Lists of layers\<close>

text \<open>The reference: the concatenation of the layers' bytes.\<close>

fun concat_bytes :: "'c env \<Rightarrow> 'c LayerOwned list \<Rightarrow> (LayerError, bytes) outcome" where
  "concat_bytes env [] = Ok []"
| "concat_bytes env (l # ls) = obind (to_bytes env l) (\<lambda>b. omap (\<lambda>bs. b @ bs) (concat_bytes env ls))"

lemma bytes_fold_eq: "bytes_fold env acc ls = omap (\<lambda>bs. acc @ bs) (concat_bytes env ls)"
proof (induction ls arbitrary: acc)
  case (Cons l ls)
  then show ?case
    by (cases "to_bytes env l"; cases "concat_bytes env ls") simp_all
qed simp

lemma omap_id: "omap (\<lambda>x. x) r = r"
  by (cases r) simp_all

lemma layers_to_bytes_eq: "layers_to_bytes env ls = concat_bytes env ls"
  by (simp add: layers_to_bytes_def bytes_fold_eq omap_id)

lemma concat_bytes_append:
  "concat_bytes env (ls @ ms) = obind (concat_bytes env ls) (\<lambda>a. omap (\<lambda>b. a @ b) (concat_bytes env ms))"
proof (induction ls)
  case Nil
  show ?case by (cases "concat_bytes env ms") simp_all
next
  case (Cons l ls)
  then show ?case
    by (cases "to_bytes env l"; cases "concat_bytes env ls"; cases "concat_bytes env ms") simp_all
qed

context packet_env
begin

lemma concat_bytes_returns: "returns (concat_bytes env ls)"
  by (induction ls) (auto intro!: returns_obind to_bytes_returns)

lemma length_fold_Ok:
  assumes "concat_bytes env ls = Ok bs" and "acc + length bs \<le> usize_max (env_pf env)"
  shows "length_fold env acc ls = Ok (acc + length bs)"
  using assms
proof (induction ls arbitrary: acc bs)
  case (Cons l ls)
  then obtain b bs' where "to_bytes env l = Ok b" "concat_bytes env ls = Ok bs'" "bs = b @ bs'"
    by (auto simp: outcome_simps)
  with Cons show ?case
    by (simp add: layer_length_eq checked_add_usize_def add.assoc)
qed simp

lemma length_fold_Err:
  assumes "concat_bytes env ls = Err e"
  shows "\<exists>e'. length_fold env acc ls = Err e'"
  using assms
proof (induction ls arbitrary: acc)
  case (Cons l ls)
  show ?case
  proof (cases "to_bytes env l")
    case (Ok b)
    with Cons.prems have "concat_bytes env ls = Err e"
      by (simp add: outcome_simps)
    with Cons.IH Ok show ?thesis
      by (cases "checked_add_usize (env_pf env) acc (length b)") (simp_all add: layer_length_eq)
  qed (use Cons.prems to_bytes_returns [of l] in \<open>simp_all add: layer_length_eq\<close>)
qed simp

lemma length_fold_big:
  assumes "concat_bytes env ls = Ok bs" and "usize_max (env_pf env) < acc + length bs"
    and "acc \<le> usize_max (env_pf env)"
  shows "length_fold env acc ls = Err length_overflow"
  using assms
proof (induction ls arbitrary: acc bs)
  case (Cons l ls)
  then obtain b bs' where b: "to_bytes env l = Ok b" "concat_bytes env ls = Ok bs'" "bs = b @ bs'"
    by (auto simp: outcome_simps)
  with Cons show ?case
    by (cases "acc + length b \<le> usize_max (env_pf env)")
      (simp_all add: layer_length_eq checked_add_usize_def add.assoc)
qed simp

lemma length_of_layers_cases:
  "length_of_layers env ls = (case concat_bytes env ls of
      Ok bs \<Rightarrow> if length bs \<le> usize_max (env_pf env) then Ok (length bs) else Err length_overflow
    | _ \<Rightarrow> length_of_layers env ls) \<and> ((\<exists>e. concat_bytes env ls = Err e) \<longrightarrow> (\<exists>e. length_of_layers env ls = Err e))"
  using length_fold_Ok [of ls _ 0] length_fold_big [of ls _ 0] length_fold_Err [of ls _ 0]
  by (auto simp: length_of_layers_def split: outcome.splits)

lemma length_of_layers_returns: "returns (length_of_layers env ls)"
  using length_of_layers_cases [of ls] concat_bytes_returns [of ls]
  by (cases "concat_bytes env ls") (auto split: if_splits)

lemma length_of_layers_Ok_iff:
  "length_of_layers env ls = Ok n \<longleftrightarrow>
     (\<exists>bs. concat_bytes env ls = Ok bs \<and> n = length bs \<and> n \<le> usize_max (env_pf env))"
  using length_of_layers_cases [of ls] concat_bytes_returns [of ls]
  by (cases "concat_bytes env ls") (auto split: if_splits)

end

section \<open>Properties\<close>

text \<open>
  \<open>layers_to_bytes\<close> returns the concatenation of what the layers serialise to, or the error of the
  first layer that does not; \<open>length_of_layers\<close> returns the length of that concatenation, or an error
  when a layer does not serialise or the length exceeds \<open>usize\<close>.  Both always return.
\<close>

lemma layers_to_bytes_length:
  assumes "packet_env env"
  shows "layers_to_bytes env layers = concat_bytes env layers \<and> returns (layers_to_bytes env layers) \<and>
    (case layers_to_bytes env layers of
       Ok bs \<Rightarrow> length_of_layers env layers =
         (if length bs \<le> usize_max (env_pf env) then Ok (length bs) else Err length_overflow)
     | _ \<Rightarrow> \<exists>e. length_of_layers env layers = Err e)"
  using packet_env.length_of_layers_cases [OF assms, of layers] packet_env.concat_bytes_returns [OF assms, of layers]
  by (auto simp: layers_to_bytes_eq split: outcome.splits)

end
