(* ===== verification/Finalize.thy ===== *)
theory Finalize
  imports Layers
begin

text \<open>
  \<open>LayerExt::finalize\<close> of the layers that depend on their neighbours: \<open>src/layer/ip/ipv4.rs\<close>,
  \<open>src/layer/ip/ipv6.rs\<close>, \<open>src/layer/udp/mod.rs\<close> and \<open>src/layer/tcp/mod.rs\<close>, and the dispatch of the
  boxed layer.
\<close>

section \<open>IPv4 and IPv6\<close>

definition Ipv4_finalize ::
    "'c env \<Rightarrow> Ipv4 \<Rightarrow> 'c LayerOwned list \<Rightarrow> 'c LayerOwned list \<Rightarrow> Ipv4 \<times> (LayerError, unit) outcome" where
  "Ipv4_finalize env self prev next =
     try_in self (layer_length env (LIpv4 self)) (\<lambda>len.
     try_in self (length_of_layers env next) (\<lambda>next_len.
     try_in self (ok_or (Finalize ''Overflow occured when calculating ipv4 length'')
         (checked_add_usize (env_pf env) len next_len)) (\<lambda>total.
     try_in self (ok_or (Finalize ''Could not convert layer length to u16'') (u16_try_from total)) (\<lambda>n.
     Ipv4_update_checksum (env_pf env) (env_dk env) (self\<lparr>ip4_length := n\<rparr>)))))"

definition Ipv6_finalize ::
    "'c env \<Rightarrow> Ipv6 \<Rightarrow> 'c LayerOwned list \<Rightarrow> 'c LayerOwned list \<Rightarrow> Ipv6 \<times> (LayerError, unit) outcome" where
  "Ipv6_finalize env self prev next =
     try_in self (length_of_layers env next) (\<lambda>len.
     try_in self (ok_or (Finalize ''Could not convert layer length to u16'') (u16_try_from len)) (\<lambda>n.
     (self\<lparr>ip6_length := n\<rparr>, Ok ())))"

section \<open>Pseudo headers\<close>

text \<open>The structs of \<open>src/layer/udp/mod.rs\<close>; those that TCP declares for itself are below, and have the same bytes.\<close>

record Ipv6PseudoHeader =
  ph6_src :: u128
  ph6_dst :: u128
  ph6_length :: u32
  ph6_zeros :: bytes
  ph6_next_header :: IpProtocol

definition Ipv6PseudoHeader_new :: "Ipv6 \<Rightarrow> u32 \<Rightarrow> Ipv6PseudoHeader" where
  "Ipv6PseudoHeader_new ipv6 len = \<lparr>ph6_src = ip6_src ipv6, ph6_dst = ip6_dst ipv6, ph6_length = len,
     ph6_zeros = replicate 3 0, ph6_next_header = ip6_next_header ipv6\<rparr>"

definition Ipv6PseudoHeader_write :: "deku \<Rightarrow> Ipv6PseudoHeader writer" where
  "Ipv6PseudoHeader_write D =
     wfield ph6_src (write_uint D 128) (
     wfield ph6_dst (write_uint D 128) (
     wfield ph6_length (write_uint D 32) (
     wfield ph6_zeros (write_list (write_uint D 8)) (
     wfield ph6_next_header (IpProtocol_write D) wdone))))"

record Ipv4PseudoHeader =
  ph4_src :: u32
  ph4_dst :: u32
  ph4_zeros :: u8
  ph4_protocol :: IpProtocol
  ph4_length :: u16

definition Ipv4PseudoHeader_new :: "Ipv4 \<Rightarrow> u16 \<Rightarrow> Ipv4PseudoHeader" where
  "Ipv4PseudoHeader_new ipv4 len = \<lparr>ph4_src = ip4_src ipv4, ph4_dst = ip4_dst ipv4, ph4_zeros = 0,
     ph4_protocol = ip4_protocol ipv4, ph4_length = len\<rparr>"

definition Ipv4PseudoHeader_write :: "deku \<Rightarrow> Ipv4PseudoHeader writer" where
  "Ipv4PseudoHeader_write D =
     wfield ph4_src (write_uint D 32) (
     wfield ph4_dst (write_uint D 32) (
     wfield ph4_zeros (write_uint D 8) (
     wfield ph4_protocol (IpProtocol_write D) (
     wfield ph4_length (write_uint D 16) wdone))))"

text \<open>
  The pseudo header for the layer before, if that is an IP layer; \<open>what\<close> is the name of the length in
  the error messages, \<open>udp_length\<close> in the code.
\<close>

definition ip_pseudo_header ::
    "string \<Rightarrow> 'c env \<Rightarrow> 'c LayerOwned \<Rightarrow> nat \<Rightarrow> (LayerError, bytes option) outcome" where
  "ip_pseudo_header what env prev_layer len = (case get_ipv4 prev_layer of
       Some ipv4 \<Rightarrow>
         obind (ok_or (Finalize (''Failed to convert '' @ what @ '' to u16'')) (u16_try_from len)) (\<lambda>n.
         omap Some (to_bytes_with (env_dk env) (Ipv4PseudoHeader_write (env_dk env)) (Ipv4PseudoHeader_new ipv4 n)))
     | None \<Rightarrow> (case get_ipv6 prev_layer of
         Some ipv6 \<Rightarrow>
           obind (ok_or (Finalize (''Failed to convert '' @ what @ '' to u32'')) (u32_try_from len)) (\<lambda>n.
           omap Some (to_bytes_with (env_dk env) (Ipv6PseudoHeader_write (env_dk env)) (Ipv6PseudoHeader_new ipv6 n)))
       | None \<Rightarrow> Ok None))"

section \<open>UDP\<close>

definition Udp_finalize ::
    "'c env \<Rightarrow> Udp \<Rightarrow> 'c LayerOwned list \<Rightarrow> 'c LayerOwned list \<Rightarrow> Udp \<times> (LayerError, unit) outcome" where
  "Udp_finalize env self prev next =
     try_in self (Udp_to_bytes (env_dk env) self) (\<lambda>data.
     try_in self (obind (set_byte data 6 0) (\<lambda>data. set_byte data 7 0)) (\<lambda>udp_header.
     try_in self (layers_to_bytes env next) (\<lambda>udp_payload.
     try_in self (ok_or (Finalize ''Overflow occured when calculating length for udp (v4) checksum'')
         (checked_add_usize (env_pf env) (length udp_header) (length udp_payload))) (\<lambda>len.
     try_in self (ok_or (Finalize (''Invalid Udp length '' @ show_nat len @ '' > '' @ show_nat 65535))
         (u16_try_from len)) (\<lambda>n.
     let self = self\<lparr>udp_length := n\<rparr> in
     if prev = [] then (self, Ok ())
     else try_in self (ip_pseudo_header ''udp_length'' env (last prev) len) (\<lambda>ph.
       (case ph of
          None \<Rightarrow> (self, Ok ())
        | Some data \<Rightarrow>
            try_in self (checksum (env_pf env) (data @ udp_header @ udp_payload)) (\<lambda>c.
            (self\<lparr>udp_checksum := c\<rparr>, Ok ())))))))))"

section \<open>TCP\<close>

record TcpIpv6PseudoHeader =
  tph6_src :: u128
  tph6_dst :: u128
  tph6_length :: u32
  tph6_zeros :: bytes
  tph6_next_header :: IpProtocol

definition TcpIpv6PseudoHeader_new :: "Ipv6 \<Rightarrow> u32 \<Rightarrow> TcpIpv6PseudoHeader" where
  "TcpIpv6PseudoHeader_new ipv6 tcp_length = \<lparr>tph6_src = ip6_src ipv6, tph6_dst = ip6_dst ipv6, tph6_length = tcp_length,
     tph6_zeros = replicate 3 0, tph6_next_header = ip6_next_header ipv6\<rparr>"

definition TcpIpv6PseudoHeader_write :: "deku \<Rightarrow> TcpIpv6PseudoHeader writer" where
  "TcpIpv6PseudoHeader_write D =
     wfield tph6_src (write_uint D 128) (
     wfield tph6_dst (write_uint D 128) (
     wfield tph6_length (write_uint D 32) (
     wfield tph6_zeros (write_list (write_uint D 8)) (
     wfield tph6_next_header (IpProtocol_write D) wdone))))"

record TcpIpv4PseudoHeader =
  tph4_src :: u32
  tph4_dst :: u32
  tph4_zeros :: u8
  tph4_protocol :: IpProtocol
  tph4_length :: u16

definition TcpIpv4PseudoHeader_new :: "Ipv4 \<Rightarrow> u16 \<Rightarrow> TcpIpv4PseudoHeader" where
  "TcpIpv4PseudoHeader_new ipv4 tcp_length = \<lparr>tph4_src = ip4_src ipv4, tph4_dst = ip4_dst ipv4, tph4_zeros = 0,
     tph4_protocol = ip4_protocol ipv4, tph4_length = tcp_length\<rparr>"

definition TcpIpv4PseudoHeader_write :: "deku \<Rightarrow> TcpIpv4PseudoHeader writer" where
  "TcpIpv4PseudoHeader_write D =
     wfield tph4_src (write_uint D 32) (
     wfield tph4_dst (write_uint D 32) (
     wfield tph4_zeros (write_uint D 8) (
     wfield tph4_protocol (IpProtocol_write D) (
     wfield tph4_length (write_uint D 16) wdone))))"

definition tcp_pseudo_header :: "'c env \<Rightarrow> 'c LayerOwned \<Rightarrow> nat \<Rightarrow> (LayerError, bytes option) outcome" where
  "tcp_pseudo_header env prev_layer tcp_length = (case get_ipv4 prev_layer of
       Some ipv4 \<Rightarrow>
         obind (ok_or (Finalize ''Failed to convert tcp_length to u16'') (u16_try_from tcp_length)) (\<lambda>n.
         omap Some (to_bytes_with (env_dk env) (TcpIpv4PseudoHeader_write (env_dk env)) (TcpIpv4PseudoHeader_new ipv4 n)))
     | None \<Rightarrow> (case get_ipv6 prev_layer of
         Some ipv6 \<Rightarrow>
           obind (ok_or (Finalize ''Failed to convert tcp_length to u32'') (u32_try_from tcp_length)) (\<lambda>n.
           omap Some (to_bytes_with (env_dk env) (TcpIpv6PseudoHeader_write (env_dk env)) (TcpIpv6PseudoHeader_new ipv6 n)))
       | None \<Rightarrow> Ok None))"

text \<open>The structs of TCP and of UDP have the same fields in the same order.\<close>

lemma to_bytes_with_cong: "w x = w' y \<Longrightarrow> to_bytes_with D w x = to_bytes_with D w' y"
  by (simp add: to_bytes_with_def container_to_bytes_def)

lemma tcp_pseudo_header_eq [simp]: "tcp_pseudo_header = ip_pseudo_header ''tcp_length''"
proof (intro ext)
  fix env :: "'c env" and l len
  have "to_bytes_with (env_dk env) (TcpIpv4PseudoHeader_write (env_dk env)) (TcpIpv4PseudoHeader_new v n)
      = to_bytes_with (env_dk env) (Ipv4PseudoHeader_write (env_dk env)) (Ipv4PseudoHeader_new v n)" for v n
    by (rule to_bytes_with_cong) (simp add: TcpIpv4PseudoHeader_write_def Ipv4PseudoHeader_write_def
        TcpIpv4PseudoHeader_new_def Ipv4PseudoHeader_new_def wfield_def wdone_def)
  moreover have "to_bytes_with (env_dk env) (TcpIpv6PseudoHeader_write (env_dk env)) (TcpIpv6PseudoHeader_new v n)
      = to_bytes_with (env_dk env) (Ipv6PseudoHeader_write (env_dk env)) (Ipv6PseudoHeader_new v n)" for v n
    by (rule to_bytes_with_cong) (simp add: TcpIpv6PseudoHeader_write_def Ipv6PseudoHeader_write_def
        TcpIpv6PseudoHeader_new_def Ipv6PseudoHeader_new_def wfield_def wdone_def)
  ultimately show "tcp_pseudo_header env l len = ip_pseudo_header ''tcp_length'' env l len"
    by (simp add: tcp_pseudo_header_def ip_pseudo_header_def split: option.split)
qed

text \<open>The block \<open>if let Some(prev_layer) = prev.last()\<close>.\<close>

definition Tcp_update_checksum ::
    "'c env \<Rightarrow> Tcp \<Rightarrow> 'c LayerOwned list \<Rightarrow> 'c LayerOwned list \<Rightarrow> bytes \<Rightarrow> Tcp \<times> (LayerError, unit) outcome" where
  "Tcp_update_checksum env self prev next tcp_header =
     (if prev = [] then (self, Ok ())
      else try_in self (layers_to_bytes env next) (\<lambda>tcp_payload.
        try_in self (ok_or (Finalize ''Overflow occured when calculating length for tcp (v4) checksum'')
            (checked_add_usize (env_pf env) (length tcp_header) (length tcp_payload))) (\<lambda>len.
        try_in self (tcp_pseudo_header env (last prev) len) (\<lambda>ph.
        (case ph of
           None \<Rightarrow> (self, Ok ())
         | Some data \<Rightarrow>
             try_in self (checksum (env_pf env) (data @ tcp_header @ tcp_payload)) (\<lambda>c.
             (self\<lparr>tcp_checksum := c\<rparr>, Ok ())))))))"

definition Tcp_finalize ::
    "'c env \<Rightarrow> Tcp \<Rightarrow> 'c LayerOwned list \<Rightarrow> 'c LayerOwned list \<Rightarrow> Tcp \<times> (LayerError, unit) outcome" where
  "Tcp_finalize env self prev next =
     try_in self (Tcp_to_bytes (env_dk env) self) (\<lambda>data.
     let pad_amt = 4 * ((length data + 3) div 4) - length data;
         self = self\<lparr>tcp_options := tcp_options self @ replicate pad_amt EOL\<rparr> in
     try_in self (Tcp_to_bytes (env_dk env) self) (\<lambda>data.
     try_in self (obind (set_byte data 16 0) (\<lambda>data. set_byte data 17 0)) (\<lambda>tcp_header.
     (case Tcp_update_checksum env self prev next tcp_header of (self, updated) \<Rightarrow>
     try_in self updated (\<lambda>_.
     try_in self (debug_assert (env_pf env) (length tcp_header mod 4 = 0)) (\<lambda>_.
     try_in self (ok_or (Finalize ''Failed to convert tcp offset to u8'') (u8_try_from (length tcp_header div 4))) (\<lambda>n.
     (self\<lparr>tcp_offset := n\<rparr>, Ok ()))))))))"

section \<open>Dispatch\<close>

fun layer_finalize ::
    "'c env \<Rightarrow> 'c LayerOwned \<Rightarrow> 'c LayerOwned list \<Rightarrow> 'c LayerOwned list \<Rightarrow>
      'c LayerOwned \<times> (LayerError, unit) outcome" where
  "layer_finalize env (LEther e) prev next = map_prod LEther id (Ether_finalize e prev next)"
| "layer_finalize env (LRaw r) prev next = map_prod LRaw id (Raw_finalize r prev next)"
| "layer_finalize env (LIpv4 v) prev next = map_prod LIpv4 id (Ipv4_finalize env v prev next)"
| "layer_finalize env (LIpv6 v) prev next = map_prod LIpv6 id (Ipv6_finalize env v prev next)"
| "layer_finalize env (LIcmp4 i) prev next =
     map_prod LIcmp4 id (Icmp4_finalize (env_pf env) (env_dk env) i prev next)"
| "layer_finalize env (LUdp u) prev next = map_prod LUdp id (Udp_finalize env u prev next)"
| "layer_finalize env (LTcp t) prev next = map_prod LTcp id (Tcp_finalize env t prev next)"
| "layer_finalize env (LCustom c) prev next = map_prod LCustom id (vt_finalize (env_vt env) c prev next)"

section \<open>Pseudo headers always serialise\<close>

context deku_laws
begin

lemma Ipv4PseudoHeader_Ok:
  "\<exists>ph. to_bytes_with D (Ipv4PseudoHeader_write D) x = Ok ph \<and> length ph = 12"
proof -
  have "wsize (Ipv4PseudoHeader_write D) (\<lambda>_. 32 + (32 + (8 + (8 + (16 + 0)))))"
    unfolding Ipv4PseudoHeader_write_def by (intro wsize_intros)
  moreover have "\<exists>b. Ipv4PseudoHeader_write D x = Ok b"
    by (simp add: Ipv4PseudoHeader_write_def wfield_def wdone_def IpProtocol_write_def write_uint_def write_fits)
  ultimately obtain b where b: "Ipv4PseudoHeader_write D x = Ok b" "length b = 96"
    unfolding wsize_def by auto
  with to_bytes_with_Ok [of "Ipv4PseudoHeader_write D", OF b(1)] length_pack [of b] show ?thesis by auto
qed

lemma Ipv6PseudoHeader_Ok:
  assumes "length (ph6_zeros x) = 3"
  shows "\<exists>ph. to_bytes_with D (Ipv6PseudoHeader_write D) x = Ok ph \<and> length ph = 40"
proof -
  have "wsize (Ipv6PseudoHeader_write D) (\<lambda>x. 128 + (128 + (32 + (sum_list (map (\<lambda>_. 8) (ph6_zeros x)) + (8 + 0)))))"
    unfolding Ipv6PseudoHeader_write_def by (intro wsize_intros)
  moreover have "\<exists>b. Ipv6PseudoHeader_write D x = Ok b"
    by (simp add: Ipv6PseudoHeader_write_def wfield_def wdone_def IpProtocol_write_def write_uint_def write_fits
        write_bytes)
  ultimately obtain b where b: "Ipv6PseudoHeader_write D x = Ok b" "length b = 320"
    using assms unfolding wsize_def by (auto simp: sum_list_triv)
  with to_bytes_with_Ok [of "Ipv6PseudoHeader_write D", OF b(1)] length_pack [of b] show ?thesis by auto
qed

end

text \<open>Is the layer before an IP layer?\<close>

definition over_ip :: "'c LayerOwned list \<Rightarrow> bool" where
  "over_ip prev \<longleftrightarrow> prev \<noteq> [] \<and> (get_ipv4 (last prev) \<noteq> None \<or> get_ipv6 (last prev) \<noteq> None)"

context packet_env
begin

lemma ip_pseudo_header_Ok:
  assumes "len \<le> 65535"
  shows "(if over_ip [l] then \<exists>ph. ip_pseudo_header what env l len = Ok (Some ph) \<and> even (length ph) \<and> length ph \<le> 40
     else ip_pseudo_header what env l len = Ok None)"
proof -
  have u16: "u16_try_from len = Some (word_of_nat len)" and u32: "u32_try_from len = Some (word_of_nat len)"
    using assms by (simp_all add: u16_try_from_def u32_try_from_def)
  show ?thesis
  proof (cases "get_ipv4 l")
    case (Some ipv4)
    with deku.Ipv4PseudoHeader_Ok [of "Ipv4PseudoHeader_new ipv4 (word_of_nat len)"] u16 show ?thesis
      by (auto simp: ip_pseudo_header_def over_ip_def)
  next
    case None
    show ?thesis
    proof (cases "get_ipv6 l")
      case (Some ipv6)
      with None u32 deku.Ipv6PseudoHeader_Ok [of "Ipv6PseudoHeader_new ipv6 (word_of_nat len)"] show ?thesis
        by (auto simp: ip_pseudo_header_def over_ip_def Ipv6PseudoHeader_new_def)
    qed (use None in \<open>simp add: ip_pseudo_header_def over_ip_def\<close>)
  qed
qed

end

section \<open>IPv4 and IPv6 lengths\<close>

context deku_laws
begin

lemma Ipv4_hole_length: "u16_hole ip4_length (\<lambda>n v. v\<lparr>ip4_length := n\<rparr>) (Ipv4_write D) (8 * 2)"
proof -
  have "u16_hole ip4_length (\<lambda>n v. v\<lparr>ip4_length := n\<rparr>) (Ipv4_write D) (4 + (4 + (6 + (2 + 0))))"
    unfolding Ipv4_write_def
    by (intro u16_hole_skip wsize_intros u16_hole_here) (simp_all add: wfield_def wdone_def)
  then show ?thesis by simp
qed

lemma Ipv4_to_bytes_set_length:
  assumes "Ipv4_to_bytes D v = Ok hdr"
  shows "\<exists>hdr'. Ipv4_to_bytes D (v\<lparr>ip4_length := n\<rparr>) = Ok hdr' \<and> length hdr' = length hdr"
proof -
  from to_bytes_hole [OF Ipv4_hole_length wsize_Ipv4 Ipv4_bits_dvd] assms obtain pre post
    where "hdr = pre @ u16_to_be_bytes (ip4_length v) @ post"
      and "Ipv4_to_bytes D (v\<lparr>ip4_length := n\<rparr>) = Ok (pre @ u16_to_be_bytes n @ post)"
    unfolding Ipv4_to_bytes_def by blast
  then show ?thesis by simp
qed

end

context packet_env
begin

lemma length_of_layers_cases':
  obtains (ok) payload where "layers_to_bytes env ls = Ok payload" "length payload \<le> usize_max (env_pf env)"
      "length_of_layers env ls = Ok (length payload)"
  | (big) payload where "layers_to_bytes env ls = Ok payload" "usize_max (env_pf env) < length payload"
      "length_of_layers env ls = Err length_overflow"
  | (err) e e' where "layers_to_bytes env ls = Err e" "length_of_layers env ls = Err e'"
  using length_of_layers_cases [of ls] concat_bytes_returns [of ls]
  by (cases "concat_bytes env ls") (auto simp: layers_to_bytes_eq split: if_splits)

lemma Ipv4_finalize_run:
  assumes "Ipv4_to_bytes (env_dk env) v = Ok hdr" and "layers_to_bytes env next = Ok payload"
    and "length hdr + length payload \<le> 65535"
  shows "Ipv4_finalize env v prev next = Ipv4_update_checksum (env_pf env) (env_dk env)
    (v\<lparr>ip4_length := word_of_nat (length hdr + length payload)\<rparr>)"
proof -
  have "length_of_layers env next = Ok (length payload)"
    using assms(2,3) usize_16 by (cases rule: length_of_layers_cases' [of "next"]) auto
  moreover have "layer_length env (LIpv4 v) = Ok (length hdr)"
    using assms(1) by (simp add: layer_length_eq)
  ultimately show ?thesis
    using assms(3) usize_16 by (simp add: Ipv4_finalize_def checked_add_usize_def u16_try_from_def)
qed

lemma Ipv4_finalize_spec:
  "case Ipv4_to_bytes (env_dk env) v of
     Ok hdr \<Rightarrow> (case layers_to_bytes env next of
        Ok payload \<Rightarrow>
          if length hdr + length payload \<le> 65535
          then \<exists>c hdr'. Ipv4_finalize env v prev next =
              (v\<lparr>ip4_length := word_of_nat (length hdr + length payload), ip4_checksum := c\<rparr>, Ok ()) \<and>
            Ipv4_to_bytes (env_dk env)
              (v\<lparr>ip4_length := word_of_nat (length hdr + length payload), ip4_checksum := c\<rparr>) = Ok hdr' \<and>
            length hdr' = length hdr \<and> checksum (env_pf env) hdr' = (Ok 0 :: (LayerError, u16) outcome)
          else \<exists>msg. Ipv4_finalize env v prev next = (v, Err (Finalize msg))
      | _ \<Rightarrow> \<exists>e. Ipv4_finalize env v prev next = (v, Err e))
   | Err e \<Rightarrow> Ipv4_finalize env v prev next = (v, Err e)
   | _ \<Rightarrow> False"
proof (cases "Ipv4_to_bytes (env_dk env) v")
  case (Ok hdr)
  let ?len = "layer_length env (LIpv4 v)"
  have len: "?len = Ok (length hdr)"
    using Ok by (simp add: layer_length_eq)
  show ?thesis
  proof (cases rule: length_of_layers_cases' [of "next"])
    case (ok payload)
    show ?thesis
    proof (cases "length hdr + length payload \<le> 65535")
      case True
      let ?v = "v\<lparr>ip4_length := word_of_nat (length hdr + length payload)\<rparr>"
      note run = Ipv4_finalize_run [OF Ok ok(1) True, of prev]
      obtain hdr1 where hdr1: "Ipv4_to_bytes (env_dk env) ?v = Ok hdr1" "length hdr1 = length hdr"
        using deku.Ipv4_to_bytes_set_length [OF Ok] by blast
      then have "Ipv4_bits ?v \<le> 8 * 131074"
        using deku.Ipv4_to_bytes_length [OF hdr1(1)] True by simp
      from deku.Ipv4_update_checksum_valid [OF this, of "env_pf env"] hdr1 run ok(1) Ok True
      show ?thesis by (auto simp del: of_nat_add)
    next
      case False
      then show ?thesis
        using len ok Ok by (auto simp: Ipv4_finalize_def checked_add_usize_def u16_try_from_def)
    qed
  next
    case (big payload)
    then have "\<not> length hdr + length payload \<le> 65535"
      using usize_16 by linarith
    then show ?thesis
      using big len Ok by (simp add: Ipv4_finalize_def length_overflow_def)
  next
    case (err e e')
    then show ?thesis
      using len Ok by (simp add: Ipv4_finalize_def)
  qed
qed (use to_bytes_returns [of "LIpv4 v"] in \<open>simp_all add: Ipv4_finalize_def layer_length_eq\<close>)

lemma Ipv6_finalize_spec:
  "case layers_to_bytes env next of
     Ok payload \<Rightarrow> if length payload \<le> 65535
       then Ipv6_finalize env v prev next = (v\<lparr>ip6_length := word_of_nat (length payload)\<rparr>, Ok ())
       else \<exists>msg. Ipv6_finalize env v prev next = (v, Err (Finalize msg))
   | _ \<Rightarrow> \<exists>e. Ipv6_finalize env v prev next = (v, Err e)"
proof (cases rule: length_of_layers_cases' [of "next"])
  case (ok payload)
  then show ?thesis by (simp add: Ipv6_finalize_def u16_try_from_def)
next
  case (big payload)
  then have "\<not> length payload \<le> 65535"
    using usize_16 by linarith
  then show ?thesis
    using big by (simp add: Ipv6_finalize_def length_overflow_def)
next
  case (err e e')
  then show ?thesis by (simp add: Ipv6_finalize_def)
qed

end

section \<open>Sums of messages\<close>

lemma u16_to_be_bytes_0: "u16_to_be_bytes 0 = [0, 0]"
  by (simp add: u16_to_be_bytes_def)

text \<open>Sums that agree up to two 16-bit words are both multiples of 65535 when the words agree.\<close>

lemma mod_cancel_nat:
  fixes x a b m :: nat
  assumes "(x + a) mod m = b mod m"
  shows "x mod m = 0 \<longleftrightarrow> a mod m = b mod m"
proof
  assume "x mod m = 0"
  then show "a mod m = b mod m"
    using assms by (metis add_cancel_left_left mod_add_left_eq)
next
  assume "a mod m = b mod m"
  with assms have "(x + a) mod m = a mod m" by simp
  then have "m dvd x + a - a"
    by (subst mod_eq_dvd_iff_nat [symmetric]) simp_all
  then show "x mod m = 0" by simp
qed

section \<open>Properties\<close>

text \<open>
  (C5) Finalising an IPv4 header whose packet serialises and fits 65535 bytes sets the total length to
  the length of header and payload and the checksum to a value with which the header verifies, and
  changes nothing else.  A longer packet, or one that does not serialise, is an error that leaves the
  header as it was; finalising never panics.
\<close>

theorem Ipv4_finalize_correct:
  assumes "packet_env env"
  shows "case Ipv4_to_bytes (env_dk env) v of
     Ok hdr \<Rightarrow> (case layers_to_bytes env next of
        Ok payload \<Rightarrow>
          if length hdr + length payload \<le> 65535
          then \<exists>c hdr'. Ipv4_finalize env v prev next =
              (v\<lparr>ip4_length := word_of_nat (length hdr + length payload), ip4_checksum := c\<rparr>, Ok ()) \<and>
            Ipv4_to_bytes (env_dk env)
              (v\<lparr>ip4_length := word_of_nat (length hdr + length payload), ip4_checksum := c\<rparr>) = Ok hdr' \<and>
            length hdr' = length hdr \<and> checksum (env_pf env) hdr' = (Ok 0 :: (LayerError, u16) outcome)
          else \<exists>msg. Ipv4_finalize env v prev next = (v, Err (Finalize msg))
      | _ \<Rightarrow> \<exists>e. Ipv4_finalize env v prev next = (v, Err e))
   | Err e \<Rightarrow> Ipv4_finalize env v prev next = (v, Err e)
   | _ \<Rightarrow> False"
  by (rule packet_env.Ipv4_finalize_spec [OF assms])

theorem Ipv4_finalize_correct_witness:
  "packet_env dev_env \<and> (\<exists>hdr c. Ipv4_to_bytes ref_deku Ipv4_sample = Ok hdr \<and> length hdr = 24 \<and>
     Ipv4_finalize dev_env Ipv4_sample [] [LUdp Udp_default] =
       (Ipv4_sample\<lparr>ip4_length := 32, ip4_checksum := c\<rparr>, Ok ()))"
proof -
  have wf: "Ipv4_wf Ipv4_sample"
    by (simp add: Ipv4_wf_def Ipv4_parsed_def Ipv4_sample_def Ipv4_default_def IpProtocol_default_def
        IpProtocol_wf_def Ipv4Option_wf_def Ipv4Option_bits_def)
  from layer_codec.reparse [OF ref.ipv4_codec wf] obtain hdr where hdr: "Ipv4_to_bytes ref_deku Ipv4_sample = Ok hdr"
    by blast
  moreover have "8 * length hdr = 192"
    using ref.Ipv4_to_bytes_length [OF hdr] by (simp add: Ipv4_bits_def Ipv4_sample_def Ipv4Option_bits_def)
  moreover have "layers_to_bytes dev_env [LUdp Udp_default] = Ok (Udp_bytes Udp_default)"
    by (simp add: layers_to_bytes_def ref.Udp_to_bytes_eq)
  ultimately show ?thesis
    using Ipv4_finalize_correct [OF dev_packets.packet_env_axioms, of Ipv4_sample "[]" "[LUdp Udp_default]"]
      dev_packets.packet_env_axioms by auto
qed

text \<open>
  (C37) Finalising an IPv6 header sets the payload length to the number of bytes of the layers that
  follow and changes nothing else; more than 65535 bytes, or layers that do not serialise, are an
  error that leaves the header as it was.
\<close>

theorem Ipv6_finalize_correct:
  assumes "packet_env env"
  shows "case layers_to_bytes env next of
     Ok payload \<Rightarrow> if length payload \<le> 65535
       then Ipv6_finalize env v prev next = (v\<lparr>ip6_length := word_of_nat (length payload)\<rparr>, Ok ())
       else \<exists>msg. Ipv6_finalize env v prev next = (v, Err (Finalize msg))
   | _ \<Rightarrow> \<exists>e. Ipv6_finalize env v prev next = (v, Err e)"
  by (rule packet_env.Ipv6_finalize_spec [OF assms])

theorem Ipv6_finalize_correct_witness:
  "packet_env dev_env \<and>
   Ipv6_finalize dev_env Ipv6_default [] [LUdp Udp_default] = (Ipv6_default\<lparr>ip6_length := 8\<rparr>, Ok ())"
proof -
  have "layers_to_bytes dev_env [LUdp Udp_default] = Ok (Udp_bytes Udp_default)"
    by (simp add: layers_to_bytes_def ref.Udp_to_bytes_eq)
  then show ?thesis
    using Ipv6_finalize_correct [OF dev_packets.packet_env_axioms, of Ipv6_default "[]" "[LUdp Udp_default]"]
      dev_packets.packet_env_axioms by simp
qed

end
