(* ===== verification/Udp_Finalize.thy ===== *)
theory Udp_Finalize
  imports Finalize
begin

text \<open>
  What \<open>Udp::finalize\<close> achieves.  The header bytes that go into the checksum are taken before the
  length field is updated, so the checksum is right exactly when the length already was; finalising a
  second time repairs it.
\<close>

section \<open>The datagram\<close>

lemma Udp_bytes_cleared:
  "obind (set_byte (Udp_bytes u) 6 0) (\<lambda>data. set_byte data 7 0)
     = (Ok (Udp_bytes (u\<lparr>udp_checksum := 0\<rparr>)) :: (LayerError, bytes) outcome)"
proof -
  let ?pre = "u16_to_be_bytes (udp_sport u) @ u16_to_be_bytes (udp_dport u) @ u16_to_be_bytes (udp_length u)"
  have "length ?pre = 6" by simp
  from clear_checksum [OF this, of 7 "udp_checksum u" "[]"] show ?thesis
    by (simp add: Udp_bytes_def u16_to_be_bytes_0)
qed

lemma be_sum_Udp_bytes:
  "be_sum (Udp_bytes u) = unat (udp_sport u) + unat (udp_dport u) + unat (udp_length u) + unat (udp_checksum u)"
  by (simp add: Udp_bytes_def be_sum_append be_sum_u16_to_be_bytes)

text \<open>What is checksummed: pseudo header, datagram header and payload.\<close>

definition udp_message :: "bytes \<Rightarrow> Udp \<Rightarrow> bytes \<Rightarrow> bytes" where
  "udp_message ph u payload = ph @ Udp_bytes u @ payload"

lemma be_sum_udp_message:
  assumes "even (length ph)"
  shows "be_sum (udp_message ph u payload) = be_sum ph + unat (udp_sport u) + unat (udp_dport u) +
    unat (udp_length u) + unat (udp_checksum u) + be_sum payload"
  using assms by (simp add: udp_message_def be_sum_append be_sum_Udp_bytes)

lemma mod_65535_eq_iff:
  assumes "a \<le> 65535" and "b \<le> 65535" and "0 < b"
  shows "a mod 65535 = b mod (65535 :: nat) \<longleftrightarrow> a = b \<or> a = 0 \<and> b = 65535"
  using assms by (cases "a = 65535"; cases "b = 65535") auto

text \<open>The checksum stored by \<open>finalize\<close> covers the length that was there before.\<close>

lemma udp_stale_verifies_iff:
  fixes u :: Udp
  assumes ph: "even (length ph)" and small: "length ph + 8 + length payload \<le> 131074" and n: "0 < unat n"
  defines "c \<equiv> rfc1071 (udp_message ph (u\<lparr>udp_checksum := 0\<rparr>) payload)"
  shows "checksum pf (udp_message ph (u\<lparr>udp_length := n, udp_checksum := c\<rparr>) payload) = (Ok 0 :: (LayerError, u16) outcome) \<longleftrightarrow>
    udp_length u = n \<or> udp_length u = 0 \<and> n = 65535"
proof -
  let ?x = "be_sum (udp_message ph (u\<lparr>udp_length := n, udp_checksum := c\<rparr>) payload)"
  let ?y = "be_sum (udp_message ph (u\<lparr>udp_checksum := 0\<rparr>) payload)"
  have x: "?x + unat (udp_length u) = ?y + unat c + unat n"
    using ph by (simp add: be_sum_udp_message)
  have le: "unat (udp_length u) \<le> 65535" "unat n \<le> 65535"
    using unat_less_width(2) [of "udp_length u"] unat_less_width(2) [of n] by linarith+
  have "(?y + unat c) mod 65535 = 0"
    unfolding c_def by (rule rfc1071_completes)
  then have "(?x + unat (udp_length u)) mod 65535 = unat n mod 65535"
    unfolding x by (metis add_cancel_left_left mod_add_left_eq)
  then have "?x mod 65535 = 0 \<longleftrightarrow> unat (udp_length u) mod 65535 = unat n mod 65535"
    by (rule mod_cancel_nat)
  also have "\<dots> \<longleftrightarrow> unat (udp_length u) = unat n \<or> unat (udp_length u) = 0 \<and> unat n = 65535"
    using le n by (rule mod_65535_eq_iff)
  finally have "?x mod 65535 = 0 \<longleftrightarrow> udp_length u = n \<or> udp_length u = 0 \<and> n = 65535"
    by (simp add: word_unat_eq_iff)
  moreover have "?x \<noteq> 0"
    using ph n by (simp add: be_sum_udp_message)
  ultimately show ?thesis
    using small by (subst checksum_zero_iff) (simp_all add: udp_message_def)
qed

context packet_env
begin

lemma Udp_finalize_payload:
  assumes "layers_to_bytes env next = Ok payload" and "8 + length payload \<le> 65535"
  shows "if over_ip prev
    then \<exists>ph. ip_pseudo_header ''udp_length'' env (last prev) (8 + length payload) = Ok (Some ph) \<and>
      even (length ph) \<and> length ph \<le> 40 \<and>
      Udp_finalize env u prev next = (u\<lparr>udp_length := word_of_nat (8 + length payload),
        udp_checksum := rfc1071 (udp_message ph (u\<lparr>udp_checksum := 0\<rparr>) payload)\<rparr>, Ok ())
    else Udp_finalize env u prev next = (u\<lparr>udp_length := word_of_nat (8 + length payload)\<rparr>, Ok ())"
proof -
  let ?n = "word_of_nat (8 + length payload) :: u16"
  have n: "u16_try_from (8 + length payload) = Some ?n"
    using assms(2) by (simp add: u16_try_from_def)
  have add: "checked_add_usize (env_pf env) 8 (length payload) = Some (8 + length payload)"
    using assms(2) usize_16 by (simp add: checked_add_usize_def)
  have run: "Udp_finalize env u prev next = (let self = u\<lparr>udp_length := ?n\<rparr> in
     if prev = [] then (self, Ok ())
     else try_in self (ip_pseudo_header ''udp_length'' env (last prev) (8 + length payload)) (\<lambda>ph.
       (case ph of None \<Rightarrow> (self, Ok ()) | Some data \<Rightarrow>
            try_in self (checksum (env_pf env) (udp_message data (u\<lparr>udp_checksum := 0\<rparr>) payload)) (\<lambda>c.
            (self\<lparr>udp_checksum := c\<rparr>, Ok ())))))"
    by (simp only: Udp_finalize_def deku.Udp_to_bytes_eq Udp_bytes_cleared assms(1) try_in.simps
        length_Udp_bytes add n ok_or.simps udp_message_def)
  show ?thesis
  proof (cases "over_ip prev")
    case True
    then have "prev \<noteq> []" and "over_ip [last prev]"
      by (simp_all add: over_ip_def)
    with ip_pseudo_header_Ok [OF assms(2), of "last prev" "''udp_length''"] obtain ph
      where ph: "ip_pseudo_header ''udp_length'' env (last prev) (8 + length payload) = Ok (Some ph)"
        "even (length ph)" "length ph \<le> 40" by auto
    have "checksum (env_pf env) (udp_message ph (u\<lparr>udp_checksum := 0\<rparr>) payload)
        = (Ok (rfc1071 (udp_message ph (u\<lparr>udp_checksum := 0\<rparr>) payload)) :: (LayerError, u16) outcome)"
      using assms(2) ph(3) by (intro checksum_rfc) (simp add: udp_message_def)
    with True \<open>prev \<noteq> []\<close> ph show ?thesis
      unfolding run by simp
  next
    case False
    then show ?thesis
      using ip_pseudo_header_Ok [OF assms(2), of "last prev" "''udp_length''"]
      unfolding run by (auto simp: over_ip_def Let_def)
  qed
qed

lemma Udp_finalize_fails:
  "(\<forall>e. layers_to_bytes env next = Err e \<longrightarrow> Udp_finalize env u prev next = (u, Err e)) \<and>
   (\<forall>payload. layers_to_bytes env next = Ok payload \<longrightarrow> 65535 < 8 + length payload \<longrightarrow>
      (\<exists>msg. Udp_finalize env u prev next = (u, Err (Finalize msg))))"
  by (auto simp: Udp_finalize_def deku.Udp_to_bytes_eq Udp_bytes_cleared checked_add_usize_def u16_try_from_def)

end

text \<open>A header whose length is right is finalised to one that verifies, and stays as it is.\<close>

context packet_env
begin

lemma Udp_finalize_settled:
  assumes payload: "layers_to_bytes env next = Ok payload" "8 + length payload \<le> 65535" and ip: "over_ip prev"
    and len: "udp_length u = word_of_nat (8 + length payload)"
  shows "\<exists>ph c. ip_pseudo_header ''udp_length'' env (last prev) (8 + length payload) = Ok (Some ph) \<and>
    Udp_finalize env u prev next = (u\<lparr>udp_checksum := c\<rparr>, Ok ()) \<and>
    Udp_finalize env (u\<lparr>udp_checksum := c\<rparr>) prev next = (u\<lparr>udp_checksum := c\<rparr>, Ok ()) \<and>
    checksum (env_pf env) (udp_message ph (u\<lparr>udp_checksum := c\<rparr>) payload) = (Ok 0 :: (LayerError, u16) outcome)"
proof -
  let ?n = "word_of_nat (8 + length payload) :: u16"
  from Udp_finalize_payload [OF payload, of prev u] ip obtain ph where
      ph: "ip_pseudo_header ''udp_length'' env (last prev) (8 + length payload) = Ok (Some ph)"
        "even (length ph)" "length ph \<le> 40"
      and run: "Udp_finalize env u prev next = (u\<lparr>udp_length := ?n,
        udp_checksum := rfc1071 (udp_message ph (u\<lparr>udp_checksum := 0\<rparr>) payload)\<rparr>, Ok ())"
    by auto
  let ?c = "rfc1071 (udp_message ph (u\<lparr>udp_checksum := 0\<rparr>) payload)"
  have same: "u\<lparr>udp_length := ?n\<rparr> = u"
    using len by simp
  have "unat ?n = 8 + length payload"
    using payload(2) by (intro unat_word_of_nat_small [where n = 16]) simp_all
  then have n: "0 < unat ?n" by linarith
  have "length ph + 8 + length payload \<le> 131074"
    using payload(2) ph(3) by simp
  from udp_stale_verifies_iff [OF ph(2) this n, of "env_pf env" u, unfolded same] len
  have "checksum (env_pf env) (udp_message ph (u\<lparr>udp_checksum := ?c\<rparr>) payload) = (Ok 0 :: (LayerError, u16) outcome)"
    by simp
  moreover have "Udp_finalize env u prev next = (u\<lparr>udp_checksum := ?c\<rparr>, Ok ())"
    using run same by simp
  moreover have "Udp_finalize env (u\<lparr>udp_checksum := ?c\<rparr>) prev next = (u\<lparr>udp_checksum := ?c\<rparr>, Ok ())"
    using Udp_finalize_payload [OF payload, of prev "u\<lparr>udp_checksum := ?c\<rparr>"] ip ph(1) len by auto
  ultimately show ?thesis
    using ph(1) by blast
qed

end

section \<open>Properties\<close>

text \<open>
  (C6) Finalising a UDP header, on every branch.  When the layers that follow serialise to a payload
  that fits, the length becomes 8 plus the payload's length; over an IP layer the checksum becomes the
  RFC 1071 checksum of pseudo header, header with the length it had \<^emph>\<open>before\<close> and a zero checksum, and
  payload; otherwise the checksum stays.  Nothing else changes.  A payload that is too long or does not
  serialise is an error that leaves the header as it was; finalising never panics.
\<close>

theorem Udp_finalize_correct:
  assumes "packet_env env"
  shows "case layers_to_bytes env next of
     Ok payload \<Rightarrow>
       if 8 + length payload \<le> 65535
       then if over_ip prev
         then \<exists>ph. ip_pseudo_header ''udp_length'' env (last prev) (8 + length payload) = Ok (Some ph) \<and>
           Udp_finalize env u prev next = (u\<lparr>udp_length := word_of_nat (8 + length payload),
             udp_checksum := rfc1071 (ph @ Udp_bytes (u\<lparr>udp_checksum := 0\<rparr>) @ payload)\<rparr>, Ok ())
         else Udp_finalize env u prev next = (u\<lparr>udp_length := word_of_nat (8 + length payload)\<rparr>, Ok ())
       else \<exists>msg. Udp_finalize env u prev next = (u, Err (Finalize msg))
   | Err e \<Rightarrow> Udp_finalize env u prev next = (u, Err e)
   | _ \<Rightarrow> False"
proof (cases "layers_to_bytes env next")
  case (Ok payload)
  show ?thesis
  proof (cases "8 + length payload \<le> 65535")
    case True
    from packet_env.Udp_finalize_payload [OF assms Ok True, of prev u] show ?thesis
      using Ok True by (cases "over_ip prev") (auto simp: udp_message_def)
  next
    case False
    then have "65535 < 8 + length payload" by simp
    then obtain msg where "Udp_finalize env u prev next = (u, Err (Finalize msg))"
      using packet_env.Udp_finalize_fails [OF assms, of "next" u prev] Ok by blast
    with Ok False show ?thesis by simp
  qed
next
  case (Err e)
  with packet_env.Udp_finalize_fails [OF assms, of "next" u prev] show ?thesis by simp
qed (use packet_env.concat_bytes_returns [OF assms, of "next"] in \<open>simp_all add: layers_to_bytes_eq\<close>)

theorem Udp_finalize_correct_witness:
  "packet_env dev_env \<and> (\<exists>c. Udp_finalize dev_env Udp_default [LIpv4 Ipv4_default] [LRaw \<lparr>raw_data = [1, 2], raw_bit_offset = 0\<rparr>]
     = (Udp_default\<lparr>udp_length := 10, udp_checksum := c\<rparr>, Ok ()))"
proof -
  have "layers_to_bytes dev_env [LRaw \<lparr>raw_data = [1, 2], raw_bit_offset = 0\<rparr>] = Ok [1, 2]"
    by (simp add: layers_to_bytes_def ref.Raw_to_bytes_eq)
  moreover have "over_ip [LIpv4 Ipv4_default :: unit LayerOwned]"
    by (simp add: over_ip_def)
  ultimately show ?thesis
    using Udp_finalize_correct [OF dev_packets.packet_env_axioms,
        of "[LIpv4 Ipv4_default]" Udp_default "[LRaw \<lparr>raw_data = [1, 2], raw_bit_offset = 0\<rparr>]"]
      dev_packets.packet_env_axioms by auto
qed

text \<open>
  (C30) After one \<open>finalize\<close> over an IP layer the datagram verifies if and only if its length field was
  already right (or the two values are 0 and 65535, the two zeros of one's complement): the checksum
  is computed over the header serialised before the length is updated.
\<close>

theorem Udp_finalize_stale_length:
  assumes "packet_env env" and "layers_to_bytes env next = Ok payload" and "8 + length payload \<le> 65535"
    and "over_ip prev"
  shows "\<exists>ph u'. ip_pseudo_header ''udp_length'' env (last prev) (8 + length payload) = Ok (Some ph) \<and>
    Udp_finalize env u prev next = (u', Ok ()) \<and>
    (checksum (env_pf env) (ph @ Udp_bytes u' @ payload) = (Ok 0 :: (LayerError, u16) outcome) \<longleftrightarrow>
      udp_length u = udp_length u' \<or> udp_length u = 0 \<and> udp_length u' = 65535)"
proof -
  let ?n = "word_of_nat (8 + length payload) :: u16"
  from packet_env.Udp_finalize_payload [OF assms(1-3), of prev u] assms(4) obtain ph where
      ph: "ip_pseudo_header ''udp_length'' env (last prev) (8 + length payload) = Ok (Some ph)"
        "even (length ph)" "length ph \<le> 40"
      and run: "Udp_finalize env u prev next = (u\<lparr>udp_length := ?n,
        udp_checksum := rfc1071 (udp_message ph (u\<lparr>udp_checksum := 0\<rparr>) payload)\<rparr>, Ok ())"
    by auto
  have "unat ?n = 8 + length payload"
    using assms(3) by (intro unat_word_of_nat_small [where n = 16]) simp_all
  then have n: "0 < unat ?n" by linarith
  have "length ph + 8 + length payload \<le> 131074"
    using assms(3) ph(3) by simp
  from udp_stale_verifies_iff [OF ph(2) this n, of "env_pf env" u] ph(1) run show ?thesis
    by (intro exI [where x = ph] exI) (auto simp: udp_message_def)
qed

definition udp_example_next :: "unit LayerOwned list" where
  "udp_example_next = [LRaw \<lparr>raw_data = [1, 2], raw_bit_offset = 0\<rparr>]"

definition udp_example_prev :: "unit LayerOwned list" where
  "udp_example_prev = [LIpv4 Ipv4_default]"

lemma udp_example:
  "layers_to_bytes dev_env udp_example_next = Ok [1, 2]" "8 + length [1 :: u8, 2] \<le> 65535" "over_ip udp_example_prev"
  by (simp_all add: udp_example_next_def udp_example_prev_def layers_to_bytes_def ref.Raw_to_bytes_eq over_ip_def)

theorem Udp_finalize_stale_length_witness:
  "packet_env dev_env \<and> layers_to_bytes dev_env udp_example_next = Ok [1, 2] \<and> over_ip udp_example_prev \<and>
   (\<exists>ph u'. Udp_finalize dev_env Udp_default udp_example_prev udp_example_next = (u', Ok ()) \<and>
     (checksum dev_profile (ph @ Udp_bytes u' @ [1, 2]) = (Ok 0 :: (LayerError, u16) outcome) \<longleftrightarrow>
       udp_length Udp_default = udp_length u' \<or> udp_length Udp_default = 0 \<and> udp_length u' = 65535))"
  using Udp_finalize_stale_length [OF dev_packets.packet_env_axioms udp_example, of Udp_default]
    dev_packets.packet_env_axioms udp_example unfolding dev_env_simps by blast

text \<open>
  Finalising twice over an IP layer gives a datagram that verifies, and every further
  \<open>finalize\<close> leaves it unchanged.
\<close>

lemma Udp_finalize_twice_verifies:
  assumes "packet_env env" and "layers_to_bytes env next = Ok payload" and "8 + length payload \<le> 65535"
    and "over_ip prev"
  shows "\<exists>ph u' u''. ip_pseudo_header ''udp_length'' env (last prev) (8 + length payload) = Ok (Some ph) \<and>
    Udp_finalize env u prev next = (u', Ok ()) \<and> Udp_finalize env u' prev next = (u'', Ok ()) \<and>
    Udp_finalize env u'' prev next = (u'', Ok ()) \<and>
    checksum (env_pf env) (ph @ Udp_bytes u'' @ payload) = (Ok 0 :: (LayerError, u16) outcome)"
proof -
  obtain u' where u': "Udp_finalize env u prev next = (u', Ok ())" "udp_length u' = word_of_nat (8 + length payload)"
    using packet_env.Udp_finalize_payload [OF assms(1-3), of prev u] assms(4) by auto
  from packet_env.Udp_finalize_settled [OF assms(1-4) u'(2)] u'(1) show ?thesis
    unfolding udp_message_def by blast
qed

text \<open>
  (C15) A UDP checksum of zero means that there is none: RFC 768 has a sum that comes out as zero sent as 0xffff, and
  over IPv6 a receiver drops a datagram without a checksum.  Over an IP layer, \<open>finalize\<close> of a header with the right
  length never stores 0xffff, and for all addresses, destination ports and payloads there is a source port with
  which it stores zero.
\<close>

theorem Udp_finalize_zero_checksum:
  assumes env: "packet_env env" and payload: "layers_to_bytes env next = Ok payload" "8 + length payload \<le> 65535"
    and ip: "over_ip prev" and len: "udp_length u = word_of_nat (8 + length payload)"
  shows "(\<exists>c. Udp_finalize env u prev next = (u\<lparr>udp_checksum := c\<rparr>, Ok ()) \<and> c \<noteq> 0xffff) \<and>
    (\<exists>sport. Udp_finalize env (u\<lparr>udp_sport := sport\<rparr>) prev next
      = (u\<lparr>udp_sport := sport, udp_checksum := 0\<rparr>, Ok ()))"
proof -
  obtain ph where ph: "even (length ph)" and run: "Udp_finalize env (u\<lparr>udp_sport := s\<rparr>) prev next
      = (u\<lparr>udp_sport := s, udp_checksum := rfc1071 (udp_message ph (u\<lparr>udp_sport := s, udp_checksum := 0\<rparr>) payload)\<rparr>, Ok ())"
    for s
  proof -
    from packet_env.Udp_finalize_payload [OF env payload, of prev] ip obtain ph where
        ph: "ip_pseudo_header ''udp_length'' env (last prev) (8 + length payload) = Ok (Some ph)" "even (length ph)"
      by auto
    from that [OF ph(2)] packet_env.Udp_finalize_payload [OF env payload, of prev "u\<lparr>udp_sport := s\<rparr>" for s] ph(1) ip len
    show thesis by auto
  qed
  let ?m = "\<lambda>s. udp_message ph (u\<lparr>udp_sport := s, udp_checksum := 0\<rparr>) payload"
  have "unat (udp_length u) = 8 + length payload"
    unfolding len using payload(2) by (intro unat_word_of_nat_small [where n = 16]) simp_all
  then have pos: "be_sum (?m s) \<noteq> 0" for s
    using ph by (simp add: be_sum_udp_message)
  have ones: "rfc1071 (?m s) \<noteq> 0xffff" for s
  proof
    assume "rfc1071 (?m s) = 0xffff"
    then have "unat (rfc1071 (?m s)) = 65535" by simp
    with pos [of s] ones_norm_eq_0 [of "be_sum (?m s)"] show False unfolding unat_rfc1071 by linarith
  qed
  have "rfc1071 (?m (rfc1071 (?m 0))) = 0"
  proof -
    have "be_sum (?m (rfc1071 (?m 0))) = be_sum (?m 0) + unat (rfc1071 (?m 0))"
      using ph by (simp add: be_sum_udp_message)
    then have "ones_norm (be_sum (?m (rfc1071 (?m 0)))) = 65535"
      using rfc1071_completes [of "?m 0"] pos [of "rfc1071 (?m 0)"] by (simp add: ones_norm_full_iff)
    then show ?thesis
      using unat_rfc1071 [of "?m (rfc1071 (?m 0))"] by (simp add: unat_eq_zero)
  qed
  then show ?thesis
    using run [of "udp_sport u"] ones [of "udp_sport u"] run [of "rfc1071 (?m 0)"] by auto
qed

theorem Udp_finalize_zero_checksum_witness:
  "\<exists>u. Udp_finalize dev_env u [LIpv6 Ipv6_default] udp_example_next = (u\<lparr>udp_checksum := 0\<rparr>, Ok ())"
proof -
  have "over_ip [LIpv6 Ipv6_default :: unit LayerOwned]" by (simp add: over_ip_def)
  from Udp_finalize_zero_checksum [OF dev_packets.packet_env_axioms udp_example(1,2) this, of "Udp_default\<lparr>udp_length := 10\<rparr>"]
  show ?thesis by fastforce
qed

end
