(* ===== verification/Tcp_Finalize.thy ===== *)
theory Tcp_Finalize
  imports Finalize
begin

text \<open>
  What \<open>Tcp::finalize\<close> achieves.  The options are padded to a 32-bit boundary before the checksum is
  computed, but the data offset is updated after it, so the checksum is right exactly when the offset
  already was; finalising a second time repairs it.
\<close>

section \<open>The segment\<close>

lemma pad_aligned: "4 * ((n + 3) div 4) - n < (4 :: nat)" "4 dvd n + (4 * ((n + 3) div 4) - n)"
proof -
  have "n \<le> 4 * ((n + 3) div 4)" and "4 * ((n + 3) div 4) \<le> n + 3"
    by linarith+
  then show "4 * ((n + 3) div 4) - n < 4" and "4 dvd n + (4 * ((n + 3) div 4) - n)"
    by simp_all
qed

definition tcp_padded :: "Tcp \<Rightarrow> Tcp" where
  "tcp_padded t = (let n = Tcp_bits t div 8 in
     t\<lparr>tcp_options := tcp_options t @ replicate (4 * ((n + 3) div 4) - n) EOL\<rparr>)"

text \<open>The number of 32-bit words of the padded header.\<close>

definition tcp_words :: "Tcp \<Rightarrow> nat" where
  "tcp_words t = (Tcp_bits t div 8 + 3) div 4"

lemma Tcp_bits_pad: "Tcp_bits (t\<lparr>tcp_options := tcp_options t @ replicate k EOL\<rparr>) = Tcp_bits t + 8 * k"
  by (simp add: Tcp_bits_def sum_list_replicate)

lemma Tcp_bits_padded: "Tcp_bits (tcp_padded t) = 32 * tcp_words t"
proof -
  obtain n where n: "Tcp_bits t = 8 * n"
    using Tcp_bits_dvd [of t] by (auto elim: dvdE)
  have "n \<le> 4 * ((n + 3) div 4)"
    by linarith
  then show ?thesis
    by (simp add: tcp_padded_def Tcp_bits_pad n tcp_words_def)
qed

context deku_laws
begin

lemma write_list_append: "write_list w (xs @ ys) = wapp (write_list w xs) (write_list w ys)"
proof (induction xs)
  case Nil
  show ?case by (cases "write_list w ys") (simp_all add: wapp_def)
next
  case (Cons x xs)
  then show ?case
    by (cases "w x"; cases "write_list w xs"; cases "write_list w ys") (simp_all add: wapp_def)
qed

text \<open>Padding a header that serialises appends zero bytes.\<close>

lemma write_EOLs: "write_list (TcpOption_write D) (replicate k EOL) = Ok (bytes_bits (replicate k 0))"
  by (induction k)
    (simp_all add: TcpOption_write_def wfield_def TcpOption_body_simps write_uint_def write_fits byte_bits_def)

lemma Tcp_write_pad:
  assumes "Tcp_write D t = Ok b"
  shows "Tcp_write D (t\<lparr>tcp_options := tcp_options t @ replicate k EOL\<rparr>) = Ok (b @ bytes_bits (replicate k 0))"
  using assms
  by (auto simp: Tcp_write_def wfield_def wdone_def outcome_simps write_list_append write_EOLs)

lemma Tcp_to_bytes_pad:
  assumes "Tcp_to_bytes D t = Ok hdr"
  shows "Tcp_to_bytes D (t\<lparr>tcp_options := tcp_options t @ replicate k EOL\<rparr>) = Ok (hdr @ replicate k 0)"
proof -
  obtain b where b: "Tcp_write D t = Ok b" "length b = Tcp_bits t" "hdr = pack b"
    using assms to_bytes_with_Ok_iff [OF wsize_Tcp Tcp_bits_dvd] by (auto simp: Tcp_to_bytes_def)
  then have "8 dvd length b"
    using Tcp_bits_dvd by simp
  then show ?thesis
    using to_bytes_with_Ok [of "Tcp_write D", OF Tcp_write_pad [OF b(1), of k]] b(3)
    by (simp add: Tcp_to_bytes_def pack_append)
qed

lemma Tcp_to_bytes_padded:
  assumes "Tcp_to_bytes D t = Ok hdr"
  shows "\<exists>k. tcp_padded t = t\<lparr>tcp_options := tcp_options t @ replicate k EOL\<rparr> \<and>
    k = 4 * ((length hdr + 3) div 4) - length hdr \<and>
    Tcp_to_bytes D (tcp_padded t) = Ok (hdr @ replicate k 0) \<and> length (hdr @ replicate k 0) = 4 * tcp_words t"
proof -
  have len: "Tcp_bits t div 8 = length hdr"
    using Tcp_to_bytes_length [OF assms] by simp
  let ?k = "4 * ((length hdr + 3) div 4) - length hdr"
  have pad: "tcp_padded t = t\<lparr>tcp_options := tcp_options t @ replicate ?k EOL\<rparr>"
    by (simp add: tcp_padded_def len Let_def)
  then have ok: "Tcp_to_bytes D (tcp_padded t) = Ok (hdr @ replicate ?k 0)"
    using Tcp_to_bytes_pad [OF assms] by simp
  have "8 * length (hdr @ replicate ?k 0) = 32 * tcp_words t"
    using Tcp_to_bytes_length [OF ok] Tcp_bits_padded [of t] by simp
  then have "length (hdr @ replicate ?k 0) = 4 * tcp_words t"
    by simp
  with pad ok show ?thesis by blast
qed

end

context packet_env
begin

text \<open>The pieces of \<open>finalize\<close> for a header that serialises.\<close>

lemma Tcp_finalize_run:
  assumes "Tcp_to_bytes (env_dk env) t = Ok hdr"
  shows "\<exists>pre post. length pre = 16 \<and> length pre + 2 + length post = 4 * tcp_words t \<and>
    (\<forall>c. Tcp_to_bytes (env_dk env) ((tcp_padded t)\<lparr>tcp_checksum := c\<rparr>) = Ok (pre @ u16_to_be_bytes c @ post)) \<and>
    Tcp_finalize env t prev next =
     (case Tcp_update_checksum env (tcp_padded t) prev next (pre @ [0, 0] @ post) of (self, updated) \<Rightarrow>
       try_in self updated (\<lambda>_.
       try_in self (ok_or (Finalize ''Failed to convert tcp offset to u8'') (u8_try_from (tcp_words t))) (\<lambda>n.
       (self\<lparr>tcp_offset := n\<rparr>, Ok ()))))"
proof -
  obtain k where k: "tcp_padded t = t\<lparr>tcp_options := tcp_options t @ replicate k EOL\<rparr>"
      "k = 4 * ((length hdr + 3) div 4) - length hdr"
      "Tcp_to_bytes (env_dk env) (tcp_padded t) = Ok (hdr @ replicate k 0)"
      "length (hdr @ replicate k 0) = 4 * tcp_words t"
    using deku.Tcp_to_bytes_padded [OF assms] by blast
  from deku.Tcp_to_bytes_checksum [OF k(3)] obtain pre post where pre: "length pre = 16"
      and eq: "hdr @ replicate k 0 = pre @ u16_to_be_bytes (tcp_checksum (tcp_padded t)) @ post"
      and upd: "\<forall>c. Tcp_to_bytes (env_dk env) ((tcp_padded t)\<lparr>tcp_checksum := c\<rparr>) = Ok (pre @ u16_to_be_bytes c @ post)"
    by blast
  have len: "length pre + 2 + length post = 4 * tcp_words t"
    using arg_cong [OF eq, of length] k(4) by simp
  define h where "h = pre @ [0, 0] @ post"
  have h: "length h = 4 * tcp_words t"
    using len by (simp add: h_def)
  have clear: "obind (set_byte (hdr @ replicate k 0) 16 0) (\<lambda>data. set_byte data 17 0) = (Ok h :: (LayerError, bytes) outcome)"
    unfolding eq h_def using pre by (rule clear_checksum) simp
  have "Tcp_finalize env t prev next =
     (case Tcp_update_checksum env (tcp_padded t) prev next h of (self, updated) \<Rightarrow>
       try_in self updated (\<lambda>_.
       try_in self (ok_or (Finalize ''Failed to convert tcp offset to u8'') (u8_try_from (tcp_words t))) (\<lambda>n.
       (self\<lparr>tcp_offset := n\<rparr>, Ok ()))))"
    unfolding Tcp_finalize_def Let_def assms try_in.simps k(2) [symmetric] k(1) [symmetric] k(3) clear h
    by (simp add: debug_assert_def)
  then have "Tcp_finalize env t prev next =
     (case Tcp_update_checksum env (tcp_padded t) prev next (pre @ [0, 0] @ post) of (self, updated) \<Rightarrow>
       try_in self updated (\<lambda>_.
       try_in self (ok_or (Finalize ''Failed to convert tcp offset to u8'') (u8_try_from (tcp_words t))) (\<lambda>n.
       (self\<lparr>tcp_offset := n\<rparr>, Ok ()))))"
    unfolding h_def .
  with pre len upd show ?thesis by blast
qed

end

text \<open>The data offset is the upper four bits of the seventh 16-bit word.\<close>

lemma pack_offset_word:
  assumes "length fl = 12" and "off < 16"
  shows "pack (bits_be 4 off @ fl) = u16_to_be_bytes (word_of_nat (4096 * off + nat_of_bits fl))"
    and "nat_of_bits fl < 4096"
proof -
  show fl: "nat_of_bits fl < 4096"
    using nat_of_bits_less [of fl] assms(1) by simp
  let ?v = "4096 * off + nat_of_bits fl"
  have "nat_of_bits (bits_be 4 off @ fl) = ?v"
    using assms by (simp add: nat_of_bits_append nat_of_bits_bits_be)
  then have "bits_be 4 off @ fl = bits_be 16 ?v"
    using bits_be_nat_of_bits [of "bits_be 4 off @ fl"] assms(1) by simp
  moreover have "unat (word_of_nat ?v :: u16) = ?v"
    using fl assms(2) by (intro unat_word_of_nat_small [where n = 16]) simp_all
  ultimately show "pack (bits_be 4 off @ fl) = u16_to_be_bytes (word_of_nat ?v)"
    by (simp only: pack_bits_be_16 u16_to_be_bytes_def)
qed

context deku_laws
begin

lemma Tcp_write_offset:
  assumes "Tcp_write D t = Ok b" and "unat (tcp_offset t) < 16"
  shows "\<exists>pre fl post. length pre = 96 \<and> length fl = 12 \<and> b = pre @ bits_be 4 (unat (tcp_offset t)) @ fl @ post \<and>
    (\<forall>n. unat n < 16 \<longrightarrow> Tcp_write D (t\<lparr>tcp_offset := n\<rparr>) = Ok (pre @ bits_be 4 (unat n) @ fl @ post))"
proof -
  let ?pre = "bits_be 16 (unat (tcp_sport t)) @ bits_be 16 (unat (tcp_dport t)) @ bits_be 32 (unat (tcp_seq t)) @
    bits_be 32 (unat (tcp_ack t))"
  from assms(1) obtain fl post where fl: "TcpFlags_write D (tcp_flags t) = Ok fl"
      and post: "wfield tcp_window (write_uint D 16) (wfield tcp_checksum (write_uint D 16) (
        wfield tcp_urgptr (write_uint D 16) (wfield tcp_options (write_list (TcpOption_write D)) wdone))) t = Ok post"
    by (auto simp: Tcp_write_def outcome_simps wfield_def)
  then have post': "wfield tcp_window (write_uint D 16) (wfield tcp_checksum (write_uint D 16) (
        wfield tcp_urgptr (write_uint D 16) (wfield tcp_options (write_list (TcpOption_write D)) wdone)))
        (t\<lparr>tcp_offset := n\<rparr>) = Ok post" for n
    by (simp add: wfield_def wdone_def)
  have wr: "Tcp_write D (t\<lparr>tcp_offset := n\<rparr>) = Ok (?pre @ bits_be 4 (unat n) @ fl @ post)" if "unat n < 16" for n
    unfolding Tcp_write_def
    using that fl post' [of n]
    by (simp add: wfield_def [of tcp_sport] wfield_def [of tcp_dport] wfield_def [of tcp_seq] wfield_def [of tcp_ack]
        wfield_def [of tcp_offset] wfield_def [of tcp_flags] write_uint_def write_fits)
  moreover have "b = ?pre @ bits_be 4 (unat (tcp_offset t)) @ fl @ post"
    using wr [OF assms(2)] assms(1) by simp
  moreover have "length fl = 12"
    using fl wsize_TcpFlags unfolding wsize_def by blast
  moreover have "length ?pre = 96" by simp
  ultimately show ?thesis by blast
qed

lemma Tcp_to_bytes_offset:
  assumes "Tcp_to_bytes D t = Ok hdr" and "unat (tcp_offset t) < 16"
  shows "\<exists>pre f post. length pre = 12 \<and> f < 4096 \<and>
    hdr = pre @ u16_to_be_bytes (word_of_nat (4096 * unat (tcp_offset t) + f)) @ post \<and>
    (\<forall>n. unat n < 16 \<longrightarrow>
      Tcp_to_bytes D (t\<lparr>tcp_offset := n\<rparr>) = Ok (pre @ u16_to_be_bytes (word_of_nat (4096 * unat n + f)) @ post))"
proof -
  obtain b where b: "Tcp_write D t = Ok b" "hdr = pack b" "length b = Tcp_bits t"
    using assms(1) to_bytes_with_Ok_iff [OF wsize_Tcp Tcp_bits_dvd] by (auto simp: Tcp_to_bytes_def)
  from Tcp_write_offset [OF b(1) assms(2)] obtain pre fl post where pre: "length pre = 96" and fl: "length fl = 12"
      and eq: "b = pre @ bits_be 4 (unat (tcp_offset t)) @ fl @ post"
      and upd: "\<And>n. unat n < 16 \<Longrightarrow> Tcp_write D (t\<lparr>tcp_offset := n\<rparr>) = Ok (pre @ bits_be 4 (unat n) @ fl @ post)"
    by blast
  let ?f = "nat_of_bits fl"
  have pack: "pack (pre @ bits_be 4 k @ fl @ post) = pack pre @ u16_to_be_bytes (word_of_nat (4096 * k + ?f)) @ pack post"
    if "k < 16" for k
  proof -
    have al: "8 dvd length pre" "8 dvd length (bits_be 4 k @ fl)"
      using pre fl by simp_all
    have "pack (pre @ (bits_be 4 k @ fl) @ post) = pack pre @ pack (bits_be 4 k @ fl) @ pack post"
      by (simp only: pack_append [OF al(1)] pack_append [OF al(2)])
    then show ?thesis
      using pack_offset_word(1) [OF fl that] by simp
  qed
  have "8 dvd length (pre @ bits_be 4 (unat n) @ fl @ post)" for n :: u8
    using b(3) Tcp_bits_dvd [of t] by (simp add: eq)
  then have "Tcp_to_bytes D (t\<lparr>tcp_offset := n\<rparr>) = Ok (pack pre @ u16_to_be_bytes (word_of_nat (4096 * unat n + ?f)) @ pack post)"
    if "unat n < 16" for n
    using to_bytes_with_Ok [of "Tcp_write D", OF upd [OF that]] pack [OF that] by (simp add: Tcp_to_bytes_def)
  moreover have "length (pack pre) = 12"
    using length_pack [of pre] pre by simp
  ultimately show ?thesis
    using pack_offset_word(2) [OF fl] b(2) eq pack [OF assms(2)] assms(2) by blast
qed

end

lemma be_sum_offset_word:
  assumes "f < 4096" and "k < 16"
  shows "be_sum (u16_to_be_bytes (word_of_nat (4096 * k + f))) = 4096 * k + f"
  unfolding be_sum_u16_to_be_bytes
  using assms by (intro unat_word_of_nat_small [where n = 16]) simp_all

text \<open>Four-bit offsets are told apart by the one's complement sum.\<close>

lemma offset_mod_eq_iff:
  assumes "a < 16" and "b < (16 :: nat)"
  shows "4096 * a mod 65535 = 4096 * b mod 65535 \<longleftrightarrow> a = b"
proof -
  have "4096 * a < 65535 + 1" "4096 * b < 65535 + 1" using assms by simp_all
  then have "4096 * a mod 65535 = 4096 * a" "4096 * b mod 65535 = 4096 * b"
    using assms by simp_all
  then show ?thesis by simp
qed

context packet_env
begin

lemma Tcp_finalize_payload:
  assumes hdr: "Tcp_to_bytes (env_dk env) t = Ok hdr" and payload: "layers_to_bytes env next = Ok payload"
    and total: "4 * tcp_words t + length payload \<le> 65535" and words: "tcp_words t < 256"
  shows "if over_ip prev
    then \<exists>ph hdr0. ip_pseudo_header ''tcp_length'' env (last prev) (4 * tcp_words t + length payload) = Ok (Some ph) \<and>
      even (length ph) \<and> length ph \<le> 40 \<and>
      Tcp_to_bytes (env_dk env) ((tcp_padded t)\<lparr>tcp_checksum := 0\<rparr>) = Ok hdr0 \<and> length hdr0 = 4 * tcp_words t \<and>
      Tcp_finalize env t prev next = ((tcp_padded t)\<lparr>tcp_checksum := rfc1071 (ph @ hdr0 @ payload),
        tcp_offset := word_of_nat (tcp_words t)\<rparr>, Ok ())
    else Tcp_finalize env t prev next = ((tcp_padded t)\<lparr>tcp_offset := word_of_nat (tcp_words t)\<rparr>, Ok ())"
proof -
  from Tcp_finalize_run [OF hdr, of prev "next"] obtain pre post where
      len: "length pre + 2 + length post = 4 * tcp_words t"
      and upd: "\<forall>c. Tcp_to_bytes (env_dk env) ((tcp_padded t)\<lparr>tcp_checksum := c\<rparr>) = Ok (pre @ u16_to_be_bytes c @ post)"
      and run: "Tcp_finalize env t prev next =
        (case Tcp_update_checksum env (tcp_padded t) prev next (pre @ [0, 0] @ post) of (self, updated) \<Rightarrow>
          try_in self updated (\<lambda>_.
          try_in self (ok_or (Finalize ''Failed to convert tcp offset to u8'') (u8_try_from (tcp_words t))) (\<lambda>n.
          (self\<lparr>tcp_offset := n\<rparr>, Ok ()))))"
    by blast
  define hdr0 where "hdr0 = pre @ [0, 0] @ post"
  have hdr0: "Tcp_to_bytes (env_dk env) ((tcp_padded t)\<lparr>tcp_checksum := 0\<rparr>) = Ok hdr0" "length hdr0 = 4 * tcp_words t"
    using upd len by (simp_all add: hdr0_def u16_to_be_bytes_0)
  have off: "u8_try_from (tcp_words t) = Some (word_of_nat (tcp_words t))"
    using words by (simp add: u8_try_from_def)
  have add: "checked_add_usize (env_pf env) (4 * tcp_words t) (length payload) = Some (4 * tcp_words t + length payload)"
    using total usize_16 by (simp add: checked_add_usize_def)
  note run = run [folded hdr0_def]
  show ?thesis
  proof (cases "over_ip prev")
    case True
    then have "prev \<noteq> []" and "over_ip [last prev]"
      by (simp_all add: over_ip_def)
    with ip_pseudo_header_Ok [OF total, of "last prev" "''tcp_length''"] obtain ph
      where ph: "ip_pseudo_header ''tcp_length'' env (last prev) (4 * tcp_words t + length payload) = Ok (Some ph)"
        "even (length ph)" "length ph \<le> 40" by auto
    have "checksum (env_pf env) (ph @ hdr0 @ payload) = (Ok (rfc1071 (ph @ hdr0 @ payload)) :: (LayerError, u16) outcome)"
      using total ph(3) hdr0(2) by (intro checksum_rfc) simp
    then have "Tcp_update_checksum env (tcp_padded t) prev next hdr0
        = ((tcp_padded t)\<lparr>tcp_checksum := rfc1071 (ph @ hdr0 @ payload)\<rparr>, Ok ())"
      using \<open>prev \<noteq> []\<close> ph(1) payload add by (simp add: Tcp_update_checksum_def hdr0(2))
    then show ?thesis
      using True ph hdr0 run off by auto
  next
    case False
    then have "Tcp_update_checksum env (tcp_padded t) prev next hdr0 = (tcp_padded t, Ok ())"
      using ip_pseudo_header_Ok [OF total, of "last prev" "''tcp_length''"] payload add
      by (auto simp: Tcp_update_checksum_def over_ip_def hdr0(2))
    then show ?thesis
      using False run off by simp
  qed
qed

lemma tcp_stale_verifies_iff:
  assumes hdr0: "Tcp_to_bytes (env_dk env) (t\<lparr>tcp_checksum := 0\<rparr>) = Ok hdr0"
    and ph: "even (length ph)" and al: "even (length hdr0)" and small: "length ph + length hdr0 + length payload \<le> 131074"
    and off: "unat (tcp_offset t) < 16" "unat n < 16" "0 < unat n"
  defines "t' \<equiv> t\<lparr>tcp_checksum := rfc1071 (ph @ hdr0 @ payload), tcp_offset := n\<rparr>"
  shows "\<exists>seg. Tcp_to_bytes (env_dk env) t' = Ok seg \<and> length seg = length hdr0 \<and>
    (checksum (env_pf env) (ph @ seg @ payload) = (Ok 0 :: (LayerError, u16) outcome) \<longleftrightarrow> tcp_offset t = n)"
proof -
  let ?c = "rfc1071 (ph @ hdr0 @ payload)"
  from deku.Tcp_to_bytes_checksum [OF hdr0] obtain pre post where pre: "length pre = 16"
      and hdr0_eq: "hdr0 = pre @ u16_to_be_bytes 0 @ post"
      and "\<forall>c. Tcp_to_bytes (env_dk env) (t\<lparr>tcp_checksum := c\<rparr>) = Ok (pre @ u16_to_be_bytes c @ post)"
    by auto
  then have mid: "Tcp_to_bytes (env_dk env) (t\<lparr>tcp_checksum := ?c\<rparr>) = Ok (pre @ u16_to_be_bytes ?c @ post)"
    by blast
  from deku.Tcp_to_bytes_offset [OF mid] off(1) obtain pre' f post' where pre': "length pre' = 12" and f: "f < 4096"
      and mid_eq: "pre @ u16_to_be_bytes ?c @ post = pre' @ u16_to_be_bytes (word_of_nat (4096 * unat (tcp_offset t) + f)) @ post'"
      and upd: "\<forall>n. unat n < 16 \<longrightarrow> Tcp_to_bytes (env_dk env) (t\<lparr>tcp_checksum := ?c, tcp_offset := n\<rparr>)
        = Ok (pre' @ u16_to_be_bytes (word_of_nat (4096 * unat n + f)) @ post')"
    by auto
  let ?seg = "pre' @ u16_to_be_bytes (word_of_nat (4096 * unat n + f)) @ post'"
  have seg: "Tcp_to_bytes (env_dk env) t' = Ok ?seg"
    using upd off(2) by (simp add: t'_def)
  have len: "length ?seg = length hdr0"
    using arg_cong [OF mid_eq, of length] by (simp add: hdr0_eq)
  have "be_sum (ph @ (pre @ u16_to_be_bytes ?c @ post) @ payload) = be_sum (ph @ hdr0 @ payload) + unat ?c"
    using ph pre by (simp add: hdr0_eq be_sum_append be_sum_u16_to_be_bytes)
  moreover have "be_sum (ph @ (pre' @ u16_to_be_bytes (word_of_nat (4096 * unat k + f)) @ post') @ payload)
      = be_sum ph + be_sum pre' + (4096 * unat k + f) + be_sum (post' @ payload)" if "unat k < 16" for k :: u8
    using ph pre' by (simp add: be_sum_append be_sum_offset_word [OF f that] del: of_nat_add of_nat_mult)
  ultimately have "be_sum (ph @ ?seg @ payload) + 4096 * unat (tcp_offset t)
      = be_sum (ph @ hdr0 @ payload) + unat ?c + 4096 * unat n"
    using off(1,2) unfolding mid_eq by simp
  then have "(be_sum (ph @ ?seg @ payload) + 4096 * unat (tcp_offset t)) mod 65535 = 4096 * unat n mod 65535"
    using rfc1071_completes [of "ph @ hdr0 @ payload"] by (metis add_cancel_left_left mod_add_left_eq)
  from mod_cancel_nat [OF this] have "be_sum (ph @ ?seg @ payload) mod 65535 = 0 \<longleftrightarrow> tcp_offset t = n"
    unfolding offset_mod_eq_iff [OF off(1,2)] by (simp add: word_unat_eq_iff)
  moreover have "be_sum (ph @ ?seg @ payload) \<noteq> 0"
    using off(3) ph pre' by (simp add: be_sum_append be_sum_offset_word [OF f off(2)] del: of_nat_add of_nat_mult)
  ultimately have "checksum (env_pf env) (ph @ ?seg @ payload) = (Ok 0 :: (LayerError, u16) outcome) \<longleftrightarrow> tcp_offset t = n"
    using small len by (subst checksum_zero_iff) simp_all
  with seg len show ?thesis by blast
qed

end

text \<open>A finalised header is aligned: padding it again changes nothing.\<close>

lemma tcp_aligned_padded:
  assumes "Tcp_bits t = 32 * k"
  shows "tcp_padded t = t" and "tcp_words t = k"
  using assms by (simp_all add: tcp_padded_def tcp_words_def Let_def)

lemma Tcp_bits_update [simp]:
  "Tcp_bits (t\<lparr>tcp_checksum := c\<rparr>) = Tcp_bits t" "Tcp_bits (t\<lparr>tcp_offset := n\<rparr>) = Tcp_bits t"
  by (simp_all add: Tcp_bits_def)

lemma tcp_words_ge: "5 \<le> tcp_words t"
  by (simp add: tcp_words_def Tcp_bits_def)

lemma tcp_padded_sel [simp]: "tcp_offset (tcp_padded t) = tcp_offset t" "tcp_checksum (tcp_padded t) = tcp_checksum t"
  by (simp_all add: tcp_padded_def Let_def)

context packet_env
begin

text \<open>One \<open>finalize\<close> over an IP layer, for a header whose offset fits its four bits.\<close>

lemma Tcp_finalize_segment:
  assumes hdr: "Tcp_to_bytes (env_dk env) t = Ok hdr" and payload: "layers_to_bytes env next = Ok payload"
    and total: "4 * tcp_words t + length payload \<le> 65535" and words: "tcp_words t < 16"
    and ip: "over_ip prev" and off: "unat (tcp_offset t) < 16"
  shows "\<exists>ph c seg. ip_pseudo_header ''tcp_length'' env (last prev) (4 * tcp_words t + length payload) = Ok (Some ph) \<and>
    Tcp_finalize env t prev next = ((tcp_padded t)\<lparr>tcp_checksum := c, tcp_offset := word_of_nat (tcp_words t)\<rparr>, Ok ()) \<and>
    Tcp_to_bytes (env_dk env) ((tcp_padded t)\<lparr>tcp_checksum := c, tcp_offset := word_of_nat (tcp_words t)\<rparr>) = Ok seg \<and>
    (checksum (env_pf env) (ph @ seg @ payload) = (Ok 0 :: (LayerError, u16) outcome) \<longleftrightarrow>
      tcp_offset t = word_of_nat (tcp_words t)) \<and>
    (\<exists>hdr0. Tcp_to_bytes (env_dk env) ((tcp_padded t)\<lparr>tcp_checksum := 0\<rparr>) = Ok hdr0 \<and> c = rfc1071 (ph @ hdr0 @ payload))"
proof -
  let ?n = "word_of_nat (tcp_words t) :: u8"
  have n: "unat ?n = tcp_words t"
    using words by (intro unat_word_of_nat_small [where n = 4]) simp_all
  have words': "tcp_words t < 256" using words by simp
  from Tcp_finalize_payload [OF hdr payload total words', of prev] ip obtain ph hdr0 where
      ph: "ip_pseudo_header ''tcp_length'' env (last prev) (4 * tcp_words t + length payload) = Ok (Some ph)"
        "even (length ph)" "length ph \<le> 40"
      and hdr0: "Tcp_to_bytes (env_dk env) ((tcp_padded t)\<lparr>tcp_checksum := 0\<rparr>) = Ok hdr0" "length hdr0 = 4 * tcp_words t"
      and run: "Tcp_finalize env t prev next = ((tcp_padded t)\<lparr>tcp_checksum := rfc1071 (ph @ hdr0 @ payload),
        tcp_offset := ?n\<rparr>, Ok ())"
    by auto
  have al: "even (length hdr0)"
    using hdr0(2) by simp
  have small: "length ph + length hdr0 + length payload \<le> 131074"
    using total ph(3) hdr0(2) by simp
  have offs: "unat (tcp_offset (tcp_padded t)) < 16" "unat ?n < 16" "0 < unat ?n"
    using off words tcp_words_ge [of t] n by simp_all
  from tcp_stale_verifies_iff [OF hdr0(1) ph(2) al small offs] run ph(1) hdr0(1) show ?thesis
    by auto
qed

lemma Tcp_finalize_settled:
  assumes bits: "Tcp_bits t = 32 * k" "k < 16" and off: "tcp_offset t = word_of_nat k"
    and hdr: "Tcp_to_bytes (env_dk env) t = Ok hdr" and payload: "layers_to_bytes env next = Ok payload"
    and total: "4 * k + length payload \<le> 65535" and ip: "over_ip prev"
  shows "\<exists>ph c seg. ip_pseudo_header ''tcp_length'' env (last prev) (4 * k + length payload) = Ok (Some ph) \<and>
    Tcp_finalize env t prev next = (t\<lparr>tcp_checksum := c\<rparr>, Ok ()) \<and>
    Tcp_finalize env (t\<lparr>tcp_checksum := c\<rparr>) prev next = (t\<lparr>tcp_checksum := c\<rparr>, Ok ()) \<and>
    Tcp_to_bytes (env_dk env) (t\<lparr>tcp_checksum := c\<rparr>) = Ok seg \<and>
    checksum (env_pf env) (ph @ seg @ payload) = (Ok 0 :: (LayerError, u16) outcome)"
proof -
  have unat_k: "unat (word_of_nat k :: u8) = k"
    using bits(2) by (intro unat_word_of_nat_small [where n = 4]) simp_all
  have same: "t\<lparr>tcp_checksum := c, tcp_offset := word_of_nat k\<rparr> = t\<lparr>tcp_checksum := c\<rparr>" for c
    using off by simp
  have pre: "tcp_padded t = t" "tcp_words t = k" "tcp_words t < 16" "4 * tcp_words t + length payload \<le> 65535"
      "unat (tcp_offset t) < 16"
    using tcp_aligned_padded [OF bits(1)] bits(2) total off unat_k by simp_all
  from Tcp_finalize_segment [OF hdr payload pre(4,3) ip pre(5)] obtain ph c seg hdr0 where
      ph: "ip_pseudo_header ''tcp_length'' env (last prev) (4 * k + length payload) = Ok (Some ph)"
      and run: "Tcp_finalize env t prev next = (t\<lparr>tcp_checksum := c\<rparr>, Ok ())"
      and seg: "Tcp_to_bytes (env_dk env) (t\<lparr>tcp_checksum := c\<rparr>) = Ok seg"
      and ver: "checksum (env_pf env) (ph @ seg @ payload) = (Ok 0 :: (LayerError, u16) outcome)"
      and hdr0: "Tcp_to_bytes (env_dk env) (t\<lparr>tcp_checksum := 0\<rparr>) = Ok hdr0" "c = rfc1071 (ph @ hdr0 @ payload)"
    unfolding pre(1,2) same using off by auto
  let ?t = "t\<lparr>tcp_checksum := c\<rparr>"
  have bits': "Tcp_bits ?t = 32 * k" using bits(1) by simp
  have pre': "tcp_padded ?t = ?t" "tcp_words ?t = k" "tcp_words ?t < 16" "4 * tcp_words ?t + length payload \<le> 65535"
      "unat (tcp_offset ?t) < 16"
    using tcp_aligned_padded [OF bits'] bits(2) total off unat_k by simp_all
  from Tcp_finalize_segment [OF seg payload pre'(4,3) ip pre'(5)] ph hdr0
  have "Tcp_finalize env ?t prev next = (?t, Ok ())"
    unfolding pre'(1,2) using off by auto
  with ph run seg ver show ?thesis by blast
qed

end

section \<open>Properties\<close>

text \<open>
  (C7) Finalising a TCP header that serialises, with a payload that fits: the options are padded with
  end-of-list to a 32-bit boundary, the data offset becomes the number of words, and over an IP layer
  the checksum becomes the RFC 1071 checksum of pseudo header, padded header with the offset it had
  \<^emph>\<open>before\<close> and a zero checksum, and payload.  Nothing else changes.  A header that does not serialise is
  an error that leaves it as it was.
\<close>

theorem Tcp_finalize_correct:
  assumes "packet_env env"
  shows "case Tcp_to_bytes (env_dk env) t of
     Ok hdr \<Rightarrow> (case layers_to_bytes env next of
       Ok payload \<Rightarrow> 4 * tcp_words t + length payload \<le> 65535 \<and> tcp_words t < 256 \<longrightarrow>
         (if over_ip prev
          then \<exists>ph hdr0. ip_pseudo_header ''tcp_length'' env (last prev) (4 * tcp_words t + length payload) = Ok (Some ph) \<and>
            Tcp_to_bytes (env_dk env) ((tcp_padded t)\<lparr>tcp_checksum := 0\<rparr>) = Ok hdr0 \<and> length hdr0 = 4 * tcp_words t \<and>
            Tcp_finalize env t prev next = ((tcp_padded t)\<lparr>tcp_checksum := rfc1071 (ph @ hdr0 @ payload),
              tcp_offset := word_of_nat (tcp_words t)\<rparr>, Ok ())
          else Tcp_finalize env t prev next = ((tcp_padded t)\<lparr>tcp_offset := word_of_nat (tcp_words t)\<rparr>, Ok ()))
     | _ \<Rightarrow> True)
   | Err e \<Rightarrow> Tcp_finalize env t prev next = (t, Err e)
   | _ \<Rightarrow> False"
proof (cases "Tcp_to_bytes (env_dk env) t")
  case (Ok hdr)
  show ?thesis
  proof (cases "layers_to_bytes env next")
    case payload: (Ok payload)
    show ?thesis
    proof (cases "4 * tcp_words t + length payload \<le> 65535 \<and> tcp_words t < 256")
      case True
      then have "4 * tcp_words t + length payload \<le> 65535" and "tcp_words t < 256" by simp_all
      from packet_env.Tcp_finalize_payload [OF assms Ok payload this, of prev] Ok payload show ?thesis
        by (cases "over_ip prev") auto
    qed (use Ok payload in auto)
  qed (use Ok in simp_all)
next
  case (Err e)
  then show ?thesis by (simp add: Tcp_finalize_def)
qed (use packet_env.to_bytes_returns [OF assms, of "LTcp t"] in simp_all)

text \<open>An unfinalised header with four option bytes, whose offset is still 5.\<close>

definition tcp_example :: Tcp where
  "tcp_example = Tcp_default\<lparr>tcp_options := tcp_options Tcp_default @ replicate 3 EOL\<rparr>"

lemma tcp_example_words: "tcp_words tcp_example = 6" "unat (tcp_offset tcp_example) < 16"
  by (simp_all add: tcp_words_def tcp_example_def Tcp_bits_def Tcp_default_def sum_list_replicate)

lemma Tcp_default_wf: "Tcp_wf Tcp_default"
  by (simp add: Tcp_wf_def Tcp_parsed_def Tcp_default_def TcpFlags_wf_def TcpFlags_default_def)

lemma tcp_pad_example:
  "\<exists>hdr. Tcp_to_bytes ref_deku (Tcp_default\<lparr>tcp_options := tcp_options Tcp_default @ replicate k EOL\<rparr>) = Ok hdr"
  using layer_codec.reparse [OF ref.tcp_codec Tcp_default_wf] ref.Tcp_to_bytes_pad by blast

definition tcp_example_prev :: "unit LayerOwned list" where
  "tcp_example_prev = [LIpv4 Ipv4_default]"

lemma tcp_example_prev: "over_ip tcp_example_prev"
  by (simp add: tcp_example_prev_def over_ip_def)

lemma tcp_example_next: "layers_to_bytes dev_env [] = Ok []"
  by (simp add: layers_to_bytes_def)

theorem Tcp_finalize_correct_witness:
  "packet_env dev_env \<and> (\<exists>c. Tcp_finalize dev_env tcp_example tcp_example_prev [] =
     ((tcp_padded tcp_example)\<lparr>tcp_checksum := c, tcp_offset := 6\<rparr>, Ok ()))"
proof -
  obtain hdr where hdr: "Tcp_to_bytes ref_deku tcp_example = Ok hdr"
    using tcp_pad_example [of 3] by (auto simp: tcp_example_def)
  with Tcp_finalize_correct [OF dev_packets.packet_env_axioms, of tcp_example tcp_example_prev "[]"]
  show ?thesis
    using dev_packets.packet_env_axioms tcp_example_prev tcp_example_words by (auto simp: tcp_example_next)
qed

text \<open>
  (C31) After one \<open>finalize\<close> over an IP layer the segment verifies if and only if its data offset was
  already the number of words of the padded header: the offset is updated after the checksum has
  been computed.
\<close>

theorem Tcp_finalize_stale_offset:
  assumes "packet_env env" and "Tcp_to_bytes (env_dk env) t = Ok hdr" and "layers_to_bytes env next = Ok payload"
    and "4 * tcp_words t + length payload \<le> 65535" and "tcp_words t < 16" and "over_ip prev"
    and "unat (tcp_offset t) < 16"
  shows "\<exists>ph t' seg. ip_pseudo_header ''tcp_length'' env (last prev) (4 * tcp_words t + length payload) = Ok (Some ph) \<and>
    Tcp_finalize env t prev next = (t', Ok ()) \<and> Tcp_to_bytes (env_dk env) t' = Ok seg \<and>
    (checksum (env_pf env) (ph @ seg @ payload) = (Ok 0 :: (LayerError, u16) outcome) \<longleftrightarrow> tcp_offset t = tcp_offset t')"
proof -
  from packet_env.Tcp_finalize_segment [OF assms] obtain ph c seg where
    "ip_pseudo_header ''tcp_length'' env (last prev) (4 * tcp_words t + length payload) = Ok (Some ph)"
    "Tcp_finalize env t prev next = ((tcp_padded t)\<lparr>tcp_checksum := c, tcp_offset := word_of_nat (tcp_words t)\<rparr>, Ok ())"
    "Tcp_to_bytes (env_dk env) ((tcp_padded t)\<lparr>tcp_checksum := c, tcp_offset := word_of_nat (tcp_words t)\<rparr>) = Ok seg"
    "checksum (env_pf env) (ph @ seg @ payload) = (Ok 0 :: (LayerError, u16) outcome) \<longleftrightarrow>
      tcp_offset t = word_of_nat (tcp_words t)"
    by blast
  then show ?thesis
    by (intro exI [where x = ph] exI [where x = seg] exI) auto
qed

theorem Tcp_finalize_stale_offset_witness:
  "packet_env dev_env \<and> over_ip tcp_example_prev \<and>
   (\<exists>ph t' seg. Tcp_finalize dev_env tcp_example tcp_example_prev [] = (t', Ok ()) \<and>
     Tcp_to_bytes ref_deku t' = Ok seg \<and>
     (checksum dev_profile (ph @ seg @ []) = (Ok 0 :: (LayerError, u16) outcome) \<longleftrightarrow> tcp_offset tcp_example = tcp_offset t'))"
proof -
  obtain hdr where hdr: "Tcp_to_bytes (env_dk dev_env) tcp_example = Ok hdr"
    using tcp_pad_example [of 3] by (auto simp: tcp_example_def)
  have "4 * tcp_words tcp_example + length ([] :: bytes) \<le> 65535" "tcp_words tcp_example < 16"
    by (simp_all add: tcp_example_words)
  from Tcp_finalize_stale_offset [OF dev_packets.packet_env_axioms hdr tcp_example_next this tcp_example_prev tcp_example_words(2)]
    tcp_example_prev dev_packets.packet_env_axioms
  show ?thesis unfolding dev_env_simps by blast
qed

text \<open>
  Finalising twice over an IP layer gives a segment that verifies, and every further \<open>finalize\<close>
  leaves it unchanged.
\<close>

lemma Tcp_finalize_twice_verifies:
  assumes "packet_env env" and "Tcp_to_bytes (env_dk env) t = Ok hdr" and "layers_to_bytes env next = Ok payload"
    and "4 * tcp_words t + length payload \<le> 65535" and "tcp_words t < 16" and "over_ip prev"
    and "unat (tcp_offset t) < 16"
  shows "\<exists>ph t' t'' seg. ip_pseudo_header ''tcp_length'' env (last prev) (4 * tcp_words t + length payload) = Ok (Some ph) \<and>
    Tcp_finalize env t prev next = (t', Ok ()) \<and> Tcp_finalize env t' prev next = (t'', Ok ()) \<and>
    Tcp_finalize env t'' prev next = (t'', Ok ()) \<and> Tcp_to_bytes (env_dk env) t'' = Ok seg \<and>
    checksum (env_pf env) (ph @ seg @ payload) = (Ok 0 :: (LayerError, u16) outcome)"
proof -
  from packet_env.Tcp_finalize_segment [OF assms] obtain c seg where
    t': "Tcp_finalize env t prev next = ((tcp_padded t)\<lparr>tcp_checksum := c, tcp_offset := word_of_nat (tcp_words t)\<rparr>, Ok ())"
    "Tcp_to_bytes (env_dk env) ((tcp_padded t)\<lparr>tcp_checksum := c, tcp_offset := word_of_nat (tcp_words t)\<rparr>) = Ok seg"
    by blast
  let ?t = "(tcp_padded t)\<lparr>tcp_checksum := c, tcp_offset := word_of_nat (tcp_words t)\<rparr>"
  have "Tcp_bits ?t = 32 * tcp_words t" and "tcp_offset ?t = word_of_nat (tcp_words t)"
    by (simp_all add: Tcp_bits_padded)
  from packet_env.Tcp_finalize_settled [OF assms(1) this(1) assms(5) this(2) t'(2) assms(3,4,6)] t'(1)
  show ?thesis by blast
qed

text \<open>
  (C33) \<open>finalize\<close> accepts headers that are too long for TCP: with 16 to 255 words it succeeds and stores
  a data offset that does not fit the four bits of the field, so the result is no header that parsing
  could produce.
\<close>

theorem Tcp_finalize_oversized:
  assumes "packet_env env" and "Tcp_to_bytes (env_dk env) t = Ok hdr" and "16 \<le> tcp_words t" and "tcp_words t < 256"
  shows "\<exists>t'. Tcp_finalize env t [] [] = (t', Ok ()) \<and> 16 \<le> unat (tcp_offset t') \<and> \<not> Tcp_parsed t'"
proof -
  have "layers_to_bytes env [] = Ok []"
    by (simp add: layers_to_bytes_def)
  from packet_env.Tcp_finalize_payload [OF assms(1,2) this _ assms(4), of "[]"] assms(4)
  have run: "Tcp_finalize env t [] [] = ((tcp_padded t)\<lparr>tcp_offset := word_of_nat (tcp_words t)\<rparr>, Ok ())"
    by (simp add: over_ip_def)
  have "unat (word_of_nat (tcp_words t) :: u8) = tcp_words t"
    using assms(4) by (intro unat_word_of_nat_small [where n = 8]) simp_all
  with run assms(3) show ?thesis
    by (simp add: Tcp_parsed_def)
qed

theorem Tcp_finalize_oversized_witness:
  "packet_env dev_env \<and> (\<exists>t'. Tcp_finalize dev_env
     (Tcp_default\<lparr>tcp_options := tcp_options Tcp_default @ replicate 41 EOL\<rparr>) [] [] = (t', Ok ()) \<and> 16 \<le> unat (tcp_offset t'))"
proof -
  let ?t = "Tcp_default\<lparr>tcp_options := tcp_options Tcp_default @ replicate 41 EOL\<rparr>"
  obtain hdr where hdr: "Tcp_to_bytes (env_dk dev_env) ?t = Ok hdr"
    using tcp_pad_example [of 41] by auto
  have "tcp_words ?t = 16"
    by (simp add: tcp_words_def Tcp_bits_def Tcp_default_def sum_list_replicate)
  then have "16 \<le> tcp_words ?t" "tcp_words ?t < 256" by simp_all
  from Tcp_finalize_oversized [OF dev_packets.packet_env_axioms hdr this] dev_packets.packet_env_axioms
  show ?thesis by blast
qed

end
