(* ===== verification/Packet.thy ===== *)
theory Packet
  imports Finalize
begin

text \<open>
  \<open>src/packet/mod.rs\<close> and \<open>src/packet/error.rs\<close>: packets, and the packet parser driven by layer bindings.

  A layer type \<open>T: LayerExt\<close> is a record \<open>layer_type\<close>: its identity, the downcast, the boxing and its
  parser.  The client's binding functions are total functions (a closure that panics is not modelled);
  the parsers they return may do anything a Rust function does.  The loop of \<open>parse_packet\<close> need not
  end when bindings consume nothing, so it is a partial function: \<open>None\<close> means it does not return.
\<close>

section \<open>Errors\<close>

datatype PacketError = Incomplete nat | LayerError LayerError

fun PacketError_from :: "LayerError \<Rightarrow> PacketError" where
  "PacketError_from (LayerError.Incomplete n) = PacketError.Incomplete n"
| "PacketError_from err = PacketError.LayerError err"

section \<open>Packets\<close>

record 'c PacketView =
  view_layers :: "'c LayerOwned list"

definition PacketView_from_layers :: "'c LayerOwned list \<Rightarrow> 'c PacketView" where
  "PacketView_from_layers layers = \<lparr>view_layers = layers\<rparr>"

record 'c Packet =
  pkt_layers :: "'c LayerOwned list"

definition Packet_new :: "'c Packet" where
  "Packet_new = \<lparr>pkt_layers = []\<rparr>"

definition Packet_from_layers :: "'c LayerOwned list \<Rightarrow> 'c Packet" where
  "Packet_from_layers layers = \<lparr>pkt_layers = layers\<rparr>"

text \<open>The loop over \<open>i in 0..self.layers.len()\<close>; \<open>n\<close> is the number of rounds left.\<close>

fun finalize_loop ::
    "'c env \<Rightarrow> 'c LayerOwned list \<Rightarrow> nat \<Rightarrow> nat \<Rightarrow> 'c LayerOwned list \<times> (PacketError, unit) outcome" where
  "finalize_loop env layers i 0 = (layers, Ok ())"
| "finalize_loop env layers i (Suc n) =
     (let prev = take i layers; rest = drop i layers in
      case rest of
        [] \<Rightarrow> (layers, Panic ''dev error: should never panic'')
      | layer # next \<Rightarrow>
          (case layer_finalize env layer prev next of (layer', r) \<Rightarrow>
           let layers' = prev @ layer' # next in
           try_in layers' (map_err PacketError_from r) (\<lambda>_.
           finalize_loop env layers' (Suc i) n)))"

definition Packet_finalize :: "'c env \<Rightarrow> 'c Packet \<Rightarrow> 'c Packet \<times> (PacketError, unit) outcome" where
  "Packet_finalize env self =
     (case finalize_loop env (pkt_layers self) 0 (length (pkt_layers self)) of (layers, r) \<Rightarrow>
      (self\<lparr>pkt_layers := layers\<rparr>, r))"

text \<open>\<open>layers\<close> and \<open>layers_mut\<close>: reading the slice, and storing a layer through the mutable one.\<close>

definition Packet_layers :: "'c Packet \<Rightarrow> 'c LayerOwned list" where
  "Packet_layers self = pkt_layers self"

definition Packet_layers_mut :: "'c Packet \<Rightarrow> nat \<Rightarrow> 'c LayerOwned \<Rightarrow> 'c Packet \<times> ('e, unit) outcome" where
  "Packet_layers_mut self i layer =
     (if i < length (pkt_layers self) then (self\<lparr>pkt_layers := (pkt_layers self)[i := layer]\<rparr>, Ok ())
      else (self, Panic index_msg))"

definition Packet_to_bytes :: "'c env \<Rightarrow> 'c Packet \<Rightarrow> (PacketError, bytes) outcome" where
  "Packet_to_bytes env self = map_err PacketError_from (layers_to_bytes env (pkt_layers self))"

section \<open>The packet parser\<close>

type_synonym 'c layer_parser = "bytes \<Rightarrow> (LayerError, bytes \<times> 'c LayerOwned) outcome"

type_synonym 'c LayerBinding = "'c LayerOwned \<Rightarrow> bytes \<Rightarrow> (PacketError, 'c layer_parser option) outcome"

record ('l, 'c) layer_type =
  lt_id :: TypeId
  lt_cast :: "'c LayerOwned \<Rightarrow> 'l option"
  lt_box :: "'l \<Rightarrow> 'c LayerOwned"
  lt_parse :: "bytes \<Rightarrow> (LayerError, bytes \<times> 'l) outcome"

text \<open>\<open>LayerExt::parse_layer\<close>.\<close>

definition parse_layer :: "('l, 'c) layer_type \<Rightarrow> 'c layer_parser" where
  "parse_layer T input = omap (\<lambda>(rest, layer). (rest, lt_box T layer)) (lt_parse T input)"

record 'c PacketParser =
  layer_bindings :: "TypeId \<Rightarrow> 'c LayerBinding list option"

definition without_bindings :: "'c PacketParser" where
  "without_bindings = \<lparr>layer_bindings = Map.empty\<rparr>"

definition binding_of :: "('l, 'c) layer_type \<Rightarrow> ('l \<Rightarrow> bytes \<Rightarrow> 'c layer_parser option) \<Rightarrow> 'c LayerBinding" where
  "binding_of T f current_layer rest = (case lt_cast T current_layer of
       None \<Rightarrow> Panic ''dev error: This is always Some''
     | Some l \<Rightarrow> Ok (f l rest))"

definition bind_layer ::
    "('l, 'c) layer_type \<Rightarrow> ('l \<Rightarrow> bytes \<Rightarrow> 'c layer_parser option) \<Rightarrow> 'c PacketParser \<Rightarrow> 'c PacketParser" where
  "bind_layer T f self =
     (let bindings = (case layer_bindings self (lt_id T) of None \<Rightarrow> [] | Some bs \<Rightarrow> bs) in
      self\<lparr>layer_bindings := (layer_bindings self)(lt_id T \<mapsto> bindings @ [binding_of T f])\<rparr>)"

text \<open>The search for the next parser: the first binding, in the order given, that returns one.\<close>

fun first_parser ::
    "'c LayerBinding list \<Rightarrow> 'c LayerOwned \<Rightarrow> bytes \<Rightarrow> (PacketError, 'c layer_parser option) outcome" where
  "first_parser [] current_layer rest = Ok None"
| "first_parser (cb # cbs) current_layer rest =
     obind (cb current_layer rest) (\<lambda>parser.
     case parser of Some p \<Rightarrow> Ok (Some p) | None \<Rightarrow> first_parser cbs current_layer rest)"

definition next_layer_parser ::
    "'c env \<Rightarrow> 'c PacketParser \<Rightarrow> 'c LayerOwned \<Rightarrow> bytes \<Rightarrow> (PacketError, 'c layer_parser option) outcome" where
  "next_layer_parser env self current_layer rest =
     (case layer_bindings self (type_id env current_layer) of
        Some callbacks \<Rightarrow> first_parser (rev callbacks) current_layer rest
      | None \<Rightarrow> Ok None)"

text \<open>The loop of \<open>parse_packet\<close>.\<close>

partial_function (option) parse_loop ::
    "'c env \<Rightarrow> 'c PacketParser \<Rightarrow> 'c LayerOwned list \<Rightarrow> 'c LayerOwned \<Rightarrow> bytes \<Rightarrow>
      (PacketError, bytes \<times> 'c Packet) outcome option" where
  "parse_loop env self layers current_layer rest =
     (if rest = [] then Some (Ok (rest, Packet_from_layers (layers @ [current_layer])))
      else case next_layer_parser env self current_layer rest of
          Ok None \<Rightarrow> Some (Ok (rest, Packet_from_layers (layers @ [current_layer])))
        | Ok (Some parser) \<Rightarrow>
            (case parser rest of
               Ok p \<Rightarrow> parse_loop env self (layers @ [current_layer]) (snd p) (fst p)
             | Err e \<Rightarrow> Some (Err (PacketError_from e))
             | Panic m \<Rightarrow> Some (Panic m)
             | Diverge \<Rightarrow> None)
        | Err e \<Rightarrow> Some (Err e)
        | Panic m \<Rightarrow> Some (Panic m)
        | Diverge \<Rightarrow> None)"

definition parse_packet ::
    "'c env \<Rightarrow> ('l, 'c) layer_type \<Rightarrow> 'c PacketParser \<Rightarrow> bytes \<Rightarrow>
      (PacketError, bytes \<times> 'c Packet) outcome option" where
  "parse_packet env T self input =
     (case lt_parse T input of
        Ok (rest, layer) \<Rightarrow> parse_loop env self [] (lt_box T layer) rest
      | Err e \<Rightarrow> Some (Err (PacketError_from e))
      | Panic m \<Rightarrow> Some (Panic m)
      | Diverge \<Rightarrow> None)"

section \<open>Layer types\<close>

text \<open>The downcast succeeds exactly on layers of the type, and undoes the boxing.\<close>

locale layer_kind =
  fixes env :: "'c env" and T :: "('l, 'c) layer_type"
  assumes cast_iff: "type_id env x = lt_id T \<longleftrightarrow> (\<exists>l. lt_cast T x = Some l)"
    and cast_box: "lt_cast T x = Some l \<Longrightarrow> x = lt_box T l"
    and parse_type: "lt_parse T input = Ok (rest, l) \<Longrightarrow> type_id env (lt_box T l) = lt_id T"
begin

lemma cast_parsed: "lt_parse T input = Ok (rest, l) \<Longrightarrow> \<exists>l'. lt_cast T (lt_box T l) = Some l'"
  using parse_type cast_iff by metis

lemma binding_of_Ok:
  "type_id env x = lt_id T \<Longrightarrow> \<exists>l. lt_cast T x = Some l \<and> binding_of T f x rest = Ok (f l rest)"
  using cast_iff by (auto simp: binding_of_def)

end

definition Ether_t :: "'c env \<Rightarrow> (Ether, 'c) layer_type" where
  "Ether_t env = \<lparr>lt_id = TEther, lt_cast = get_ether, lt_box = LEther,
     lt_parse = Ether_parse (env_pf env) (env_dk env)\<rparr>"

definition Raw_t :: "'c env \<Rightarrow> (Raw, 'c) layer_type" where
  "Raw_t env = \<lparr>lt_id = TRaw, lt_cast = get_raw, lt_box = LRaw,
     lt_parse = Raw_parse (env_pf env) (env_dk env)\<rparr>"

definition Ipv4_t :: "'c env \<Rightarrow> (Ipv4, 'c) layer_type" where
  "Ipv4_t env = \<lparr>lt_id = TIpv4, lt_cast = get_ipv4, lt_box = LIpv4,
     lt_parse = Ipv4_parse (env_pf env) (env_dk env)\<rparr>"

definition Ipv6_t :: "'c env \<Rightarrow> (Ipv6, 'c) layer_type" where
  "Ipv6_t env = \<lparr>lt_id = TIpv6, lt_cast = get_ipv6, lt_box = LIpv6,
     lt_parse = Ipv6_parse (env_pf env) (env_dk env)\<rparr>"

definition Icmp4_t :: "'c env \<Rightarrow> (Icmp4, 'c) layer_type" where
  "Icmp4_t env = \<lparr>lt_id = TIcmp4, lt_cast = get_icmp4, lt_box = LIcmp4,
     lt_parse = Icmp4_parse (env_pf env) (env_dk env)\<rparr>"

definition Udp_t :: "'c env \<Rightarrow> (Udp, 'c) layer_type" where
  "Udp_t env = \<lparr>lt_id = TUdp, lt_cast = get_udp, lt_box = LUdp,
     lt_parse = Udp_parse (env_pf env) (env_dk env)\<rparr>"

definition Tcp_t :: "'c env \<Rightarrow> (Tcp, 'c) layer_type" where
  "Tcp_t env = \<lparr>lt_id = TTcp, lt_cast = get_tcp, lt_box = LTcp,
     lt_parse = Tcp_parse (env_pf env) (env_dk env)\<rparr>"

lemmas layer_type_defs = Ether_t_def Raw_t_def Ipv4_t_def Ipv6_t_def Icmp4_t_def Udp_t_def Tcp_t_def

interpretation ether_k: layer_kind env "Ether_t env" for env
  by unfold_locales (auto simp: Ether_t_def elim: type_id.elims get_ether.elims)

interpretation raw_k: layer_kind env "Raw_t env" for env
  by unfold_locales (auto simp: Raw_t_def elim: type_id.elims get_raw.elims)

interpretation ipv4_k: layer_kind env "Ipv4_t env" for env
  by unfold_locales (auto simp: Ipv4_t_def elim: type_id.elims get_ipv4.elims)

interpretation ipv6_k: layer_kind env "Ipv6_t env" for env
  by unfold_locales (auto simp: Ipv6_t_def elim: type_id.elims get_ipv6.elims)

interpretation icmp4_k: layer_kind env "Icmp4_t env" for env
  by unfold_locales (auto simp: Icmp4_t_def elim: type_id.elims get_icmp4.elims)

interpretation udp_k: layer_kind env "Udp_t env" for env
  by unfold_locales (auto simp: Udp_t_def elim: type_id.elims get_udp.elims)

interpretation tcp_k: layer_kind env "Tcp_t env" for env
  by unfold_locales (auto simp: Tcp_t_def elim: type_id.elims get_tcp.elims)

section \<open>Parsers as policies\<close>

text \<open>
  The specification of a packet parser is a function from the current layer and the remaining bytes
  to the next parser, if any.  A parser resolves to the policy when the search through its bindings
  finds exactly that parser, without panicking.
\<close>

type_synonym 'c policy = "'c LayerOwned \<Rightarrow> bytes \<Rightarrow> 'c layer_parser option"

definition resolves :: "'c env \<Rightarrow> 'c PacketParser \<Rightarrow> 'c policy \<Rightarrow> bool" where
  "resolves env self pol \<longleftrightarrow> (\<forall>x rest. next_layer_parser env self x rest = Ok (pol x rest))"

definition override :: "('l, 'c) layer_type \<Rightarrow> ('l \<Rightarrow> bytes \<Rightarrow> 'c layer_parser option) \<Rightarrow> 'c policy \<Rightarrow> 'c policy" where
  "override T f pol x rest = (case lt_cast T x of
       None \<Rightarrow> pol x rest
     | Some l \<Rightarrow> (case f l rest of Some p \<Rightarrow> Some p | None \<Rightarrow> pol x rest))"

lemma resolves_without: "resolves env without_bindings (\<lambda>_ _. None)"
  by (simp add: resolves_def next_layer_parser_def without_bindings_def)

lemma resolves_bind:
  assumes T: "layer_kind env T" and pp: "resolves env self pol"
  shows "resolves env (bind_layer T f self) (override T f pol)"
  unfolding resolves_def
proof (intro allI)
  fix x rest
  have old: "next_layer_parser env self x rest = Ok (pol x rest)"
    using pp by (simp add: resolves_def)
  show "next_layer_parser env (bind_layer T f self) x rest = Ok (override T f pol x rest)"
  proof (cases "type_id env x = lt_id T")
    case True
    with layer_kind.binding_of_Ok [OF T] obtain l where "lt_cast T x = Some l" "binding_of T f x rest = Ok (f l rest)"
      by blast
    then show ?thesis
      using old True
      by (auto simp: next_layer_parser_def bind_layer_def override_def Let_def split: option.splits)
  next
    case False
    then have "lt_cast T x = None"
      using layer_kind.cast_iff [OF T, of x] by (cases "lt_cast T x") auto
    then show ?thesis
      using old False by (simp add: next_layer_parser_def bind_layer_def override_def Let_def)
  qed
qed

section \<open>The parse loop\<close>

text \<open>
  What a client's bindings owe for parsing to end and to lose nothing: a parser they name returns,
  takes at least one byte, and yields a layer that serialises to the bytes it took.
\<close>

locale parser_policy =
  fixes env :: "'c env" and self :: "'c PacketParser" and pol :: "'c policy"
  assumes resolves: "resolves env self pol"
    and pol_returns: "rest \<noteq> [] \<Longrightarrow> pol x rest = Some p \<Longrightarrow> returns (p rest)"
    and pol_lossless: "rest \<noteq> [] \<Longrightarrow> pol x rest = Some p \<Longrightarrow> p rest = Ok (rest', l) \<Longrightarrow>
      \<exists>b. to_bytes env l = Ok b \<and> rest = b @ rest' \<and> b \<noteq> []"
begin

lemma loop_step:
  "parse_loop env self layers cur rest = (if rest = [] then Some (Ok (rest, Packet_from_layers (layers @ [cur])))
     else case pol cur rest of
         None \<Rightarrow> Some (Ok (rest, Packet_from_layers (layers @ [cur])))
       | Some p \<Rightarrow> (case p rest of
           Ok q \<Rightarrow> parse_loop env self (layers @ [cur]) (snd q) (fst q)
         | Err e \<Rightarrow> Some (Err (PacketError_from e))
         | Panic m \<Rightarrow> Some (Panic m)
         | Diverge \<Rightarrow> None))"
  using resolves by (subst parse_loop.simps) (simp add: resolves_def)

lemma loop_sound:
  "\<exists>r. parse_loop env self layers cur rest = Some r \<and> (case r of
     Ok (rest', pkt) \<Rightarrow> \<exists>ls bs. pkt_layers pkt = layers @ cur # ls \<and> concat_bytes env ls = Ok bs \<and> rest = bs @ rest'
   | Err e \<Rightarrow> True | _ \<Rightarrow> False)"
proof (induction "length rest" arbitrary: layers cur rest rule: less_induct)
  case less
  show ?case
  proof (cases "rest = [] \<or> pol cur rest = None")
    case True
    then have "parse_loop env self layers cur rest = Some (Ok (rest, Packet_from_layers (layers @ [cur])))"
      by (subst loop_step) auto
    then show ?thesis by (simp add: Packet_from_layers_def)
  next
    case False
    then obtain p where ne: "rest \<noteq> []" and p: "pol cur rest = Some p" by auto
    show ?thesis
    proof (cases "p rest")
      case (Ok q)
      obtain rest1 l where q: "q = (rest1, l)" by (cases q)
      from pol_lossless [OF ne p Ok [unfolded q]] obtain b
        where b: "to_bytes env l = Ok b" "rest = b @ rest1" "b \<noteq> []" by blast
      then have "length rest1 < length rest" by simp
      from less.hyps [OF this, of "layers @ [cur]" l] obtain r where
          r: "parse_loop env self (layers @ [cur]) l rest1 = Some r" and
          post: "case r of Ok (rest', pkt) \<Rightarrow> \<exists>ls bs. pkt_layers pkt = (layers @ [cur]) @ l # ls \<and>
              concat_bytes env ls = Ok bs \<and> rest1 = bs @ rest' | Err e \<Rightarrow> True | _ \<Rightarrow> False"
        by blast
      have step: "parse_loop env self layers cur rest = Some r"
        using ne p Ok q r by (subst loop_step) simp
      show ?thesis
      proof (cases r)
        case rok: (Ok s)
        obtain rest' pkt where s: "s = (rest', pkt)" by (cases s)
        with rok post obtain ls bs where "pkt_layers pkt = layers @ cur # l # ls"
            "concat_bytes env ls = Ok bs" "rest1 = bs @ rest'" by auto
        then show ?thesis
          using step rok s b by (intro exI [where x = r]) (auto intro!: exI [where x = "l # ls"])
      qed (use step post in auto)
    next
      case (Err e)
      then show ?thesis using ne p by (subst loop_step) simp
    qed (use pol_returns [OF ne p] in simp_all)
  qed
qed

end

section \<open>Finalising a packet\<close>

text \<open>The reference: finalise the layers from front to back, each between its finalised predecessors and its successors.\<close>

fun finalize_from ::
    "'c env \<Rightarrow> 'c LayerOwned list \<Rightarrow> 'c LayerOwned list \<Rightarrow> 'c LayerOwned list \<times> (PacketError, unit) outcome" where
  "finalize_from env prev [] = (prev, Ok ())"
| "finalize_from env prev (layer # next) =
     (case layer_finalize env layer prev next of
        (layer', Ok _) \<Rightarrow> finalize_from env (prev @ [layer']) next
      | (layer', Err e) \<Rightarrow> (prev @ layer' # next, Err (PacketError_from e))
      | (layer', Panic m) \<Rightarrow> (prev @ layer' # next, Panic m)
      | (layer', Diverge) \<Rightarrow> (prev @ layer' # next, Diverge))"

lemma finalize_loop_from:
  "finalize_loop env (prev @ rest) (length prev) (length rest) = finalize_from env prev rest"
proof (induction rest arbitrary: prev)
  case (Cons layer "next")
  obtain layer' r where "layer_finalize env layer prev next = (layer', r)"
    by fastforce
  with Cons [of "prev @ [layer']"] show ?case
    by (cases r) simp_all
qed simp

text \<open>Layer by layer: \<open>k\<close> layers are finalised, and the next one, if there is one, fails.\<close>

lemma finalize_from_spec:
  assumes "finalize_from env prev rest = (ls', r)"
  shows "\<exists>ks. ls' = prev @ ks \<and> length ks = length rest \<and> (\<exists>k \<le> length rest.
    (\<forall>i < k. layer_finalize env (rest ! i) (prev @ take i ks) (drop (Suc i) rest) = (ks ! i, Ok ())) \<and>
    drop (Suc k) ks = drop (Suc k) rest \<and>
    (if k = length rest then r = Ok ()
     else \<exists>f. layer_finalize env (rest ! k) (prev @ take k ks) (drop (Suc k) rest) = (ks ! k, f) \<and> f \<noteq> Ok () \<and>
       r = map_err PacketError_from f))"
  using assms
proof (induction rest arbitrary: prev)
  case (Cons l ls)
  obtain l' f where f: "layer_finalize env l prev ls = (l', f)" by fastforce
  show ?case
  proof (cases "f = Ok ()")
    case True
    with Cons.prems f have "finalize_from env (prev @ [l']) ls = (ls', r)" by simp
    from Cons.IH [OF this, unfolded append_assoc append_Cons append_Nil] obtain ks k where ks: "ls' = prev @ l' # ks" "length ks = length ls" "k \<le> length ls"
        "\<forall>i < k. layer_finalize env (ls ! i) (prev @ l' # take i ks) (drop (Suc i) ls) = (ks ! i, Ok ())"
        "drop (Suc k) ks = drop (Suc k) ls"
        "if k = length ls then r = Ok () else \<exists>f. layer_finalize env (ls ! k) (prev @ l' # take k ks) (drop (Suc k) ls) = (ks ! k, f) \<and>
          f \<noteq> Ok () \<and> r = map_err PacketError_from f"
      by blast
    then show ?thesis
      using f True by (intro exI [where x = "l' # ks"] conjI exI [where x = "Suc k"]) (auto simp: less_Suc_eq_0_disj)
  next
    case False
    with Cons.prems f have "ls' = prev @ l' # ls" "r = map_err PacketError_from f"
      by (cases f; simp)+
    then show ?thesis
      using f False by (intro exI [where x = "l' # ls"] conjI exI [where x = 0]) auto
  qed
qed simp


lemma Packet_finalize_from:
  "Packet_finalize env pkt = (case finalize_from env [] (pkt_layers pkt) of (layers, r) \<Rightarrow>
     (pkt\<lparr>pkt_layers := layers\<rparr>, r))"
  using finalize_loop_from [of env "[]" "pkt_layers pkt"] by (simp add: Packet_finalize_def)

context packet_env
begin

lemma layer_finalize_type: "type_id env (fst (layer_finalize env l prev next)) = type_id env l"
  by (cases l) (simp_all add: client.client_finalize_type)

lemma finalize_from_types:
  "map (type_id env) (fst (finalize_from env prev rest)) = map (type_id env) prev @ map (type_id env) rest"
proof (induction rest arbitrary: prev)
  case (Cons layer "next")
  obtain layer' r where l: "layer_finalize env layer prev next = (layer', r)"
    by fastforce
  then have "type_id env layer' = type_id env layer"
    using layer_finalize_type [of layer prev "next"] by simp
  with l Cons [of "prev @ [layer']"] show ?case
    by (cases r) simp_all
qed simp

end

lemma Packet_to_bytes_returns: "packet_env env \<Longrightarrow> returns (Packet_to_bytes env p)"
  using packet_env.concat_bytes_returns [of env "pkt_layers p"]
  by (cases "concat_bytes env (pkt_layers p)") (simp_all add: Packet_to_bytes_def layers_to_bytes_eq)

section \<open>Properties\<close>

text \<open>
  (C29) Binding a function \<open>f\<close> to a layer type gives a parser that behaves like \<open>f\<close> on layers of the
  type where \<open>f\<close> returns a parser and like the parser before everywhere else: later bindings override
  earlier ones, and the downcast in the binding never panics.
\<close>

theorem bind_layer_overrides:
  assumes "layer_kind env T" and "resolves env self pol"
  shows "next_layer_parser env (bind_layer T f self) x rest = Ok (case lt_cast T x of
      None \<Rightarrow> pol x rest
    | Some l \<Rightarrow> (case f l rest of Some p \<Rightarrow> Some p | None \<Rightarrow> pol x rest))"
  using resolves_bind [OF assms, of f] by (simp add: resolves_def override_def)

theorem bind_layer_overrides_witness:
  "layer_kind dev_env (Udp_t dev_env) \<and> resolves dev_env without_bindings (\<lambda>_ _. None) \<and>
   next_layer_parser dev_env (bind_layer (Udp_t dev_env) (\<lambda>u rest. Some (parse_layer (Raw_t dev_env))) without_bindings)
     (LUdp Udp_default) [1] = Ok (Some (parse_layer (Raw_t dev_env)))"
proof -
  have k: "layer_kind dev_env (Udp_t dev_env)" by unfold_locales
  from k resolves_without bind_layer_overrides [OF k resolves_without,
      of "\<lambda>u rest. Some (parse_layer (Raw_t dev_env))" "LUdp Udp_default" "[1]"]
  show ?thesis by (simp add: Udp_t_def)
qed

text \<open>
  (C8) Parsing a packet ends, returns, and loses nothing for every parser whose bindings name parsers
  that return, take at least one byte, and serialise back to the bytes they took: a packet it returns
  consists of the first layer and layers whose bytes, followed by the rest returned, are exactly the
  bytes after the first layer.
\<close>

theorem parse_packet_lossless:
  assumes "parser_policy env self pol"
  shows "case lt_parse T input of
     Ok (rest, l) \<Rightarrow> \<exists>r. parse_packet env T self input = Some r \<and> (case r of
         Ok (rest', pkt) \<Rightarrow> \<exists>ls bs. pkt_layers pkt = lt_box T l # ls \<and> layers_to_bytes env ls = Ok bs \<and> rest = bs @ rest'
       | Err e \<Rightarrow> True | _ \<Rightarrow> False)
   | Err e \<Rightarrow> parse_packet env T self input = Some (Err (PacketError_from e))
   | Panic m \<Rightarrow> parse_packet env T self input = Some (Panic m)
   | Diverge \<Rightarrow> parse_packet env T self input = None"
proof (cases "lt_parse T input")
  case (Ok p)
  then obtain rest l where p: "p = (rest, l)" by (cases p)
  with parser_policy.loop_sound [OF assms, of "[]" "lt_box T l" rest, folded layers_to_bytes_eq, unfolded append_Nil] Ok show ?thesis
    by (simp add: parse_packet_def)
qed (simp_all add: parse_packet_def)

lemma without_bindings_policy: "parser_policy env without_bindings (\<lambda>_ _. None)"
  by unfold_locales (simp_all add: resolves_without)

theorem parse_packet_lossless_witness:
  "parser_policy dev_env without_bindings (\<lambda>_ _. None) \<and>
   (case lt_parse (Udp_t dev_env) (Udp_bytes Udp_default @ [7]) of
     Ok (rest, l) \<Rightarrow> \<exists>r. parse_packet dev_env (Udp_t dev_env) without_bindings (Udp_bytes Udp_default @ [7]) = Some r
   | _ \<Rightarrow> False)"
proof -
  have "Udp_parse dev_profile ref_deku (Udp_bytes Udp_default @ [7]) = Ok ([7], Udp_default)"
    using layer_codec.reparse_Ok [OF fixed_header.axioms(1) [OF ref.udp_header] TrueI ref.Udp_to_bytes_eq TrueI] .
  then show ?thesis
    using parse_packet_lossless [OF without_bindings_policy [of dev_env], of "Udp_t dev_env" "Udp_bytes Udp_default @ [7]"]
      without_bindings_policy [of dev_env] by (auto simp: Udp_t_def)
qed

text \<open>A parser with a binding that consumes nothing.\<close>

definition stuck_parser :: "'c env \<Rightarrow> 'c PacketParser" where
  "stuck_parser env = bind_layer (Ether_t env) (\<lambda>_ rest. Some (\<lambda>input. Ok (input, LEther Ether_default))) without_bindings"

lemma stuck_resolves:
  "resolves env (stuck_parser env) (override (Ether_t env) (\<lambda>_ rest. Some (\<lambda>input. Ok (input, LEther Ether_default))) (\<lambda>_ _. None))"
  unfolding stuck_parser_def by (rule resolves_bind [OF ether_k.layer_kind_axioms resolves_without])

lemma stuck_loop:
  assumes "parse_loop env self layers cur rest = Some r" and "self = stuck_parser env" and "cur = LEther e"
  shows "rest = []"
proof -
  have "self = stuck_parser env \<longrightarrow> (\<exists>e. cur = LEther e) \<longrightarrow> rest = []"
    using _ assms(1)
  proof (rule parse_loop.raw_induct
      [where P = "\<lambda>env self layers cur rest r. self = stuck_parser env \<longrightarrow> (\<exists>e. cur = LEther e) \<longrightarrow> rest = []"])
    fix loop :: "'a env \<Rightarrow> 'a PacketParser \<Rightarrow> 'a LayerOwned list \<Rightarrow> 'a LayerOwned \<Rightarrow> bytes \<Rightarrow>
      (PacketError, bytes \<times> 'a Packet) outcome option"
      and env :: "'a env" and self layers cur rest r
    assume IH: "\<And>env self layers cur rest r. loop env self layers cur rest = Some r \<Longrightarrow>
        self = stuck_parser env \<longrightarrow> (\<exists>e. cur = LEther e) \<longrightarrow> rest = []"
      and body: "(if rest = [] then Some (Ok (rest, Packet_from_layers (layers @ [cur])))
        else case next_layer_parser env self cur rest of
            Ok None \<Rightarrow> Some (Ok (rest, Packet_from_layers (layers @ [cur])))
          | Ok (Some parser) \<Rightarrow> (case parser rest of
               Ok p \<Rightarrow> loop env self (layers @ [cur]) (snd p) (fst p)
             | Err e \<Rightarrow> Some (Err (PacketError_from e)) | Panic m \<Rightarrow> Some (Panic m) | Diverge \<Rightarrow> None)
          | Err e \<Rightarrow> Some (Err e) | Panic m \<Rightarrow> Some (Panic m) | Diverge \<Rightarrow> None) = Some r"
    show "self = stuck_parser env \<longrightarrow> (\<exists>e. cur = LEther e) \<longrightarrow> rest = []"
    proof (intro impI, rule ccontr)
      assume "self = stuck_parser env" and "\<exists>e. cur = LEther e" and "rest \<noteq> []"
      then obtain e where e: "self = stuck_parser env" "cur = LEther e" by blast
      then have "next_layer_parser env self cur rest = Ok (Some (\<lambda>input. Ok (input, LEther Ether_default)))"
        using stuck_resolves [of env] by (simp add: resolves_def override_def Ether_t_def)
      with body \<open>rest \<noteq> []\<close> have "loop env self (layers @ [cur]) (LEther Ether_default) rest = Some r"
        by simp
      from IH [OF this] e(1) \<open>rest \<noteq> []\<close> show False by blast
    qed
  qed
  with assms(2,3) show ?thesis by blast
qed

text \<open>
  (C35) The parse loop does not protect itself against bindings that consume nothing: with a binding on
  \<open>Ether\<close> whose parser returns a default \<open>Ether\<close> layer and all of its input (as the parser of the example
  in the documentation of \<open>bind_layer\<close> does), parsing a frame with a payload does not return.
\<close>

theorem parse_packet_may_diverge:
  assumes "deku_laws (env_dk env)" and "14 < length input"
  shows "parse_packet env (Ether_t env) (stuck_parser env) input = None"
proof -
  from fixed_header.parse_enough [OF deku_laws.ether_header [OF assms(1)], of input] assms(2)
  obtain e where e: "Ether_parse (env_pf env) (env_dk env) input = Ok (drop 14 input, e)"
    by fastforce
  moreover have "parse_loop env (stuck_parser env) [] (LEther e) (drop 14 input) = None"
    using stuck_loop [of env "stuck_parser env" "[]" "LEther e" "drop 14 input"] assms(2)
    by (cases "parse_loop env (stuck_parser env) [] (LEther e) (drop 14 input)") auto
  ultimately show ?thesis
    by (simp add: parse_packet_def Ether_t_def)
qed

theorem parse_packet_may_diverge_witness:
  "deku_laws (env_dk dev_env) \<and> parse_packet dev_env (Ether_t dev_env) (stuck_parser dev_env) (replicate 15 0) = None"
  using parse_packet_may_diverge [of dev_env "replicate 15 0"] ref.deku_laws_axioms by simp

text \<open>
  (C16) \<open>Packet::finalize\<close> finalises the layers from front to back, each once: layer \<open>i\<close> sees exactly the layers before it, in
  order and already finalised, and exactly the layers after it, in order and untouched.  It stops at the first
  layer \<open>k\<close> whose \<open>finalize\<close> does not succeed and reports its error; that layer is left as its \<open>finalize\<close> left it, and the
  layers after it as they were.  No layer is added, removed or moved, and the loop has no failure of its own.
\<close>

theorem finalize_front_to_back:
  "\<exists>ls' r k. Packet_finalize env (Packet_from_layers ls) = (Packet_from_layers ls', r) \<and>
    length ls' = length ls \<and> k \<le> length ls \<and>
    (\<forall>i < k. layer_finalize env (ls ! i) (take i ls') (drop (Suc i) ls) = (ls' ! i, Ok ())) \<and>
    drop (Suc k) ls' = drop (Suc k) ls \<and>
    (if k = length ls then r = Ok ()
     else \<exists>f. layer_finalize env (ls ! k) (take k ls') (drop (Suc k) ls) = (ls' ! k, f) \<and> f \<noteq> Ok () \<and>
       r = map_err PacketError_from f)"
proof -
  obtain ls' r where run: "finalize_from env [] ls = (ls', r)" by fastforce
  then have "Packet_finalize env (Packet_from_layers ls) = (Packet_from_layers ls', r)"
    by (simp add: Packet_finalize_from Packet_from_layers_def)
  with finalize_from_spec [OF run, unfolded append_Nil] show ?thesis by blast
qed

text \<open>Two layers whose \<open>finalize\<close> does nothing: neither is the first to fail, so both are finalised.\<close>

theorem finalize_front_to_back_witness:
  "Packet_finalize dev_env (Packet_from_layers [LEther Ether_default, LRaw Raw_default])
    = (Packet_from_layers [LEther Ether_default, LRaw Raw_default], Ok ())"
proof -
  define ls :: "unit LayerOwned list" where "ls = [LEther Ether_default, LRaw Raw_default]"
  have len: "length ls = 2" by (simp add: ls_def)
  have fin: "layer_finalize dev_env (ls ! i) prev next = (ls ! i, Ok ())" if "i < 2" for i prev "next"
    using that by (auto simp: ls_def less_2_cases_iff Ether_finalize_def Raw_finalize_def)
  from finalize_front_to_back [of dev_env ls, unfolded len] obtain ls' r k where
      run: "Packet_finalize dev_env (Packet_from_layers ls) = (Packet_from_layers ls', r)"
      and shape: "length ls' = 2" "k \<le> 2"
      and pointwise: "\<forall>i < k. layer_finalize dev_env (ls ! i) (take i ls') (drop (Suc i) ls) = (ls' ! i, Ok ())"
      and stop: "if k = 2 then r = Ok () else \<exists>f. layer_finalize dev_env (ls ! k) (take k ls') (drop (Suc k) ls) = (ls' ! k, f) \<and>
        f \<noteq> Ok () \<and> r = map_err PacketError_from f"
    by blast
  have "k = 2"
    using stop fin [of k] shape(2) by (cases "k = 2") auto
  with pointwise fin have "ls' ! i = ls ! i" if "i < 2" for i
    using that by auto
  with len shape(1) have "ls' = ls"
    by (intro nth_equalityI) simp_all
  with run stop \<open>k = 2\<close> show ?thesis by (simp add: ls_def)
qed

end
