(* ===== verification/Bindings.thy ===== *)
theory Bindings
  imports Packet
begin

text \<open>
  \<open>src/packet/bindings.rs\<close>: the default packet parser.  Its specification is the table of the module's
  documentation: \<open>next_kind\<close> names the type of the layer that follows a given layer.
\<close>

section \<open>The default parser\<close>

definition create_packetparser :: "'c env \<Rightarrow> 'c PacketParser" where
  "create_packetparser env =
     (let pb = without_bindings;
          pb = bind_layer (Ether_t env) (\<lambda>ether _.
            if ether_type ether = IPv4 then Some (parse_layer (Ipv4_t env))
            else if ether_type ether = IPv6 then Some (parse_layer (Ipv6_t env))
            else Some (parse_layer (Raw_t env))) pb;
          pb = bind_layer (Ipv4_t env) (\<lambda>ipv4 _.
            if ip4_protocol ipv4 = TCP then Some (parse_layer (Tcp_t env))
            else if ip4_protocol ipv4 = UDP then Some (parse_layer (Udp_t env))
            else if ip4_protocol ipv4 = ICMP then Some (parse_layer (Icmp4_t env))
            else Some (parse_layer (Raw_t env))) pb;
          pb = bind_layer (Ipv6_t env) (\<lambda>ipv6 _.
            if ip6_next_header ipv6 = TCP then Some (parse_layer (Tcp_t env))
            else if ip6_next_header ipv6 = UDP then Some (parse_layer (Udp_t env))
            else Some (parse_layer (Raw_t env))) pb;
          pb = bind_layer (Tcp_t env) (\<lambda>_ _. Some (parse_layer (Raw_t env))) pb;
          pb = bind_layer (Udp_t env) (\<lambda>_ _. Some (parse_layer (Raw_t env))) pb
      in pb)"

definition PacketParser_default :: "'c env \<Rightarrow> 'c PacketParser" where
  "PacketParser_default env = create_packetparser env"

definition PacketParser_new :: "'c env \<Rightarrow> 'c PacketParser" where
  "PacketParser_new env = PacketParser_default env"

section \<open>The table\<close>

fun next_kind :: "'c LayerOwned \<Rightarrow> TypeId option" where
  "next_kind (LEther e) = Some (if ether_type e = IPv4 then TIpv4 else if ether_type e = IPv6 then TIpv6 else TRaw)"
| "next_kind (LIpv4 v) = Some (if ip4_protocol v = TCP then TTcp else if ip4_protocol v = UDP then TUdp
     else if ip4_protocol v = ICMP then TIcmp4 else TRaw)"
| "next_kind (LIpv6 v) = Some (if ip6_next_header v = TCP then TTcp else if ip6_next_header v = UDP then TUdp else TRaw)"
| "next_kind (LTcp t) = Some TRaw"
| "next_kind (LUdp u) = Some TRaw"
| "next_kind (LRaw r) = None"
| "next_kind (LIcmp4 i) = None"
| "next_kind (LCustom c) = None"

fun kind_parser :: "'c env \<Rightarrow> TypeId \<Rightarrow> 'c layer_parser" where
  "kind_parser env TEther = parse_layer (Ether_t env)"
| "kind_parser env TRaw = parse_layer (Raw_t env)"
| "kind_parser env TIpv4 = parse_layer (Ipv4_t env)"
| "kind_parser env TIpv6 = parse_layer (Ipv6_t env)"
| "kind_parser env TIcmp4 = parse_layer (Icmp4_t env)"
| "kind_parser env TUdp = parse_layer (Udp_t env)"
| "kind_parser env TTcp = parse_layer (Tcp_t env)"
| "kind_parser env (TCustom n) = (\<lambda>_. Diverge)"

fun crate_kind :: "TypeId \<Rightarrow> bool" where
  "crate_kind (TCustom n) = False"
| "crate_kind t = True"

lemma next_kind_crate: "next_kind x = Some t \<Longrightarrow> crate_kind t"
  by (cases x) (auto split: if_splits)

definition default_policy :: "'c env \<Rightarrow> 'c policy" where
  "default_policy env x rest = map_option (kind_parser env) (next_kind x)"

text \<open>The layers follow each other as the table says.\<close>

fun linked :: "'c env \<Rightarrow> 'c LayerOwned list \<Rightarrow> bool" where
  "linked env (x # y # ls) \<longleftrightarrow> next_kind x = Some (type_id env y) \<and> linked env (y # ls)"
| "linked env ls \<longleftrightarrow> True"

text \<open>Layers that are read back as they were written, and are there at all.\<close>

fun layer_wf :: "'c LayerOwned \<Rightarrow> bool" where
  "layer_wf (LEther e) = Ether_wf e"
| "layer_wf (LRaw r) \<longleftrightarrow> Raw_wf r \<and> raw_data r \<noteq> []"
| "layer_wf (LIpv4 v) = Ipv4_wf v"
| "layer_wf (LIpv6 v) = Ipv6_wf v"
| "layer_wf (LIcmp4 i) = Icmp4_wf i"
| "layer_wf (LUdp u) = True"
| "layer_wf (LTcp t) = Tcp_wf t"
| "layer_wf (LCustom c) = False"

lemma create_packetparser_resolves: "resolves env (create_packetparser env) (default_policy env)"
proof -
  note binds = resolves_bind [OF udp_k.layer_kind_axioms] resolves_bind [OF tcp_k.layer_kind_axioms]
    resolves_bind [OF ipv6_k.layer_kind_axioms] resolves_bind [OF ipv4_k.layer_kind_axioms]
    resolves_bind [OF ether_k.layer_kind_axioms]
  obtain pol where pol: "resolves env (create_packetparser env) pol" and "\<And>x rest. pol x rest = default_policy env x rest"
  proof
    show "resolves env (create_packetparser env) (override (Udp_t env) (\<lambda>_ _. Some (parse_layer (Raw_t env)))
      (override (Tcp_t env) (\<lambda>_ _. Some (parse_layer (Raw_t env)))
      (override (Ipv6_t env) (\<lambda>ipv6 _.
            if ip6_next_header ipv6 = TCP then Some (parse_layer (Tcp_t env))
            else if ip6_next_header ipv6 = UDP then Some (parse_layer (Udp_t env))
            else Some (parse_layer (Raw_t env)))
      (override (Ipv4_t env) (\<lambda>ipv4 _.
            if ip4_protocol ipv4 = TCP then Some (parse_layer (Tcp_t env))
            else if ip4_protocol ipv4 = UDP then Some (parse_layer (Udp_t env))
            else if ip4_protocol ipv4 = ICMP then Some (parse_layer (Icmp4_t env))
            else Some (parse_layer (Raw_t env)))
      (override (Ether_t env) (\<lambda>ether _.
            if ether_type ether = IPv4 then Some (parse_layer (Ipv4_t env))
            else if ether_type ether = IPv6 then Some (parse_layer (Ipv6_t env))
            else Some (parse_layer (Raw_t env))) (\<lambda>_ _. None))))))" (is "resolves _ _ ?pol")
      unfolding create_packetparser_def Let_def by (intro binds resolves_without)
    show "?pol x rest = default_policy env x rest" for x rest
      by (cases x) (simp_all add: override_def default_policy_def layer_type_defs)
  qed
  then show ?thesis by (simp add: resolves_def)
qed

section \<open>The parsers of the table\<close>

lemma codec_Ok:
  assumes "layer_codec p tb good tail" and "good l"
  shows "\<exists>b. tb l = Ok b"
  using layer_codec.reparse [OF assms] by blast

lemma parse_layer_codec:
  assumes codec: "layer_codec (lt_parse T) tb good tail" and box: "\<And>l. to_bytes env (lt_box T l) = tb l"
  shows "returns (parse_layer T input)"
    and "parse_layer T input = Ok (rest, x) \<Longrightarrow> \<exists>l b. x = lt_box T l \<and> to_bytes env x = Ok b \<and> input = b @ rest"
    and "good l \<Longrightarrow> to_bytes env (lt_box T l) = Ok b \<Longrightarrow> tail rest \<Longrightarrow> parse_layer T (b @ rest) = Ok (rest, lt_box T l)"
proof -
  show "returns (parse_layer T input)"
    using layer_codec.parse_returns [OF codec] by (simp add: parse_layer_def)
  show "\<exists>l b. x = lt_box T l \<and> to_bytes env x = Ok b \<and> input = b @ rest" if "parse_layer T input = Ok (rest, x)"
    using that layer_codec.parse_lossless [OF codec, of input] box
    by (auto simp: parse_layer_def outcome_simps)
  show "parse_layer T (b @ rest) = Ok (rest, lt_box T l)" if "good l" "to_bytes env (lt_box T l) = Ok b" "tail rest"
    using layer_codec.reparse_Ok [OF codec that(1) _ that(3)] that(2) box by (simp add: parse_layer_def)
qed

context packet_env
begin

lemma ether_codec: "layer_codec (lt_parse (Ether_t env)) (Ether_to_bytes (env_dk env)) Ether_wf (\<lambda>_. True)"
  using fixed_header.axioms(1) [OF deku.ether_header] by (simp add: Ether_t_def)

lemma ipv6_codec: "layer_codec (lt_parse (Ipv6_t env)) (Ipv6_to_bytes (env_dk env)) Ipv6_wf (\<lambda>_. True)"
  using fixed_header.axioms(1) [OF deku.ipv6_header] by (simp add: Ipv6_t_def)

lemma udp_codec: "layer_codec (lt_parse (Udp_t env)) (Udp_to_bytes (env_dk env)) (\<lambda>_. True) (\<lambda>_. True)"
  using fixed_header.axioms(1) [OF deku.udp_header] by (simp add: Udp_t_def)

lemma ipv4_codec': "layer_codec (lt_parse (Ipv4_t env)) (Ipv4_to_bytes (env_dk env)) Ipv4_wf (\<lambda>_. True)"
  using deku.ipv4_codec by (simp add: Ipv4_t_def)

lemma tcp_codec': "layer_codec (lt_parse (Tcp_t env)) (Tcp_to_bytes (env_dk env)) Tcp_wf (\<lambda>_. True)"
  using deku.tcp_codec by (simp add: Tcp_t_def)

lemma icmp4_codec': "layer_codec (lt_parse (Icmp4_t env)) (Icmp4_to_bytes (env_dk env)) Icmp4_wf (\<lambda>rest. rest = [])"
  using deku.icmp4_codec by (simp add: Icmp4_t_def)

lemma raw_codec': "layer_codec (lt_parse (Raw_t env)) (Raw_to_bytes (env_dk env)) Raw_wf (\<lambda>rest. rest = [])"
  using deku.raw_codec by (simp add: Raw_t_def)

lemmas codecs = ether_codec ipv6_codec udp_codec ipv4_codec' tcp_codec' icmp4_codec' raw_codec'

lemma lt_box_simps [simp]:
  "lt_box (Ether_t env) = LEther" "lt_box (Raw_t env) = LRaw" "lt_box (Ipv4_t env) = LIpv4" "lt_box (Ipv6_t env) = LIpv6"
  "lt_box (Icmp4_t env) = LIcmp4" "lt_box (Udp_t env) = LUdp" "lt_box (Tcp_t env) = LTcp"
  by (simp_all add: layer_type_defs)

lemma kind_returns: "crate_kind t \<Longrightarrow> returns (kind_parser env t input)"
  using codecs [THEN parse_layer_codec(1) [where env = env]]
  by (cases t) simp_all

lemma to_bytes_nonempty:
  assumes "to_bytes env l = Ok b" and "b = []"
  shows "(\<exists>r. l = LRaw r) \<or> (\<exists>c. l = LCustom c)"
  using assms deku.Ipv4_to_bytes_length deku.Tcp_to_bytes_length deku.Icmp4_to_bytes_length
    fixed_header.to_bytes_length [OF deku.ether_header] fixed_header.to_bytes_length [OF deku.ipv6_header]
    fixed_header.to_bytes_length [OF deku.udp_header]
  by (cases l) (fastforce simp: Ipv4_bits_def Tcp_bits_def)+

lemma kind_lossless:
  assumes "crate_kind t" and "kind_parser env t input = Ok (rest, x)"
  shows "type_id env x = t \<and> (\<exists>b. to_bytes env x = Ok b \<and> input = b @ rest)"
  using assms parse_layer_codec(2) [OF ether_codec, of env input rest x]
    parse_layer_codec(2) [OF ipv6_codec, of env input rest x] parse_layer_codec(2) [OF udp_codec, of env input rest x]
    parse_layer_codec(2) [OF ipv4_codec', of env input rest x] parse_layer_codec(2) [OF tcp_codec', of env input rest x]
    parse_layer_codec(2) [OF icmp4_codec', of env input rest x] parse_layer_codec(2) [OF raw_codec', of env input rest x]
  by (cases t) auto

lemma kind_rest:
  assumes "crate_kind t" and "kind_parser env t input = Ok (rest, x)" and "next_kind x = None"
  shows "rest = []"
proof -
  have "Icmp4_parse (env_pf env) (env_dk env) input = Ok (rest', i) \<Longrightarrow> rest' = []" for rest' i
    using deku.Icmp4_parse_short [of input "env_pf env"] deku.Icmp4_parse_enough [of input "env_pf env"]
    by (cases "length input < 8") auto
  then show ?thesis
    using assms
    by (cases t) (auto simp: parse_layer_def outcome_simps layer_type_defs deku.Raw_parse_eq)
qed

lemma kind_progress:
  assumes t: "crate_kind t" and p: "kind_parser env t input = Ok (rest, x)" and "input \<noteq> []"
  shows "\<exists>b. to_bytes env x = Ok b \<and> input = b @ rest \<and> b \<noteq> []"
proof -
  from kind_lossless [OF t p] obtain b where ty: "type_id env x = t" and b: "to_bytes env x = Ok b" "input = b @ rest"
    by blast
  have "b \<noteq> []"
  proof
    assume "b = []"
    from to_bytes_nonempty [OF b(1) this] ty t have "next_kind x = None" by auto
    from kind_rest [OF t p this] b(2) \<open>b = []\<close> \<open>input \<noteq> []\<close> show False by simp
  qed
  with b show ?thesis by blast
qed

lemma default_parser_policy: "parser_policy env (create_packetparser env) (default_policy env)"
proof
  show "resolves env (create_packetparser env) (default_policy env)"
    by (rule create_packetparser_resolves)
next
  fix rest x p assume "default_policy env x rest = Some p"
  then show "returns (p rest)"
    using kind_returns next_kind_crate by (fastforce simp: default_policy_def)
next
  fix rest x p rest' l assume "rest \<noteq> []" "default_policy env x rest = Some p" "p rest = Ok (rest', l)"
  then show "\<exists>b. to_bytes env l = Ok b \<and> rest = b @ rest' \<and> b \<noteq> []"
    using kind_progress next_kind_crate by (fastforce simp: default_policy_def)
qed

text \<open>The default parser goes on to the end of the input along the table.\<close>

lemma default_loop:
  assumes "next_kind cur = None \<Longrightarrow> rest = []"
  shows "\<exists>r. parse_loop env (create_packetparser env) layers cur rest = Some r \<and> (case r of
     Ok (rest', pkt) \<Rightarrow> rest' = [] \<and> (\<exists>ls. pkt_layers pkt = layers @ cur # ls \<and> linked env (cur # ls))
   | Err e \<Rightarrow> True | _ \<Rightarrow> False)"
  using assms
proof (induction "length rest" arbitrary: layers cur rest rule: less_induct)
  case less
  note step = parser_policy.loop_step [OF default_parser_policy, of layers cur rest]
  show ?case
  proof (cases "rest = []")
    case True
    then show ?thesis using step by (simp add: Packet_from_layers_def)
  next
    case ne: False
    with less.prems obtain t where t: "next_kind cur = Some t" by (cases "next_kind cur") auto
    show ?thesis
    proof (cases "kind_parser env t rest")
      case (Ok q)
      obtain rest1 l where q: "q = (rest1, l)" by (cases q)
      note ok = next_kind_crate [OF t] Ok [unfolded q]
      have "length rest1 < length rest"
        using kind_progress [OF ok ne] by auto
      from less.hyps [OF this kind_rest [OF ok], where layers = "layers @ [cur]"] obtain r where
          r: "parse_loop env (create_packetparser env) (layers @ [cur]) l rest1 = Some r"
          and post: "case r of Ok (rest', pkt) \<Rightarrow> rest' = [] \<and>
            (\<exists>ls. pkt_layers pkt = (layers @ [cur]) @ l # ls \<and> linked env (l # ls)) | Err e \<Rightarrow> True | _ \<Rightarrow> False"
        by blast
      have run: "parse_loop env (create_packetparser env) layers cur rest = Some r"
        using ne t Ok q r by (simp add: step default_policy_def)
      have "linked env (cur # l # ls)" if "linked env (l # ls)" for ls
        using that kind_lossless [OF ok] t by simp
      with post run show ?thesis
        by (cases r) fastforce+
    next
      case (Err e)
      then show ?thesis using ne t by (simp add: step default_policy_def)
    qed (use kind_returns [OF next_kind_crate [OF t], of rest] in simp_all)
  qed
qed

text \<open>A well-formed linked list of layers is parsed back from its bytes.\<close>

lemma kind_reparse:
  assumes "layer_wf l" and "to_bytes env l = Ok b" and "next_kind l = None \<Longrightarrow> rest = []"
  shows "kind_parser env (type_id env l) (b @ rest) = Ok (rest, l)"
  using assms parse_layer_codec(3) [OF ether_codec, of env] parse_layer_codec(3) [OF ipv6_codec, of env]
    parse_layer_codec(3) [OF udp_codec, of env] parse_layer_codec(3) [OF ipv4_codec', of env]
    parse_layer_codec(3) [OF tcp_codec', of env] parse_layer_codec(3) [OF icmp4_codec', of env _ _ "[]"]
    parse_layer_codec(3) [OF raw_codec', of env _ _ "[]"]
  by (cases l) simp_all

lemma layer_wf_bytes:
  assumes "layer_wf l"
  shows "\<exists>b. to_bytes env l = Ok b \<and> b \<noteq> []"
proof (cases l)
  case (LRaw r)
  with assms show ?thesis by (simp add: deku.Raw_to_bytes_eq)
next
  case (LEther e)
  with assms codec_Ok [OF ether_codec] to_bytes_nonempty [of l] show ?thesis by fastforce
next
  case (LIpv4 v)
  with assms codec_Ok [OF ipv4_codec'] to_bytes_nonempty [of l] show ?thesis by fastforce
next
  case (LIpv6 v)
  with assms codec_Ok [OF ipv6_codec] to_bytes_nonempty [of l] show ?thesis by fastforce
next
  case (LIcmp4 i)
  with assms codec_Ok [OF icmp4_codec'] to_bytes_nonempty [of l] show ?thesis by fastforce
next
  case (LUdp u)
  with codec_Ok [OF udp_codec TrueI] to_bytes_nonempty [of l] show ?thesis by fastforce
next
  case (LTcp t)
  with assms codec_Ok [OF tcp_codec'] to_bytes_nonempty [of l] show ?thesis by fastforce
qed (use assms in simp)

lemma linked_last: "linked env (x # ls) \<Longrightarrow> next_kind x = None \<Longrightarrow> ls = []"
  by (cases ls) auto

lemma reparse_loop:
  assumes "linked env (cur # ls)" and "list_all layer_wf ls"
  shows "\<exists>bs. concat_bytes env ls = Ok bs \<and>
    parse_loop env (create_packetparser env) layers cur bs = Some (Ok ([], Packet_from_layers (layers @ cur # ls)))"
  using assms
proof (induction ls arbitrary: cur layers)
  case Nil
  show ?case
    by (simp add: parser_policy.loop_step [OF default_parser_policy])
next
  case (Cons l ls)
  from Cons.prems have l: "layer_wf l" and t: "next_kind cur = Some (type_id env l)" and linked: "linked env (l # ls)"
    by simp_all
  from Cons.IH [OF linked, of "layers @ [cur]"] Cons.prems obtain bs where bs: "concat_bytes env ls = Ok bs"
      and loop: "parse_loop env (create_packetparser env) (layers @ [cur]) l bs
        = Some (Ok ([], Packet_from_layers (layers @ cur # l # ls)))"
    by auto
  obtain b where b: "to_bytes env l = Ok b" "b \<noteq> []"
    using layer_wf_bytes [OF l] by blast
  have "next_kind l = None \<Longrightarrow> bs = []"
    using linked_last [OF linked] bs by auto
  from kind_reparse [OF l b(1) this] have "kind_parser env (type_id env l) (b @ bs) = Ok (bs, l)" .
  then have "parse_loop env (create_packetparser env) layers cur (b @ bs)
      = Some (Ok ([], Packet_from_layers (layers @ cur # l # ls)))"
    using b(2) t loop by (simp add: parser_policy.loop_step [OF default_parser_policy, of layers] default_policy_def)
  with b(1) bs show ?case by auto
qed

end

text \<open>A frame has at most four layers.\<close>

lemma linked_length:
  assumes "linked env (LEther e # ls)"
  shows "length ls \<le> 3"
proof (cases ls)
  case (Cons x xs)
  with assms have x: "(\<exists>v. x = LIpv4 v) \<or> (\<exists>v. x = LIpv6 v) \<or> (\<exists>r. x = LRaw r)" and xs: "linked env (x # xs)"
    by (cases x; auto split: if_splits)+
  show ?thesis
  proof (cases xs)
    case xs': (Cons y ys)
    with x xs have y: "(\<exists>t. y = LTcp t) \<or> (\<exists>u. y = LUdp u) \<or> (\<exists>i. y = LIcmp4 i) \<or> (\<exists>r. y = LRaw r)"
        and ys: "linked env (y # ys)"
      by (cases y; auto split: if_splits)+
    show ?thesis
    proof (cases ys)
      case ys': (Cons z zs)
      with y ys have "\<exists>r. z = LRaw r" and "linked env (z # zs)"
        by (cases z; auto)+
      then have "zs = []" by (cases zs) auto
      with Cons xs' ys' show ?thesis by simp
    qed (use Cons xs' in simp)
  qed (use Cons in simp)
qed simp

interpretation dev_default: parser_policy dev_env "create_packetparser dev_env" "default_policy dev_env"
  by (rule dev_packets.default_parser_policy)

text \<open>A well-formed frame is parsed back from its bytes.\<close>

lemma frame_reparse:
  assumes "packet_env env" and "linked env (LEther e # ls)" and "list_all layer_wf (LEther e # ls)"
  shows "\<exists>bs. Packet_to_bytes env (Packet_from_layers (LEther e # ls)) = Ok bs \<and>
    parse_packet env (Ether_t env) (PacketParser_new env) bs = Some (Ok ([], Packet_from_layers (LEther e # ls)))"
proof -
  from assms(3) have wf: "Ether_wf e" "list_all layer_wf ls" by simp_all
  from layer_codec.reparse [OF packet_env.ether_codec [OF assms(1)] wf(1)] obtain hdr where
      hdr: "Ether_to_bytes (env_dk env) e = Ok hdr" "\<forall>rest. lt_parse (Ether_t env) (hdr @ rest) = Ok (rest, e)"
    by blast
  from packet_env.reparse_loop [OF assms(1,2) wf(2), of "[]"] obtain bs where bs: "concat_bytes env ls = Ok bs"
      "parse_loop env (create_packetparser env) [] (LEther e) bs = Some (Ok ([], Packet_from_layers (LEther e # ls)))"
    by auto
  have "Packet_to_bytes env (Packet_from_layers (LEther e # ls)) = Ok (hdr @ bs)"
    using hdr(1) bs(1) by (simp add: Packet_to_bytes_def Packet_from_layers_def layers_to_bytes_eq)
  moreover have "parse_packet env (Ether_t env) (PacketParser_new env) (hdr @ bs)
      = Some (Ok ([], Packet_from_layers (LEther e # ls)))"
    using hdr(2) bs(2)
    by (simp add: parse_packet_def PacketParser_new_def PacketParser_default_def Ether_t_def)
  ultimately show ?thesis by blast
qed

text \<open>Parsing a frame loses nothing.\<close>

lemma frame_parse_lossless:
  assumes "packet_env env"
  shows "\<exists>r. parse_packet env (Ether_t env) (PacketParser_new env) input = Some r \<and>
    (length input < 14 \<longrightarrow> (\<exists>n. r = Err (PacketError.Incomplete n))) \<and>
    (case r of
       Ok (rest, pkt) \<Rightarrow> rest = [] \<and> Packet_to_bytes env pkt = Ok input \<and>
         (\<exists>e ls. pkt_layers pkt = LEther e # ls \<and> length ls \<le> 3 \<and> linked env (LEther e # ls))
     | Err e \<Rightarrow> True | _ \<Rightarrow> False)"
proof (cases "14 \<le> length input")
  case False
  then obtain n where "Ether_parse (env_pf env) (env_dk env) input = Err (LayerError.Incomplete n)"
    using fixed_header.parse_short [OF deku_laws.ether_header [OF packet_env.env_deku [OF assms]], of input]
    by fastforce
  then show ?thesis
    by (simp add: parse_packet_def Ether_t_def)
next
  case True
  with fixed_header.parse_total [OF deku_laws.ether_header [OF packet_env.env_deku [OF assms]], of input "env_pf env"]
  obtain e where e: "Ether_parse (env_pf env) (env_dk env) input = Ok (drop 14 input, e)"
      "Ether_to_bytes (env_dk env) e = Ok (take 14 input)"
    by auto
  have run: "parse_packet env (Ether_t env) (PacketParser_new env) input
      = parse_loop env (create_packetparser env) [] (LEther e) (drop 14 input)"
    using e(1) by (simp add: parse_packet_def Ether_t_def PacketParser_new_def PacketParser_default_def)
  from packet_env.default_loop [OF assms, of "LEther e" "drop 14 input" "[]"] obtain r where
      r: "parse_loop env (create_packetparser env) [] (LEther e) (drop 14 input) = Some r"
      and shape: "case r of Ok (rest', pkt) \<Rightarrow> rest' = [] \<and>
        (\<exists>ls. pkt_layers pkt = [] @ LEther e # ls \<and> linked env (LEther e # ls)) | Err e \<Rightarrow> True | _ \<Rightarrow> False"
    by auto
  from parser_policy.loop_sound [OF packet_env.default_parser_policy [OF assms], of "[]" "LEther e" "drop 14 input"] r
  have bytes: "case r of Ok (rest', pkt) \<Rightarrow> \<exists>ls bs. pkt_layers pkt = [] @ LEther e # ls \<and>
      concat_bytes env ls = Ok bs \<and> drop 14 input = bs @ rest' | Err e \<Rightarrow> True | _ \<Rightarrow> False"
    by simp
  show ?thesis
  proof (cases r)
    case (Ok q)
    obtain rest pkt where q: "q = (rest, pkt)" by (cases q)
    with Ok shape bytes obtain ls bs where
        *: "rest = []" "pkt_layers pkt = LEther e # ls" "linked env (LEther e # ls)" "concat_bytes env ls = Ok bs"
          "drop 14 input = bs"
      by auto
    have "Packet_to_bytes env pkt = Ok input"
      using append_take_drop_id [of 14 input] unfolding *(5)
      by (simp add: Packet_to_bytes_def layers_to_bytes_eq *(2,4) e(2))
    with True Ok q run r * linked_length [OF *(3)] show ?thesis by auto
  qed (use True run r shape in auto)
qed

text \<open>A well-formed Ethernet packet: what the default parser gives back.\<close>

definition frame_wf :: "'c env \<Rightarrow> 'c Packet \<Rightarrow> bool" where
  "frame_wf env p = (case pkt_layers p of
     LEther e # ls \<Rightarrow> linked env (LEther e # ls) \<and> list_all layer_wf (LEther e # ls)
   | _ \<Rightarrow> False)"

lemma frame_wf_reparse:
  assumes "packet_env env" and "frame_wf env p"
  shows "\<exists>bs. Packet_to_bytes env p = Ok bs \<and>
    parse_packet env (Ether_t env) (PacketParser_new env) bs = Some (Ok ([], p))"
proof -
  from assms(2) obtain e ls where p: "pkt_layers p = LEther e # ls"
      and "linked env (LEther e # ls)" "list_all layer_wf (LEther e # ls)"
    by (auto simp: frame_wf_def split: list.splits LayerOwned.splits)
  moreover from p have "p = Packet_from_layers (LEther e # ls)"
    by (simp add: Packet_from_layers_def)
  ultimately show ?thesis using frame_reparse [OF assms(1)] by metis
qed

section \<open>Properties\<close>

text \<open>
  (C28) The default parser chooses the next layer by the table: Ethernet goes to IPv4, IPv6 or raw data
  by its type, IPv4 to TCP, UDP, ICMP or raw data by its protocol, IPv6 to TCP, UDP or raw data, TCP and
  UDP to raw data, and nothing follows raw data, ICMP or a client's layer.
\<close>

theorem create_packetparser_table:
  "next_layer_parser env (create_packetparser env) x rest = Ok (map_option (kind_parser env) (next_kind x))"
  using create_packetparser_resolves [of env] by (simp add: resolves_def default_policy_def)

text \<open>
  (C1) Parsing any bytes as a frame with the default parser ends without panicking.  Fewer than 14
  bytes are incomplete.  A packet that is returned serialises to exactly the input, nothing is left
  over, it starts with Ethernet, has at most four layers, and they follow each other as the table says.
\<close>

theorem default_parse_lossless:
  assumes "packet_env env"
  shows "\<exists>r. parse_packet env (Ether_t env) (PacketParser_new env) input = Some r \<and>
    (length input < 14 \<longrightarrow> (\<exists>n. r = Err (PacketError.Incomplete n))) \<and>
    (case r of
       Ok (rest, pkt) \<Rightarrow> rest = [] \<and> Packet_to_bytes env pkt = Ok input \<and>
         (\<exists>e ls. pkt_layers pkt = LEther e # ls \<and> length ls \<le> 3 \<and> linked env (LEther e # ls))
     | Err e \<Rightarrow> True | _ \<Rightarrow> False)"
  using assms by (rule frame_parse_lossless)

theorem default_parse_lossless_witness:
  "packet_env dev_env \<and>
   (\<exists>r. parse_packet dev_env (Ether_t dev_env) (PacketParser_new dev_env) (replicate 30 0) = Some r)"
  using default_parse_lossless [OF dev_packets.packet_env_axioms, of "replicate 30 0"]
    dev_packets.packet_env_axioms by blast

text \<open>
  (C4) A packet of well-formed layers that starts with Ethernet and follows the table is parsed back from
  its bytes: the same layers, nothing left over.
\<close>

theorem default_parse_roundtrip:
  assumes "packet_env env" and "linked env (LEther e # ls)" and "list_all layer_wf (LEther e # ls)"
  shows "\<exists>bs. Packet_to_bytes env (Packet_from_layers (LEther e # ls)) = Ok bs \<and>
    parse_packet env (Ether_t env) (PacketParser_new env) bs = Some (Ok ([], Packet_from_layers (LEther e # ls)))"
  using assms by (rule frame_reparse)

definition udp_frame :: "unit LayerOwned list" where
  "udp_frame = [LIpv4 (Ipv4_default\<lparr>ip4_protocol := UDP\<rparr>), LUdp Udp_default, LRaw \<lparr>raw_data = [1], raw_bit_offset = 0\<rparr>]"

lemma udp_frame_ok: "linked dev_env (LEther Ether_default # udp_frame)" "list_all layer_wf (LEther Ether_default # udp_frame)"
proof -
  show "linked dev_env (LEther Ether_default # udp_frame)"
    by (simp add: udp_frame_def Ether_default_def EtherType_default_def)
  show "list_all layer_wf (LEther Ether_default # udp_frame)"
    by (simp add: udp_frame_def Ether_wf_def Ether_default_def EtherType_default_def EtherType_wf_def Ipv4_wf_def
        Ipv4_parsed_def Ipv4_default_def IpProtocol_wf_def Raw_wf_def)
qed

theorem default_parse_roundtrip_witness:
  "packet_env dev_env \<and> linked dev_env (LEther Ether_default # udp_frame) \<and>
   list_all layer_wf (LEther Ether_default # udp_frame) \<and>
   (\<exists>bs. parse_packet dev_env (Ether_t dev_env) (PacketParser_new dev_env) bs
     = Some (Ok ([], Packet_from_layers (LEther Ether_default # udp_frame))))"
  using default_parse_roundtrip [OF dev_packets.packet_env_axioms udp_frame_ok] udp_frame_ok
    dev_packets.packet_env_axioms by blast

end
