(* ===== verification/Packet_Finalize.thy ===== *)
theory Packet_Finalize
  imports Udp_Finalize Tcp_Finalize Bindings
begin

text \<open>
  \<open>Packet::finalize\<close> on whole frames: Ethernet, IPv4, TCP or UDP, and raw payload.  The lemmas compose the
  \<open>finalize\<close> of each layer (\<open>src/layer/*\<close>) in the order of the loop of \<open>src/packet/mod.rs\<close>.
\<close>

section \<open>Frames\<close>

definition is_raw :: "'c LayerOwned \<Rightarrow> bool" where
  "is_raw l \<longleftrightarrow> get_raw l \<noteq> None"

lemma is_raw_iff: "is_raw l \<longleftrightarrow> (\<exists>r. l = LRaw r)"
  by (cases l) (simp_all add: is_raw_def)

lemma finalize_raw: "list_all is_raw rest \<Longrightarrow> finalize_from env prev rest = (prev @ rest, Ok ())"
  by (induction rest arbitrary: prev) (auto simp: is_raw_iff Raw_finalize_def)

text \<open>The loop on a frame, once its IPv4 and transport layers are finalised.\<close>

lemma Packet_finalize_frame:
  assumes "Ipv4_finalize env v [LEther e] (tr # rest) = (v', Ok ())"
    and "layer_finalize env tr [LEther e, LIpv4 v'] rest = (tr', Ok ())" and "list_all is_raw rest"
  shows "Packet_finalize env (Packet_from_layers (LEther e # LIpv4 v # tr # rest))
    = (Packet_from_layers (LEther e # LIpv4 v' # tr' # rest), Ok ())"
  using assms
  by (simp add: Packet_finalize_from Packet_from_layers_def Ether_finalize_def finalize_raw)

lemma over_ip_frame [simp]: "over_ip [LEther e, LIpv4 v]"
  by (simp add: over_ip_def)

context packet_env
begin

lemma wf_Ipv4_bytes:
  assumes "Ipv4_wf v"
  shows "\<exists>hdr. Ipv4_to_bytes (env_dk env) v = Ok hdr"
  using layer_codec.reparse [OF ipv4_codec' assms] by blast

lemma wf_Tcp_bytes:
  assumes "Tcp_wf t"
  shows "\<exists>hdr. Tcp_to_bytes (env_dk env) t = Ok hdr \<and> length hdr = 4 * unat (tcp_offset t)"
    and "Tcp_bits t = 32 * unat (tcp_offset t)" "unat (tcp_offset t) < 16"
    and "tcp_offset t = word_of_nat (unat (tcp_offset t))"
proof -
  show bits: "Tcp_bits t = 32 * unat (tcp_offset t)" and "unat (tcp_offset t) < 16"
    using assms by (auto simp: Tcp_wf_def Tcp_parsed_def Tcp_bits_def)
  obtain hdr where hdr: "Tcp_to_bytes (env_dk env) t = Ok hdr"
    using layer_codec.reparse [OF tcp_codec' assms] by blast
  from deku.Tcp_to_bytes_length [OF hdr] bits hdr
  show "\<exists>hdr. Tcp_to_bytes (env_dk env) t = Ok hdr \<and> length hdr = 4 * unat (tcp_offset t)" by simp
qed simp

text \<open>The IPv4 layer of a frame that fits.\<close>

lemma Ipv4_finalize_fits:
  assumes "Ipv4_to_bytes (env_dk env) v = Ok hdr" and "layers_to_bytes env next = Ok payload"
    and "length hdr + length payload \<le> 65535"
  shows "\<exists>c hdr' v'. v' = v\<lparr>ip4_length := word_of_nat (length hdr + length payload), ip4_checksum := c\<rparr> \<and>
    Ipv4_finalize env v prev next = (v', Ok ()) \<and> Ipv4_to_bytes (env_dk env) v' = Ok hdr' \<and>
    length hdr' = length hdr \<and> checksum (env_pf env) hdr' = (Ok 0 :: (LayerError, u16) outcome) \<and>
    unat (ip4_length v') = length hdr + length payload"
proof -
  have "unat (word_of_nat (length hdr + length payload) :: u16) = length hdr + length payload"
    using assms(3) by (intro unat_word_of_nat_small [where n = 16]) simp_all
  with Ipv4_finalize_spec [of v prev "next"] assms show ?thesis by auto
qed

text \<open>One \<open>finalize\<close> of a UDP frame.\<close>

lemma udp_frame_once:
  assumes v: "Ipv4_wf v" and rest: "list_all is_raw rest" "layers_to_bytes env rest = Ok data"
    and hdr: "Ipv4_to_bytes (env_dk env) v = Ok hdr" and fits: "length hdr + 8 + length data \<le> 65535"
  shows "\<exists>c v' u' hdr' ph. v' = v\<lparr>ip4_length := word_of_nat (length hdr + (8 + length data)), ip4_checksum := c\<rparr> \<and>
    Packet_finalize env (Packet_from_layers (LEther e # LIpv4 v # LUdp u # rest))
      = (Packet_from_layers (LEther e # LIpv4 v' # LUdp u' # rest), Ok ()) \<and>
    udp_sport u' = udp_sport u \<and> udp_dport u' = udp_dport u \<and> udp_length u' = word_of_nat (8 + length data) \<and>
    Ipv4_to_bytes (env_dk env) v' = Ok hdr' \<and> length hdr' = length hdr \<and>
    checksum (env_pf env) hdr' = (Ok 0 :: (LayerError, u16) outcome) \<and>
    unat (ip4_length v') = length hdr + (8 + length data) \<and>
    ip_pseudo_header ''udp_length'' env (LIpv4 v') (8 + length data) = Ok (Some ph) \<and>
    (udp_length u = udp_length u' \<longrightarrow>
      checksum (env_pf env) (ph @ Udp_bytes u' @ data) = (Ok 0 :: (LayerError, u16) outcome))"
proof -
  have payload: "layers_to_bytes env (LUdp u # rest) = Ok (Udp_bytes u @ data)"
    using rest(2) by (simp add: layers_to_bytes_eq deku.Udp_to_bytes_eq)
  from Ipv4_finalize_fits [OF hdr payload, of "[LEther e]"] fits obtain c hdr' v' where
      v': "v' = v\<lparr>ip4_length := word_of_nat (length hdr + (8 + length data)), ip4_checksum := c\<rparr>"
        "Ipv4_finalize env v [LEther e] (LUdp u # rest) = (v', Ok ())" "Ipv4_to_bytes (env_dk env) v' = Ok hdr'"
        "length hdr' = length hdr" "checksum (env_pf env) hdr' = (Ok 0 :: (LayerError, u16) outcome)"
        "unat (ip4_length v') = length hdr + (8 + length data)"
    by auto
  have fits': "8 + length data \<le> 65535" using fits by simp
  from Udp_finalize_payload [OF rest(2) fits', of "[LEther e, LIpv4 v']" u] obtain ph u' where
      ph: "ip_pseudo_header ''udp_length'' env (LIpv4 v') (8 + length data) = Ok (Some ph)"
      and u': "Udp_finalize env u [LEther e, LIpv4 v'] rest = (u', Ok ())"
        "udp_sport u' = udp_sport u" "udp_dport u' = udp_dport u" "udp_length u' = word_of_nat (8 + length data)"
    by auto
  have "checksum (env_pf env) (ph @ Udp_bytes u' @ data) = (Ok 0 :: (LayerError, u16) outcome)" if "udp_length u = udp_length u'"
    using Udp_finalize_settled [OF rest(2) fits' over_ip_frame [of e v'], of u] that ph u'
    by (auto simp: udp_message_def)
  with v' u' ph Packet_finalize_frame [OF v'(2) _ rest(1), of "LUdp u'"] show ?thesis
    by (intro exI [where x = c] exI [where x = v'] exI [where x = u'] exI [where x = hdr'] exI [where x = ph]) simp
qed

text \<open>One \<open>finalize\<close> of a TCP frame.\<close>

lemma tcp_frame_once:
  assumes rest: "list_all is_raw rest" "layers_to_bytes env rest = Ok data"
    and hdr: "Ipv4_to_bytes (env_dk env) v = Ok hdr" and t: "Tcp_to_bytes (env_dk env) t = Ok thdr"
    and off: "unat (tcp_offset t) < 16" and words: "tcp_words t < 16"
    and fits: "length hdr + 4 * tcp_words t + length data \<le> 65535"
  shows "\<exists>c c' v' t' hdr' seg ph. v' = v\<lparr>ip4_length := word_of_nat (length hdr + (length thdr + length data)), ip4_checksum := c\<rparr> \<and>
    t' = (tcp_padded t)\<lparr>tcp_checksum := c', tcp_offset := word_of_nat (tcp_words t)\<rparr> \<and>
    Packet_finalize env (Packet_from_layers (LEther e # LIpv4 v # LTcp t # rest))
      = (Packet_from_layers (LEther e # LIpv4 v' # LTcp t' # rest), Ok ()) \<and>
    Ipv4_to_bytes (env_dk env) v' = Ok hdr' \<and> length hdr' = length hdr \<and>
    checksum (env_pf env) hdr' = (Ok 0 :: (LayerError, u16) outcome) \<and>
    unat (ip4_length v') = length hdr + (length thdr + length data) \<and>
    ip_pseudo_header ''tcp_length'' env (LIpv4 v') (4 * tcp_words t + length data) = Ok (Some ph) \<and>
    Tcp_to_bytes (env_dk env) t' = Ok seg \<and>
    (checksum (env_pf env) (ph @ seg @ data) = (Ok 0 :: (LayerError, u16) outcome) \<longleftrightarrow> tcp_offset t = tcp_offset t')"
proof -
  have payload: "layers_to_bytes env (LTcp t # rest) = Ok (thdr @ data)"
    using rest(2) t by (simp add: layers_to_bytes_eq)
  have thdr: "length thdr \<le> 4 * tcp_words t"
    using deku.Tcp_to_bytes_length [OF t] by (simp add: tcp_words_def)
  from Ipv4_finalize_fits [OF hdr payload, of "[LEther e]"] fits thdr obtain c hdr' v' where
      v': "v' = v\<lparr>ip4_length := word_of_nat (length hdr + (length thdr + length data)), ip4_checksum := c\<rparr>"
        "Ipv4_finalize env v [LEther e] (LTcp t # rest) = (v', Ok ())" "Ipv4_to_bytes (env_dk env) v' = Ok hdr'"
        "length hdr' = length hdr" "checksum (env_pf env) hdr' = (Ok 0 :: (LayerError, u16) outcome)"
        "unat (ip4_length v') = length hdr + (length thdr + length data)"
    by auto
  have total: "4 * tcp_words t + length data \<le> 65535" using fits by simp
  from Tcp_finalize_segment [OF t rest(2) total words over_ip_frame [of e v'] off] obtain ph c' seg where
      ph: "ip_pseudo_header ''tcp_length'' env (LIpv4 v') (4 * tcp_words t + length data) = Ok (Some ph)"
      and t': "Tcp_finalize env t [LEther e, LIpv4 v'] rest
          = ((tcp_padded t)\<lparr>tcp_checksum := c', tcp_offset := word_of_nat (tcp_words t)\<rparr>, Ok ())"
        "Tcp_to_bytes (env_dk env) ((tcp_padded t)\<lparr>tcp_checksum := c', tcp_offset := word_of_nat (tcp_words t)\<rparr>) = Ok seg"
        "checksum (env_pf env) (ph @ seg @ data) = (Ok 0 :: (LayerError, u16) outcome) \<longleftrightarrow>
          tcp_offset t = word_of_nat (tcp_words t)"
    by auto
  let ?t' = "(tcp_padded t)\<lparr>tcp_checksum := c', tcp_offset := word_of_nat (tcp_words t)\<rparr>"
  have "Packet_finalize env (Packet_from_layers (LEther e # LIpv4 v # LTcp t # rest))
      = (Packet_from_layers (LEther e # LIpv4 v' # LTcp ?t' # rest), Ok ())"
    using t'(1) by (intro Packet_finalize_frame [OF v'(2) _ rest(1)]) simp
  with v' t' ph show ?thesis
    by (intro exI [where x = c] exI [where x = c'] exI [where x = v'] exI [where x = ?t'] exI [where x = hdr']
        exI [where x = seg] exI [where x = ph]) simp
qed

end

text \<open>A well-formed TCP frame whose data offset is right.\<close>

lemma tcp_frame_valid:
  assumes env: "packet_env env" and wf: "Ipv4_wf v" "Tcp_wf t"
    and rest: "list_all is_raw rest" "layers_to_bytes env rest = Ok data"
    and hdr: "Ipv4_to_bytes (env_dk env) v = Ok hdr"
    and fits: "length hdr + 4 * unat (tcp_offset t) + length data \<le> 65535"
  shows "\<exists>n c c' v' t' hdr' seg ph. v' = v\<lparr>ip4_length := n, ip4_checksum := c\<rparr> \<and> t' = t\<lparr>tcp_checksum := c'\<rparr> \<and>
    Packet_finalize env (Packet_from_layers (LEther e # LIpv4 v # LTcp t # rest))
      = (Packet_from_layers (LEther e # LIpv4 v' # LTcp t' # rest), Ok ()) \<and>
    Ipv4_to_bytes (env_dk env) v' = Ok hdr' \<and> Tcp_to_bytes (env_dk env) t' = Ok seg \<and>
    unat (ip4_length v') = length hdr' + length seg + length data \<and>
    checksum (env_pf env) hdr' = (Ok 0 :: (LayerError, u16) outcome) \<and>
    ip_pseudo_header ''tcp_length'' env (LIpv4 v') (length seg + length data) = Ok (Some ph) \<and>
    checksum (env_pf env) (ph @ seg @ data) = (Ok 0 :: (LayerError, u16) outcome)"
proof -
  obtain thdr where thdr: "Tcp_to_bytes (env_dk env) t = Ok thdr" "length thdr = 4 * unat (tcp_offset t)"
    using packet_env.wf_Tcp_bytes(1) [OF env wf(2)] by blast
  note t = packet_env.wf_Tcp_bytes(2-4) [OF env wf(2)]
  note aligned = tcp_aligned_padded [OF t(1)]
  from packet_env.tcp_frame_once [OF env rest hdr thdr(1) t(2), of e] aligned(2) t(2) fits obtain c c' v' t' hdr' seg ph where
      *: "v' = v\<lparr>ip4_length := word_of_nat (length hdr + (length thdr + length data)), ip4_checksum := c\<rparr>"
        "t' = t\<lparr>tcp_checksum := c'\<rparr>"
        "Packet_finalize env (Packet_from_layers (LEther e # LIpv4 v # LTcp t # rest))
          = (Packet_from_layers (LEther e # LIpv4 v' # LTcp t' # rest), Ok ())"
        "Ipv4_to_bytes (env_dk env) v' = Ok hdr'" "length hdr' = length hdr"
        "checksum (env_pf env) hdr' = (Ok 0 :: (LayerError, u16) outcome)"
        "unat (ip4_length v') = length hdr + (length thdr + length data)"
        "ip_pseudo_header ''tcp_length'' env (LIpv4 v') (length thdr + length data) = Ok (Some ph)"
        "Tcp_to_bytes (env_dk env) t' = Ok seg"
        "checksum (env_pf env) (ph @ seg @ data) = (Ok 0 :: (LayerError, u16) outcome)"
    unfolding aligned using t(3) thdr(2) by auto
  have "length seg = length thdr"
    using deku_laws.Tcp_to_bytes_length [OF packet_env.env_deku [OF env] *(9)]
      deku_laws.Tcp_to_bytes_length [OF packet_env.env_deku [OF env] thdr(1)] *(2) by simp
  with * show ?thesis
    by (intro exI [where x = "ip4_length v'"] exI [where x = c] exI [where x = c'] exI [where x = v'] exI [where x = t']
        exI [where x = hdr'] exI [where x = seg] exI [where x = ph]) simp
qed

section \<open>Properties\<close>

text \<open>
  (C3) One \<open>Packet::finalize\<close> makes a valid TCP frame of well-formed layers whose data offset is already right:
  only the IPv4 length and the two checksums change, the IPv4 length is the length of header, segment and
  payload, the IPv4 header verifies, and the segment verifies with its pseudo header.
\<close>

theorem tcp_frame_finalize_valid:
  assumes env: "packet_env env" and wf: "Ipv4_wf v" "Tcp_wf t"
    and rest: "list_all is_raw rest" "layers_to_bytes env rest = Ok data"
    and hdr: "Ipv4_to_bytes (env_dk env) v = Ok hdr"
    and fits: "length hdr + 4 * unat (tcp_offset t) + length data \<le> 65535"
  shows "\<exists>n c c' v' t' hdr' seg ph. v' = v\<lparr>ip4_length := n, ip4_checksum := c\<rparr> \<and> t' = t\<lparr>tcp_checksum := c'\<rparr> \<and>
    Packet_finalize env (Packet_from_layers (LEther e # LIpv4 v # LTcp t # rest))
      = (Packet_from_layers (LEther e # LIpv4 v' # LTcp t' # rest), Ok ()) \<and>
    Ipv4_to_bytes (env_dk env) v' = Ok hdr' \<and> Tcp_to_bytes (env_dk env) t' = Ok seg \<and>
    unat (ip4_length v') = length hdr' + length seg + length data \<and>
    checksum (env_pf env) hdr' = (Ok 0 :: (LayerError, u16) outcome) \<and>
    ip_pseudo_header ''tcp_length'' env (LIpv4 v') (length seg + length data) = Ok (Some ph) \<and>
    checksum (env_pf env) (ph @ seg @ data) = (Ok 0 :: (LayerError, u16) outcome)"
  using assms by (rule tcp_frame_valid)

definition frame_ipv4 :: "IpProtocol \<Rightarrow> Ipv4" where
  "frame_ipv4 p = Ipv4_default\<lparr>ip4_protocol := p\<rparr>"

definition frame_rest :: "unit LayerOwned list" where
  "frame_rest = [LRaw \<lparr>raw_data = [1, 2, 3], raw_bit_offset = 0\<rparr>]"

lemma frame_rest: "list_all is_raw frame_rest" "layers_to_bytes dev_env frame_rest = Ok [1, 2, 3]"
  by (simp_all add: frame_rest_def is_raw_def layers_to_bytes_def ref.Raw_to_bytes_eq)

lemma frame_ipv4:
  assumes "p = TCP \<or> p = UDP"
  shows "Ipv4_wf (frame_ipv4 p)" and "\<exists>hdr. Ipv4_to_bytes (env_dk dev_env) (frame_ipv4 p) = Ok hdr \<and> length hdr = 20"
proof -
  show wf: "Ipv4_wf (frame_ipv4 p)"
    using assms by (auto simp: frame_ipv4_def Ipv4_wf_def Ipv4_parsed_def Ipv4_default_def IpProtocol_wf_def)
  then obtain hdr where hdr: "Ipv4_to_bytes (env_dk dev_env) (frame_ipv4 p) = Ok hdr"
    using dev_packets.wf_Ipv4_bytes by blast
  with ref.Ipv4_to_bytes_length [of "frame_ipv4 p" hdr]
  show "\<exists>hdr. Ipv4_to_bytes (env_dk dev_env) (frame_ipv4 p) = Ok hdr \<and> length hdr = 20"
    by (simp add: Ipv4_bits_def frame_ipv4_def Ipv4_default_def)
qed

theorem tcp_frame_finalize_valid_witness:
  "Ipv4_wf (frame_ipv4 TCP) \<and> Tcp_wf Tcp_default \<and>
   (\<exists>v' t' hdr' seg ph. Packet_finalize dev_env
      (Packet_from_layers (LEther Ether_default # LIpv4 (frame_ipv4 TCP) # LTcp Tcp_default # frame_rest))
      = (Packet_from_layers (LEther Ether_default # LIpv4 v' # LTcp t' # frame_rest), Ok ()) \<and>
     Ipv4_to_bytes ref_deku v' = Ok hdr' \<and> Tcp_to_bytes ref_deku t' = Ok seg \<and>
     unat (ip4_length v') = length hdr' + length seg + length [1, 2, 3 :: u8] \<and>
     checksum dev_profile (ph @ seg @ [1, 2, 3]) = (Ok 0 :: (LayerError, u16) outcome))"
proof -
  obtain hdr where hdr: "Ipv4_to_bytes (env_dk dev_env) (frame_ipv4 TCP) = Ok hdr" "length hdr = 20"
    using frame_ipv4(2) by blast
  have "length hdr + 4 * unat (tcp_offset Tcp_default) + length [1, 2, 3 :: u8] \<le> 65535"
    using hdr(2) by (simp add: Tcp_default_def)
  from tcp_frame_finalize_valid [OF dev_packets.packet_env_axioms frame_ipv4(1) Tcp_default_wf frame_rest hdr(1) this,
      of Ether_default] frame_ipv4(1) [of TCP] Tcp_default_wf
  show ?thesis unfolding dev_env_simps by blast
qed

text \<open>
  (C10) Two runs of \<open>Packet::finalize\<close> make a valid UDP frame of any UDP header: ports are kept, the UDP length is
  the length of the datagram, the IPv4 length the length of the packet, the IPv4 header verifies, and the
  datagram verifies with its pseudo header.
\<close>

theorem udp_frame_finalize_twice_valid:
  assumes env: "packet_env env" and wf: "Ipv4_wf v"
    and rest: "list_all is_raw rest" "layers_to_bytes env rest = Ok data"
    and hdr: "Ipv4_to_bytes (env_dk env) v = Ok hdr" and fits: "length hdr + 8 + length data \<le> 65535"
  shows "\<exists>p' v' u' hdr' ph.
    Packet_finalize env (Packet_from_layers (LEther e # LIpv4 v # LUdp u # rest)) = (p', Ok ()) \<and>
    Packet_finalize env p' = (Packet_from_layers (LEther e # LIpv4 v' # LUdp u' # rest), Ok ()) \<and>
    udp_sport u' = udp_sport u \<and> udp_dport u' = udp_dport u \<and> unat (udp_length u') = 8 + length data \<and>
    Ipv4_to_bytes (env_dk env) v' = Ok hdr' \<and> unat (ip4_length v') = length hdr' + 8 + length data \<and>
    checksum (env_pf env) hdr' = (Ok 0 :: (LayerError, u16) outcome) \<and>
    ip_pseudo_header ''udp_length'' env (LIpv4 v') (8 + length data) = Ok (Some ph) \<and>
    checksum (env_pf env) (ph @ Udp_bytes u' @ data) = (Ok 0 :: (LayerError, u16) outcome)"
proof -
  note once = packet_env.udp_frame_once [OF env _ rest]
  from once [OF wf hdr fits, of e u] obtain c v1 u1 hdr1 where
      p1: "Packet_finalize env (Packet_from_layers (LEther e # LIpv4 v # LUdp u # rest))
          = (Packet_from_layers (LEther e # LIpv4 v1 # LUdp u1 # rest), Ok ())"
        "v1 = v\<lparr>ip4_length := word_of_nat (length hdr + (8 + length data)), ip4_checksum := c\<rparr>"
        "udp_sport u1 = udp_sport u" "udp_dport u1 = udp_dport u" "udp_length u1 = word_of_nat (8 + length data)"
        "Ipv4_to_bytes (env_dk env) v1 = Ok hdr1" "length hdr1 = length hdr"
    by blast
  have wf1: "Ipv4_wf v1" using wf p1(2) by (simp add: Ipv4_wf_def Ipv4_parsed_def)
  have fits1: "length hdr1 + 8 + length data \<le> 65535" using fits p1(7) by simp
  have n: "unat (word_of_nat (8 + length data) :: u16) = 8 + length data"
    using fits by (intro unat_word_of_nat_small [where n = 16]) simp_all
  from once [OF wf1 p1(6) fits1, of e u1] obtain v2 u2 hdr2 ph where
      "Packet_finalize env (Packet_from_layers (LEther e # LIpv4 v1 # LUdp u1 # rest))
          = (Packet_from_layers (LEther e # LIpv4 v2 # LUdp u2 # rest), Ok ())"
      "udp_sport u2 = udp_sport u1" "udp_dport u2 = udp_dport u1" "udp_length u2 = word_of_nat (8 + length data)"
      "Ipv4_to_bytes (env_dk env) v2 = Ok hdr2" "length hdr2 = length hdr1"
      "checksum (env_pf env) hdr2 = (Ok 0 :: (LayerError, u16) outcome)"
      "unat (ip4_length v2) = length hdr1 + (8 + length data)"
      "ip_pseudo_header ''udp_length'' env (LIpv4 v2) (8 + length data) = Ok (Some ph)"
      "udp_length u1 = udp_length u2 \<longrightarrow>
        checksum (env_pf env) (ph @ Udp_bytes u2 @ data) = (Ok 0 :: (LayerError, u16) outcome)"
    by blast
  with p1 n show ?thesis
    by (intro exI [where x = "Packet_from_layers (LEther e # LIpv4 v1 # LUdp u1 # rest)"] exI [where x = v2]
        exI [where x = u2] exI [where x = hdr2] exI [where x = ph]) simp
qed

theorem udp_frame_finalize_twice_valid_witness:
  "Ipv4_wf (frame_ipv4 UDP) \<and> (\<exists>p' v' u' ph. Packet_finalize dev_env
      (Packet_from_layers (LEther Ether_default # LIpv4 (frame_ipv4 UDP) # LUdp Udp_default # frame_rest)) = (p', Ok ()) \<and>
     Packet_finalize dev_env p' = (Packet_from_layers (LEther Ether_default # LIpv4 v' # LUdp u' # frame_rest), Ok ()) \<and>
     checksum dev_profile (ph @ Udp_bytes u' @ [1, 2, 3]) = (Ok 0 :: (LayerError, u16) outcome))"
proof -
  obtain hdr where hdr: "Ipv4_to_bytes (env_dk dev_env) (frame_ipv4 UDP) = Ok hdr" "length hdr = 20"
    using frame_ipv4(2) by blast
  have "length hdr + 8 + length [1, 2, 3 :: u8] \<le> 65535" using hdr(2) by simp
  from udp_frame_finalize_twice_valid [OF dev_packets.packet_env_axioms frame_ipv4(1) frame_rest hdr(1) this,
      of Ether_default Udp_default] frame_ipv4(1) [of UDP]
  show ?thesis unfolding dev_env_simps by blast
qed

text \<open>
  (C32) \<open>Packet::finalize\<close> finalises the IPv4 layer before the TCP layer pads its options: when the TCP header is
  not a whole number of 32-bit words, the IPv4 length of the finalised packet is short of the bytes that
  follow the Ethernet header.
\<close>

theorem tcp_padding_shortens_ip_length:
  assumes env: "packet_env env" and rest: "list_all is_raw rest" "layers_to_bytes env rest = Ok data"
    and hdr: "Ipv4_to_bytes (env_dk env) v = Ok hdr" and t: "Tcp_to_bytes (env_dk env) t = Ok thdr"
    and odd: "length thdr mod 4 \<noteq> 0" and off: "unat (tcp_offset t) < 16" and words: "tcp_words t < 16"
    and fits: "length hdr + 4 * tcp_words t + length data \<le> 65535"
  shows "\<exists>v' t' bytes. Packet_finalize env (Packet_from_layers (LEther e # LIpv4 v # LTcp t # rest))
      = (Packet_from_layers (LEther e # LIpv4 v' # LTcp t' # rest), Ok ()) \<and>
    layers_to_bytes env (LIpv4 v' # LTcp t' # rest) = Ok bytes \<and> unat (ip4_length v') < length bytes"
proof -
  from packet_env.tcp_frame_once [OF env rest hdr t off words fits, of e] obtain c c' v' t' hdr' seg where
      *: "t' = (tcp_padded t)\<lparr>tcp_checksum := c', tcp_offset := word_of_nat (tcp_words t)\<rparr>"
        "Packet_finalize env (Packet_from_layers (LEther e # LIpv4 v # LTcp t # rest))
          = (Packet_from_layers (LEther e # LIpv4 v' # LTcp t' # rest), Ok ())"
        "Ipv4_to_bytes (env_dk env) v' = Ok hdr'" "length hdr' = length hdr"
        "unat (ip4_length v') = length hdr + (length thdr + length data)" "Tcp_to_bytes (env_dk env) t' = Ok seg"
    by blast
  note deku = packet_env.env_deku [OF env]
  have "length seg = 4 * tcp_words t"
    using deku_laws.Tcp_to_bytes_length [OF deku *(6)] *(1) by (simp add: Tcp_bits_padded)
  moreover have "length thdr < 4 * tcp_words t"
    using deku_laws.Tcp_to_bytes_length [OF deku t] odd by (simp add: tcp_words_def) presburger
  moreover have "layers_to_bytes env (LIpv4 v' # LTcp t' # rest) = Ok (hdr' @ seg @ data)"
    using *(3,6) rest(2) by (simp add: layers_to_bytes_eq)
  ultimately show ?thesis using *(2,4,5)
    by (intro exI [where x = v'] exI [where x = t'] exI [where x = "hdr' @ seg @ data"]) simp
qed

theorem tcp_padding_shortens_ip_length_witness:
  "\<exists>v' t' bytes. Packet_finalize dev_env
      (Packet_from_layers (LEther Ether_default # LIpv4 (frame_ipv4 TCP) # LTcp tcp_example # frame_rest))
      = (Packet_from_layers (LEther Ether_default # LIpv4 v' # LTcp t' # frame_rest), Ok ()) \<and>
    layers_to_bytes dev_env (LIpv4 v' # LTcp t' # frame_rest) = Ok bytes \<and> unat (ip4_length v') < length bytes"
proof -
  obtain hdr where hdr: "Ipv4_to_bytes (env_dk dev_env) (frame_ipv4 TCP) = Ok hdr" "length hdr = 20"
    using frame_ipv4(2) by blast
  obtain thdr where thdr: "Tcp_to_bytes (env_dk dev_env) tcp_example = Ok thdr"
    using tcp_pad_example [of 3] by (auto simp: tcp_example_def)
  have "8 * length thdr = 184"
    using ref.Tcp_to_bytes_length [of tcp_example thdr] thdr
    by (simp add: Tcp_bits_def tcp_example_def Tcp_default_def sum_list_replicate)
  then have odd: "length thdr mod 4 \<noteq> 0" by simp
  have fits: "tcp_words tcp_example < 16" "length hdr + 4 * tcp_words tcp_example + length [1, 2, 3 :: u8] \<le> 65535"
    using hdr(2) tcp_example_words(1) by simp_all
  from tcp_padding_shortens_ip_length [OF dev_packets.packet_env_axioms frame_rest hdr(1) thdr odd tcp_example_words(2) fits]
  show ?thesis .
qed

end
