(* ===== verification/Udp_Inspect.thy ===== *)
theory Udp_Inspect
  imports Packet_Finalize
begin

text \<open>
  \<open>example_no_std/src/lib.rs\<close>: inspecting a UDP frame on a device without an operating system.
\<close>

definition PAYLOAD :: bytes where
  "PAYLOAD = ascii ''nata/no_std''"

record UdpSummary =
  us_source_address :: u32
  us_destination_address :: u32
  us_source_port :: u16
  us_destination_port :: u16
  us_payload_length :: nat

text \<open>The function returns an option; the outcome tells that it returns at all.\<close>

definition inspect_udp_frame :: "'c env \<Rightarrow> bytes \<Rightarrow> (unit, UdpSummary option) outcome" where
  "inspect_udp_frame env frame =
     obind (result_ok (of_run (parse_packet env (Ether_t env) (PacketParser_new env) frame))) (\<lambda>parsed.
     Ok (case parsed of
       None \<Rightarrow> None
     | Some (rest, packet) \<Rightarrow>
         if rest \<noteq> [] then None
         else Option.bind (find_map get_ipv4 (Packet_layers packet)) (\<lambda>ipv4.
           Option.bind (find_map get_udp (Packet_layers packet)) (\<lambda>udp.
           Option.bind (find_map get_raw (Packet_layers packet)) (\<lambda>raw.
           Some \<lparr>us_source_address = ip4_src ipv4, us_destination_address = ip4_dst ipv4,
             us_source_port = udp_sport udp, us_destination_port = udp_dport udp,
             us_payload_length = length (raw_data raw)\<rparr>)))))"

definition udp_layers :: "'c LayerOwned list" where
  "udp_layers =
     [LEther \<lparr>ether_dst = MacAddress 2 0 0 0 0 2, ether_src = MacAddress 2 0 0 0 0 1, ether_type = IPv4\<rparr>,
      LIpv4 (Ipv4_default\<lparr>ip4_src := 0xC0000201, ip4_dst := 0xC6336402, ip4_ttl := 64, ip4_protocol := UDP\<rparr>),
      LUdp (Udp_default\<lparr>udp_sport := 40000, udp_dport := 53\<rparr>),
      LRaw (Raw_default\<lparr>raw_data := PAYLOAD\<rparr>)]"

definition build_and_inspect_udp :: "'c env \<Rightarrow> (unit, UdpSummary option) outcome" where
  "build_and_inspect_udp env =
     (case Packet_finalize env (Packet_from_layers udp_layers) of (packet, finalized) \<Rightarrow>
      obind (result_ok finalized) (\<lambda>done.
      (case done of
         None \<Rightarrow> Ok None
       | Some _ \<Rightarrow> obind (result_ok (Packet_to_bytes env packet)) (\<lambda>bytes.
           (case bytes of None \<Rightarrow> Ok None | Some bytes \<Rightarrow> inspect_udp_frame env bytes)))))"

section \<open>The layers of a UDP frame\<close>

lemma linked_udp_frame:
  assumes "linked env (LEther e # ls)" and "LIpv4 v \<in> set ls" and "LUdp u \<in> set ls" and "LRaw r \<in> set ls"
  shows "ls = [LIpv4 v, LUdp u, LRaw r]"
proof -
  have len: "length ls \<le> 3" using linked_length [OF assms(1)] .
  have "{LIpv4 v, LUdp u, LRaw r} \<subseteq> set ls" using assms(2-4) by simp
  from card_mono [OF finite_set this] have "3 \<le> card (set ls)" by simp
  with len have "length ls = 3" using card_length [of ls] by simp
  then obtain x y z where ls: "ls = [x, y, z]"
    by (auto simp: length_Suc_conv numeral_3_eq_3)
  have "x = LIpv4 v" "y = LUdp u" "z = LRaw r"
    using assms unfolding ls by (cases x; cases y; auto split: if_splits)+
  then show ?thesis using ls by simp
qed

text \<open>A UDP frame that is built, finalised, serialised and parsed back.\<close>

lemma udp_frame_built:
  fixes env :: "'c env"
  assumes env: "packet_env env" and e: "Ether_wf e" "ether_type e = IPv4" and v: "Ipv4_wf v" "ip4_protocol v = UDP" "ip4_ihl v = 5"
    and data: "data \<noteq> []" "length data \<le> 65507"
  shows "\<exists>p v' u' bs. Packet_finalize env (Packet_from_layers [LEther e, LIpv4 v, LUdp u, LRaw \<lparr>raw_data = data, raw_bit_offset = 0\<rparr>])
        = (p, Ok ()) \<and> Packet_to_bytes env p = Ok bs \<and>
      parse_packet env (Ether_t env) (PacketParser_new env) bs = Some (Ok ([], p)) \<and>
      pkt_layers p = [LEther e, LIpv4 v', LUdp u', LRaw \<lparr>raw_data = data, raw_bit_offset = 0\<rparr>] \<and>
      ip4_src v' = ip4_src v \<and> ip4_dst v' = ip4_dst v \<and> udp_sport u' = udp_sport u \<and> udp_dport u' = udp_dport u"
proof -
  let ?rest = "[LRaw \<lparr>raw_data = data, raw_bit_offset = 0\<rparr>] :: 'c LayerOwned list"
  note deku = packet_env.env_deku [OF env]
  have rest: "list_all is_raw ?rest" "layers_to_bytes env ?rest = Ok data"
    by (simp_all add: is_raw_def layers_to_bytes_eq deku_laws.Raw_to_bytes_eq [OF deku])
  obtain hdr where hdr: "Ipv4_to_bytes (env_dk env) v = Ok hdr"
    using packet_env.wf_Ipv4_bytes [OF env v(1)] by blast
  have "sum_list (map Ipv4Option_bits (ip4_options v)) = 0" using v(1,3) by (simp add: Ipv4_wf_def)
  moreover have "8 * length hdr = 160 + sum_list (map Ipv4Option_bits (ip4_options v))"
    using deku_laws.Ipv4_to_bytes_length [OF deku hdr] by (simp add: Ipv4_bits_def)
  ultimately have "length hdr = 20" by linarith
  then have "length hdr + 8 + length data \<le> 65535" using data(2) by simp
  from packet_env.udp_frame_once [OF env v(1) rest hdr this, of e u] obtain n c v' u' where
      v': "v' = v\<lparr>ip4_length := n, ip4_checksum := c\<rparr>" and u': "udp_sport u' = udp_sport u" "udp_dport u' = udp_dport u"
      and run: "Packet_finalize env (Packet_from_layers (LEther e # LIpv4 v # LUdp u # ?rest))
        = (Packet_from_layers (LEther e # LIpv4 v' # LUdp u' # ?rest), Ok ())"
    by blast
  let ?p = "Packet_from_layers (LEther e # LIpv4 v' # LUdp u' # ?rest)"
  have "Ipv4_wf v'" "ip4_protocol v' = UDP"
    using v by (simp_all add: v' Ipv4_wf_def Ipv4_parsed_def)
  then have "frame_wf env ?p"
    using e data(1) by (auto simp: frame_wf_def Packet_from_layers_def Raw_wf_def)
  from frame_wf_reparse [OF env this] obtain bs where
      "Packet_to_bytes env ?p = Ok bs" "parse_packet env (Ether_t env) (PacketParser_new env) bs = Some (Ok ([], ?p))"
    by blast
  with run u' show ?thesis
    by (intro exI [where x = ?p] exI [where x = v'] exI [where x = u'] exI [where x = bs])
      (simp add: Packet_from_layers_def v')
qed

text \<open>The frame the example builds.\<close>

definition udp_summary :: UdpSummary where
  "udp_summary = \<lparr>us_source_address = 0xC0000201, us_destination_address = 0xC6336402, us_source_port = 40000,
     us_destination_port = 53, us_payload_length = length PAYLOAD\<rparr>"

lemma built_frame_inspected:
  assumes "packet_env env"
  shows "\<exists>p bs. Packet_finalize env (Packet_from_layers udp_layers) = (p, Ok ()) \<and> Packet_to_bytes env p = Ok bs \<and>
    inspect_udp_frame env bs = Ok (Some udp_summary)"
proof -
  let ?e = "\<lparr>ether_dst = MacAddress 2 0 0 0 0 2, ether_src = MacAddress 2 0 0 0 0 1, ether_type = IPv4\<rparr>"
  let ?v = "Ipv4_default\<lparr>ip4_src := 0xC0000201, ip4_dst := 0xC6336402, ip4_ttl := 64, ip4_protocol := UDP\<rparr>"
  let ?u = "Udp_default\<lparr>udp_sport := 40000, udp_dport := 53\<rparr>"
  have pre: "Ether_wf ?e" "ether_type ?e = IPv4" "Ipv4_wf ?v" "ip4_protocol ?v = UDP" "ip4_ihl ?v = 5"
      "PAYLOAD \<noteq> []" "length PAYLOAD \<le> 65507"
    by (simp_all add: Ether_wf_def EtherType_wf_def Ipv4_wf_def Ipv4_parsed_def Ipv4_default_def IpProtocol_wf_def
        PAYLOAD_def ascii_def)
  have layers: "udp_layers = [LEther ?e, LIpv4 ?v, LUdp ?u, LRaw \<lparr>raw_data = PAYLOAD, raw_bit_offset = 0\<rparr>]"
    by (simp add: udp_layers_def Raw_default_def)
  from udp_frame_built [OF assms pre, of ?u, folded layers] obtain p v' u' bs where
      run: "Packet_finalize env (Packet_from_layers udp_layers) = (p, Ok ())" "Packet_to_bytes env p = Ok bs"
        "parse_packet env (Ether_t env) (PacketParser_new env) bs = Some (Ok ([], p))"
      and p: "pkt_layers p = [LEther ?e, LIpv4 v', LUdp u', LRaw \<lparr>raw_data = PAYLOAD, raw_bit_offset = 0\<rparr>]"
        "ip4_src v' = ip4_src ?v" "ip4_dst v' = ip4_dst ?v" "udp_sport u' = udp_sport ?u" "udp_dport u' = udp_dport ?u"
    unfolding layers by blast
  have "inspect_udp_frame env bs = Ok (Some udp_summary)"
    using p by (simp add: inspect_udp_frame_def run(3) Packet_layers_def udp_summary_def)
  with run show ?thesis by blast
qed

section \<open>Properties\<close>

text \<open>
  (C40) Inspecting any bytes returns.  A summary is given exactly for the frames of Ethernet of type IPv4, IPv4 of protocol
  UDP, UDP and raw data that the default parser reads to the end: its layers serialise to the frame, and it reports
  their addresses, ports and payload length.  No well-formed frame of these layers is refused.
\<close>

theorem inspect_udp_frame_exact:
  assumes "packet_env env"
  shows "case inspect_udp_frame env frame of
     Ok None \<Rightarrow> \<not> (\<exists>e v u r. parse_packet env (Ether_t env) (PacketParser_new env) frame
         = Some (Ok ([], Packet_from_layers [LEther e, LIpv4 v, LUdp u, LRaw r]))) \<and>
       \<not> (\<exists>e v u r. frame_wf env (Packet_from_layers [LEther e, LIpv4 v, LUdp u, LRaw r]) \<and>
         Packet_to_bytes env (Packet_from_layers [LEther e, LIpv4 v, LUdp u, LRaw r]) = Ok frame)
   | Ok (Some s) \<Rightarrow> \<exists>e v u r. ether_type e = IPv4 \<and> ip4_protocol v = UDP \<and>
       parse_packet env (Ether_t env) (PacketParser_new env) frame
         = Some (Ok ([], Packet_from_layers [LEther e, LIpv4 v, LUdp u, LRaw r])) \<and>
       Packet_to_bytes env (Packet_from_layers [LEther e, LIpv4 v, LUdp u, LRaw r]) = Ok frame \<and>
       s = \<lparr>us_source_address = ip4_src v, us_destination_address = ip4_dst v, us_source_port = udp_sport u,
         us_destination_port = udp_dport u, us_payload_length = length (raw_data r)\<rparr>
   | _ \<Rightarrow> False"
proof -
  let ?p = "\<lambda>e v u r. Packet_from_layers [LEther e, LIpv4 v, LUdp u, LRaw r]"
  from frame_parse_lossless [OF assms, of frame] obtain res where
      res: "parse_packet env (Ether_t env) (PacketParser_new env) frame = Some res"
      and sound: "case res of Ok (rest, pkt) \<Rightarrow> rest = [] \<and> Packet_to_bytes env pkt = Ok frame \<and>
         (\<exists>e ls. pkt_layers pkt = LEther e # ls \<and> length ls \<le> 3 \<and> linked env (LEther e # ls))
       | Err e \<Rightarrow> True | _ \<Rightarrow> False"
    by blast
  have wf: "res = Ok ([], ?p e v u r)" if "frame_wf env (?p e v u r)" "Packet_to_bytes env (?p e v u r) = Ok frame" for e v u r
    using frame_wf_reparse [OF assms that(1)] that(2) res by auto
  show ?thesis
  proof (cases res)
    case (Ok q)
    then obtain pkt e ls where q: "q = ([], pkt)" and bytes: "Packet_to_bytes env pkt = Ok frame"
        and layers: "pkt_layers pkt = LEther e # ls" and linked: "linked env (LEther e # ls)"
      using sound by (cases q) auto
    have run: "inspect_udp_frame env frame = Ok (
        Option.bind (find_map get_ipv4 ls) (\<lambda>ipv4. Option.bind (find_map get_udp ls) (\<lambda>udp.
        Option.bind (find_map get_raw ls) (\<lambda>raw.
          Some \<lparr>us_source_address = ip4_src ipv4, us_destination_address = ip4_dst ipv4,
             us_source_port = udp_sport udp, us_destination_port = udp_dport udp,
             us_payload_length = length (raw_data raw)\<rparr>))))"
      using res Ok q layers by (simp add: inspect_udp_frame_def Packet_layers_def)
    show ?thesis
    proof (cases "find_map get_ipv4 ls = None \<or> find_map get_udp ls = None \<or> find_map get_raw ls = None")
      case True
      then have none: "inspect_udp_frame env frame = Ok None"
        unfolding run by (auto split: Option.bind_split)
      from True have ls: "ls \<noteq> [LIpv4 v, LUdp u, LRaw r]" for v u r by auto
      have other: "res \<noteq> Ok ([], ?p e v u r)" for e v u r
        using Ok q layers ls [of v u r] by (auto simp: Packet_from_layers_def)
      then have "\<not> (frame_wf env (?p e v u r) \<and> Packet_to_bytes env (?p e v u r) = Ok frame)" for e v u r
        using wf by blast
      with other res show ?thesis by (simp add: none)
    next
      case False
      then obtain v u r where found: "find_map get_ipv4 ls = Some v" "find_map get_udp ls = Some u" "find_map get_raw ls = Some r"
        by auto
      then have ls: "ls = [LIpv4 v, LUdp u, LRaw r]"
        using linked_udp_frame [OF linked] find_map_get(2,3,5) by blast
      then have "pkt = ?p e v u r"
        using layers by (simp add: Packet_from_layers_def)
      moreover have "ether_type e = IPv4" "ip4_protocol v = UDP"
        using linked by (auto simp: ls split: if_splits)
      ultimately show ?thesis using bytes res Ok q by (auto simp: run found)
    qed
  qed (use res sound wf in \<open>auto simp: inspect_udp_frame_def\<close>)
qed

theorem inspect_udp_frame_exact_witness:
  "\<exists>bs s e v u r. inspect_udp_frame dev_env bs = Ok (Some s) \<and> ip4_protocol v = UDP \<and>
     Packet_to_bytes dev_env (Packet_from_layers [LEther e, LIpv4 v, LUdp u, LRaw r]) = Ok bs"
proof -
  obtain bs s where "inspect_udp_frame dev_env bs = Ok (Some s)"
    using built_frame_inspected [OF dev_packets.packet_env_axioms] by blast
  with inspect_udp_frame_exact [OF dev_packets.packet_env_axioms, of bs] show ?thesis by auto blast
qed

text \<open>
  What the example's test and its firmware expect: building the UDP frame and inspecting its bytes
  gives exactly the addresses, ports and payload length it was built from.
\<close>

lemma build_and_inspect_udp_result:
  assumes "packet_env env"
  shows "build_and_inspect_udp env = Ok (Some \<lparr>us_source_address = 0xC0000201, us_destination_address = 0xC6336402,
    us_source_port = 40000, us_destination_port = 53, us_payload_length = length PAYLOAD\<rparr>)"
  using built_frame_inspected [OF assms] by (auto simp: build_and_inspect_udp_def udp_summary_def)

end
