(* ===== verification/Command_Line.thy ===== *)
theory Command_Line
  imports Nata_Prelude
begin

text \<open>
  What the examples use of the standard library to read their command lines: \<open>FromStr\<close> of \<open>Ipv4Addr\<close> and of
  \<open>u16\<close>, and \<open>process::exit\<close>.  An address is read exactly when it is written in dotted decimal notation without
  leading zeros; the lemmas characterise the accepted texts by \<open>dotted\<close>, which prints an address.
\<close>

section \<open>Leaving the program\<close>

text \<open>\<open>process::exit(code)\<close> is \<open>Exit code\<close>.\<close>

datatype 'a exit = Exit nat | Done 'a

text \<open>The panic of \<open>unwrap\<close>; the rendering of the error is left out of the message.\<close>

definition unwrap_msg :: string where
  "unwrap_msg = ''called unwrap() on an Err or None value''"

section \<open>Decimal numbers\<close>

definition is_digit :: "char \<Rightarrow> bool" where
  "is_digit c \<longleftrightarrow> 48 \<le> (of_char c :: nat) \<and> (of_char c :: nat) \<le> 57"

definition digit_value :: "char \<Rightarrow> nat" where
  "digit_value c = of_char c - 48"

definition decimal :: "string \<Rightarrow> nat" where
  "decimal ds = foldl (\<lambda>n c. 10 * n + digit_value c) 0 ds"

lemma decimal_Nil [simp]: "decimal [] = 0"
  by (simp add: decimal_def)

lemma decimal_snoc [simp]: "decimal (ds @ [c]) = 10 * decimal ds + digit_value c"
  by (simp add: decimal_def)

lemma digit_char:
  assumes "n < 10"
  shows "is_digit (char_of (48 + n))" "digit_value (char_of (48 + n)) = n"
  using assms by (simp_all add: is_digit_def digit_value_def)

lemma digit_value: "is_digit c \<Longrightarrow> digit_value c < 10 \<and> c = char_of (48 + digit_value c)"
  by (auto simp: is_digit_def digit_value_def)

lemma char_zero: "char_of (48 :: nat) = CHR ''0''"
  using char_of_char [where 'a = nat, of "CHR ''0''"] by simp

lemma show_nat_ne [simp]: "show_nat n \<noteq> []"
  by (subst show_nat.simps) simp

lemma show_nat_digits: "list_all is_digit (show_nat n)" "decimal (show_nat n) = n"
proof (induction n rule: show_nat.induct)
  case (1 n)
  {
    case 1
    show ?case using "1.IH"(1) digit_char(1) by (subst show_nat.simps) simp
  next
    case 2
    show ?case
    proof (cases "n < 10")
      case True
      then show ?thesis
        using decimal_snoc [of "[]" "char_of (48 + n)"] digit_char(2) by (subst show_nat.simps) simp
    next
      case False
      then show ?thesis
        using "1.IH"(2) digit_char(2) [of "n mod 10"] by (subst show_nat.simps) simp
    qed
  }
qed

text \<open>A decimal number without a leading zero is the rendering of its value.\<close>

lemma show_decimal:
  assumes "list_all is_digit ds" and "ds \<noteq> []" and "hd ds = CHR ''0'' \<longrightarrow> length ds = 1"
  shows "show_nat (decimal ds) = ds \<and> (hd ds \<noteq> CHR ''0'' \<longrightarrow> 0 < decimal ds)"
  using assms
proof (induction ds rule: rev_induct)
  case (snoc c ds)
  then have c: "digit_value c < 10" "c = char_of (48 + digit_value c)"
    using digit_value by auto
  show ?case
  proof (cases "ds = []")
    case True
    have "c = CHR ''0''" if "digit_value c = 0" using c(2) that char_zero by simp
    with c True show ?thesis
      using decimal_snoc [of "[]" c] by (subst show_nat.simps) auto
  next
    case False
    with snoc.prems have "hd ds \<noteq> CHR ''0''" by auto
    with snoc.IH snoc.prems False have "show_nat (decimal ds) = ds" "0 < decimal ds" by auto
    with c False show ?thesis by (subst show_nat.simps) simp
  qed
qed simp

text \<open>Its first digit is zero only for zero, and it has as many digits as its size allows.\<close>

lemma show_nat_hd: "hd (show_nat n) = CHR ''0'' \<longleftrightarrow> n = 0"
proof (induction n rule: show_nat.induct)
  case (1 n)
  show ?case
  proof (cases "n < 10")
    case True
    have "digit_value (char_of (48 + n)) = digit_value CHR ''0'' \<longleftrightarrow> n = 0"
      using digit_char(2) [OF True] by (simp add: digit_value_def)
    with True char_zero show ?thesis by (subst show_nat.simps) auto
  next
    case False
    with 1 show ?thesis by (subst show_nat.simps) simp
  qed
qed

lemma show_nat_length: "0 < k \<Longrightarrow> n < 10 ^ k \<Longrightarrow> length (show_nat n) \<le> k"
proof (induction n arbitrary: k rule: show_nat.induct)
  case (1 n)
  show ?case
  proof (cases "n < 10")
    case True
    with 1 show ?thesis by (subst show_nat.simps) simp
  next
    case False
    then obtain j where k: "k = Suc j" "0 < j" using "1.prems" by (cases k; cases "k - 1") auto
    with "1.prems" have "n div 10 < 10 ^ j" by (simp add: div_less_iff_less_mult)
    with "1.IH" False k show ?thesis by (subst show_nat.simps) simp
  qed
qed

section \<open>IPv4 addresses\<close>

definition read_octet :: "string \<Rightarrow> (string \<times> nat) option" where
  "read_octet s = (let ds = takeWhile is_digit s in
     if ds = [] \<or> 3 < length ds \<or> hd ds = CHR ''0'' \<and> 1 < length ds \<or> 255 < decimal ds then None
     else Some (dropWhile is_digit s, decimal ds))"

fun read_dot :: "string \<Rightarrow> string option" where
  "read_dot (c # s) = (if c = CHR ''.'' then Some s else None)"
| "read_dot [] = None"

definition Ipv4Addr_from_str :: "string \<Rightarrow> u32 option" where
  "Ipv4Addr_from_str s = (if 15 < length s then None else
     Option.bind (read_octet s) (\<lambda>(s, a). Option.bind (read_dot s) (\<lambda>s.
     Option.bind (read_octet s) (\<lambda>(s, b). Option.bind (read_dot s) (\<lambda>s.
     Option.bind (read_octet s) (\<lambda>(s, c). Option.bind (read_dot s) (\<lambda>s.
     Option.bind (read_octet s) (\<lambda>(s, d).
       if s = [] then Some (word_of_nat (((a * 256 + b) * 256 + c) * 256 + d)) else None))))))))"

definition dotted :: "nat \<Rightarrow> nat \<Rightarrow> nat \<Rightarrow> nat \<Rightarrow> string" where
  "dotted a b c d = show_nat a @ ''.'' @ show_nat b @ ''.'' @ show_nat c @ ''.'' @ show_nat d"

lemma read_octet_iff:
  "read_octet s = Some (rest, n) \<longleftrightarrow> n < 256 \<and> s = show_nat n @ rest \<and> (rest = [] \<or> \<not> is_digit (hd rest))"
proof
  assume *: "read_octet s = Some (rest, n)"
  define ds where "ds = takeWhile is_digit s"
  from * have n: "n = decimal ds" "rest = dropWhile is_digit s" "n < 256" "ds \<noteq> []"
      "hd ds = CHR ''0'' \<longrightarrow> \<not> 1 < length ds"
    by (auto simp: read_octet_def ds_def [symmetric] Let_def split: if_splits)
  then have "hd ds = CHR ''0'' \<longrightarrow> length ds = 1" by (cases ds) auto
  moreover have "list_all is_digit ds" by (auto simp: list_all_iff ds_def dest: set_takeWhileD)
  ultimately have "show_nat n = ds" using show_decimal [of ds] n by simp
  then have "s = show_nat n @ rest" using n(2) takeWhile_dropWhile_id [of is_digit s] by (simp add: ds_def)
  moreover have "rest = [] \<or> \<not> is_digit (hd rest)" using n(2) hd_dropWhile [of is_digit s] by blast
  ultimately show "n < 256 \<and> s = show_nat n @ rest \<and> (rest = [] \<or> \<not> is_digit (hd rest))" using n(3) by blast
next
  assume *: "n < 256 \<and> s = show_nat n @ rest \<and> (rest = [] \<or> \<not> is_digit (hd rest))"
  have all: "\<forall>c \<in> set (show_nat n). is_digit c" using show_nat_digits(1) [of n] by (simp add: list_all_iff)
  have "takeWhile is_digit s = show_nat n \<and> dropWhile is_digit s = rest"
    using * all by (cases rest) (auto simp: takeWhile_append dropWhile_append)
  moreover have "length (show_nat n) \<le> 3" using * by (intro show_nat_length) simp_all
  moreover have "length (show_nat 0) = 1" by (simp add: show_nat.simps)
  ultimately show "read_octet s = Some (rest, n)"
    using * show_nat_digits(2) [of n] show_nat_hd [of n] by (auto simp: read_octet_def)
qed

lemma read_dot_iff: "read_dot s = Some r \<longleftrightarrow> s = CHR ''.'' # r"
  by (cases s) auto

lemma dot_no_digit [simp]: "\<not> is_digit CHR ''.''"
  by (simp add: is_digit_def)

lemma Ipv4Addr_from_str_iff:
  "Ipv4Addr_from_str s = Some w \<longleftrightarrow> (\<exists>a b c d. a < 256 \<and> b < 256 \<and> c < 256 \<and> d < 256 \<and> s = dotted a b c d \<and>
     w = word_of_nat (((a * 256 + b) * 256 + c) * 256 + d))"
proof -
  have len: "length (dotted a b c d) \<le> 15" if "a < 256" "b < 256" "c < 256" "d < 256" for a b c d
    using show_nat_length [of 3 a] show_nat_length [of 3 b] show_nat_length [of 3 c] show_nat_length [of 3 d] that
    by (simp add: dotted_def)
  show ?thesis
  proof
    assume "Ipv4Addr_from_str s = Some w"
    then obtain a b c d s1 s2 s3 where "read_octet s = Some (CHR ''.'' # s1, a)" "read_octet s1 = Some (CHR ''.'' # s2, b)"
        "read_octet s2 = Some (CHR ''.'' # s3, c)" "read_octet s3 = Some ([], d)"
        "w = word_of_nat (((a * 256 + b) * 256 + c) * 256 + d)"
      unfolding Ipv4Addr_from_str_def by (auto simp: bind_eq_Some_conv read_dot_iff split: if_splits)
    then show "\<exists>a b c d. a < 256 \<and> b < 256 \<and> c < 256 \<and> d < 256 \<and> s = dotted a b c d \<and>
        w = word_of_nat (((a * 256 + b) * 256 + c) * 256 + d)"
      unfolding read_octet_iff dotted_def by fastforce
  next
    assume "\<exists>a b c d. a < 256 \<and> b < 256 \<and> c < 256 \<and> d < 256 \<and> s = dotted a b c d \<and>
        w = word_of_nat (((a * 256 + b) * 256 + c) * 256 + d)"
    then obtain a b c d where *: "a < 256" "b < 256" "c < 256" "d < 256" "s = dotted a b c d"
        "w = word_of_nat (((a * 256 + b) * 256 + c) * 256 + d)" by blast
    have dot: "read_octet (show_nat n @ CHR ''.'' # r) = Some (CHR ''.'' # r, n)" and fin: "read_octet (show_nat n) = Some ([], n)"
      if "n < 256" for n r using that read_octet_iff by auto
    show "Ipv4Addr_from_str s = Some w"
      using len [OF *(1-4)] dot * by (simp add: Ipv4Addr_from_str_def dotted_def fin)
  qed
qed

section \<open>16-bit numbers\<close>

text \<open>An optional plus sign and at least one digit; leading zeros are allowed.\<close>

definition u16_from_str :: "string \<Rightarrow> u16 option" where
  "u16_from_str s =
     (let ds = (case s of c # cs \<Rightarrow> if c = CHR ''+'' then cs else s | [] \<Rightarrow> s) in
      if ds = [] \<or> \<not> list_all is_digit ds \<or> 65535 < decimal ds then None else Some (word_of_nat (decimal ds)))"

lemma u16_from_show:
  assumes "n < 65536"
  shows "u16_from_str (show_nat n) = Some (word_of_nat n)"
proof (cases "show_nat n")
  case (Cons c cs)
  then have "is_digit c" using show_nat_digits(1) [of n] by simp
  then have "c \<noteq> CHR ''+''" by (auto simp: is_digit_def)
  with Cons assms show_nat_digits [of n] show ?thesis by (simp add: u16_from_str_def)
qed simp

end
