(* ===== verification/Assertions.thy ===== *)
theory Assertions
  imports Command_Line
begin

text \<open>
  Assertions of the examples and of the tests.  An assertion that fails is a panic, and so is \<open>unwrap\<close> of an error; a
  test is an outcome without value or error, which passes when it is \<open>Ok ()\<close> and fails when it is a panic.
\<close>

definition assert_that :: "bool \<Rightarrow> ('e, unit) outcome" where
  "assert_that b = (if b then Ok () else Panic ''assertion failed'')"

definition assert_eq :: "'a \<Rightarrow> 'a \<Rightarrow> ('e, unit) outcome" where
  "assert_eq left right = assert_that (left = right)"

definition assert_ne :: "'a \<Rightarrow> 'a \<Rightarrow> ('e, unit) outcome" where
  "assert_ne left right = assert_that (left \<noteq> right)"

text \<open>\<open>xs[i]\<close> panics out of range.\<close>

definition index_list :: "'a list \<Rightarrow> nat \<Rightarrow> ('e, 'a) outcome" where
  "index_list xs i = (if i < length xs then Ok (xs ! i) else Panic index_msg)"

text \<open>\<open>slice::split_at\<close>.\<close>

definition split_at :: "'a list \<Rightarrow> nat \<Rightarrow> ('e, 'a list \<times> 'a list) outcome" where
  "split_at xs n = (if n \<le> length xs then Ok (take n xs, drop n xs) else Panic index_msg)"

definition unwrap :: "('e, 'a) outcome \<Rightarrow> ('d, 'a) outcome" where
  "unwrap r = expect_ok unwrap_msg r"

definition unwrap_some :: "'a option \<Rightarrow> ('e, 'a) outcome" where
  "unwrap_some x = (case x of None \<Rightarrow> Panic unwrap_msg | Some a \<Rightarrow> Ok a)"

text \<open>A test case after the other: a loop, or the cases of \<open>rstest\<close>; the first failure ends the run.\<close>

fun for_each :: "'a list \<Rightarrow> ('a \<Rightarrow> ('e, unit) outcome) \<Rightarrow> ('e, unit) outcome" where
  "for_each [] body = Ok ()"
| "for_each (x # xs) body = obind (body x) (\<lambda>_. for_each xs body)"

text \<open>
  \<open>#[should_panic]\<close>.  With \<open>expected\<close>, the message must contain a string: for the \<open>unwrap\<close> of an error that is a condition
  on the error, \<open>fails_with\<close>.
\<close>

fun should_panic :: "('e, 'a) outcome \<Rightarrow> ('d, unit) outcome" where
  "should_panic (Panic m) = Ok ()"
| "should_panic r = Panic ''test did not panic as expected''"

fun fails_with :: "('d \<Rightarrow> bool) \<Rightarrow> ('d, 'a) outcome \<Rightarrow> ('e, unit) outcome" where
  "fails_with expected (Err e) = assert_that (expected e)"
| "fails_with expected r = Panic ''panic did not contain expected string''"

lemma assert_that_True [simp]: "assert_that True = Ok ()"
  by (simp add: assert_that_def)

lemma assert_that_Ok: "b \<Longrightarrow> assert_that b = Ok ()"
  by (simp add: assert_that_def)

lemma assert_eq_refl [simp]: "assert_eq a a = Ok ()"
  by (simp add: assert_eq_def)

lemma unwrap_simps [simp]:
  "unwrap (Ok a) = Ok a" "unwrap (Err e) = Panic unwrap_msg" "unwrap (Panic m) = Panic m" "unwrap Diverge = Diverge"
  "unwrap_some (Some a) = Ok a" "unwrap_some None = Panic unwrap_msg"
  by (simp_all add: unwrap_def unwrap_some_def)

lemma for_each_Ok: "for_each xs body = Ok () \<longleftrightarrow> (\<forall>x \<in> set xs. body x = Ok ())"
  by (induction xs) (auto simp: outcome_simps)

lemmas assert_simps = assert_that_def assert_eq_def assert_ne_def

end
