(* ===== verification/Build_Packet.thy ===== *)
theory Build_Packet
  imports Udp_Inspect Assertions
begin

text \<open>
  \<open>examples/build_packet.rs\<close>: build a UDP packet, finalise it, serialise it and parse it back.  An assertion that fails is
  a panic.
\<close>

definition udp_data :: bytes where
  "udp_data = ascii ''hello from nata''"

definition build_layers :: "'c LayerOwned list" where
  "build_layers =
     [LEther \<lparr>ether_dst = MacAddress 2 0 0 0 0 2, ether_src = MacAddress 2 0 0 0 0 1, ether_type = IPv4\<rparr>,
      LIpv4 (Ipv4_default\<lparr>ip4_src := 0xC0000201, ip4_dst := 0xC6336402, ip4_ttl := 64, ip4_protocol := UDP\<rparr>),
      LUdp (Udp_default\<lparr>udp_sport := 40000, udp_dport := 53\<rparr>),
      LRaw (Raw_default\<lparr>raw_data := udp_data\<rparr>)]"

definition assert_layer :: "'c env \<Rightarrow> 'c Packet \<Rightarrow> nat \<Rightarrow> TypeId \<Rightarrow> (unit, unit) outcome" where
  "assert_layer env p i t = obind (index_list (Packet_layers p) i) (\<lambda>l. assert_that (is_layer env l t))"

definition build_packet :: "'c env \<Rightarrow> (unit, unit) outcome" where
  "build_packet env =
     (case Packet_finalize env (Packet_from_layers build_layers) of (packet, finalized) \<Rightarrow>
      obind (expect_ok unwrap_msg finalized) (\<lambda>_.
      obind (expect_ok unwrap_msg (Packet_to_bytes env packet)) (\<lambda>bytes.
      obind (expect_ok unwrap_msg (of_run (parse_packet env (Ether_t env) (PacketParser_new env) bytes))) (\<lambda>(rest, parsed).
      obind (assert_that (rest = [])) (\<lambda>_.
      obind (assert_that (length (Packet_layers parsed) = 4)) (\<lambda>_.
      obind (assert_layer env parsed 0 TEther) (\<lambda>_.
      obind (assert_layer env parsed 1 TIpv4) (\<lambda>_.
      obind (assert_layer env parsed 2 TUdp) (\<lambda>_.
      assert_layer env parsed 3 TRaw)))))))))"

text \<open>
  Every assertion of the example holds: it ends without a panic.
\<close>

lemma build_packet_asserts:
  fixes env :: "'c env"
  assumes "packet_env env"
  shows "build_packet env = Ok ()"
proof -
  let ?e = "\<lparr>ether_dst = MacAddress 2 0 0 0 0 2, ether_src = MacAddress 2 0 0 0 0 1, ether_type = IPv4\<rparr>"
  let ?v = "Ipv4_default\<lparr>ip4_src := 0xC0000201, ip4_dst := 0xC6336402, ip4_ttl := 64, ip4_protocol := UDP\<rparr>"
  let ?u = "Udp_default\<lparr>udp_sport := 40000, udp_dport := 53\<rparr>"
  have pre: "Ether_wf ?e" "ether_type ?e = IPv4" "Ipv4_wf ?v" "ip4_protocol ?v = UDP" "ip4_ihl ?v = 5"
      "udp_data \<noteq> []" "length udp_data \<le> 65507"
    by (simp_all add: Ether_wf_def EtherType_wf_def Ipv4_wf_def Ipv4_parsed_def Ipv4_default_def IpProtocol_wf_def
        udp_data_def ascii_def)
  have layers: "(build_layers :: 'c LayerOwned list)
      = [LEther ?e, LIpv4 ?v, LUdp ?u, LRaw \<lparr>raw_data = udp_data, raw_bit_offset = 0\<rparr>]"
    by (simp add: build_layers_def Raw_default_def)
  from udp_frame_built [OF assms pre, of ?u] obtain p v' u' bs where
      run: "Packet_finalize env (Packet_from_layers (build_layers :: 'c LayerOwned list)) = (p, Ok ())"
        "Packet_to_bytes env p = Ok bs" "parse_packet env (Ether_t env) (PacketParser_new env) bs = Some (Ok ([], p))"
      and p: "pkt_layers p = [LEther ?e, LIpv4 v', LUdp u', LRaw \<lparr>raw_data = udp_data, raw_bit_offset = 0\<rparr>]"
    unfolding layers by blast
  show ?thesis
    by (simp add: build_packet_def run Packet_layers_def p assert_that_def assert_layer_def index_list_def is_layer_def)
qed

end
