(* ===== verification/Firmware.thy ===== *)
theory Firmware
  imports Udp_Inspect Assertions
begin

text \<open>
  The firmware around the UDP inspection: its entry point \<open>example_no_std/src/main.rs\<close> as a step relation, since neither
  \<open>main\<close> nor the panic handler returns, and its build script \<open>example_no_std/build.rs\<close> on an explicit file system.
\<close>

section \<open>The entry point\<close>

text \<open>
  The crate \<open>embedded_alloc\<close> and the address the linker gives the heap's memory are parameters.  A failing allocation is
  outside the model, here as everywhere.
\<close>

record 'h allocator =
  al_empty :: 'h
  al_init :: "nat \<Rightarrow> nat \<Rightarrow> 'h \<Rightarrow> 'h"

definition HEAP_SIZE :: nat where
  "HEAP_SIZE = 16 * 1024"

text \<open>Where control is: before and after the heap is set up, in the loop of \<open>main\<close>, in the loop of the panic handler.\<close>

datatype control = Entry | Heap_ready | Main_loop | Panic_loop

record 'h firmware =
  fw_heap :: 'h
  fw_control :: control

definition firmware_entry :: "'h allocator \<Rightarrow> 'h firmware" where
  "firmware_entry al = \<lparr>fw_heap = al_empty al, fw_control = Entry\<rparr>"

definition firmware_check :: "'c env \<Rightarrow> (unit, unit) outcome" where
  "firmware_check env = obind (build_and_inspect_udp env) (\<lambda>summary.
     assert_eq (Some \<lparr>us_source_address = 0xC0000201, us_destination_address = 0xC6336402, us_source_port = 40000,
       us_destination_port = 53, us_payload_length = length PAYLOAD\<rparr>) summary)"

inductive firmware_step :: "'c env \<Rightarrow> 'h allocator \<Rightarrow> nat \<Rightarrow> 'h firmware \<Rightarrow> 'h firmware \<Rightarrow> bool"
  for env :: "'c env" and al :: "'h allocator" and heap_memory :: nat where
  set_up: "fw_control m = Entry \<Longrightarrow>
     firmware_step env al heap_memory m (m\<lparr>fw_heap := al_init al heap_memory HEAP_SIZE (fw_heap m), fw_control := Heap_ready\<rparr>)"
| checked: "fw_control m = Heap_ready \<Longrightarrow> firmware_check env = Ok () \<Longrightarrow>
     firmware_step env al heap_memory m (m\<lparr>fw_control := Main_loop\<rparr>)"
| panics: "fw_control m = Heap_ready \<Longrightarrow> firmware_check env = Panic msg \<Longrightarrow>
     firmware_step env al heap_memory m (m\<lparr>fw_control := Panic_loop\<rparr>)"
| diverges: "fw_control m = Heap_ready \<Longrightarrow> firmware_check env = Diverge \<Longrightarrow> firmware_step env al heap_memory m m"
| main_spins: "fw_control m = Main_loop \<Longrightarrow> firmware_step env al heap_memory m m"
| panic_spins: "fw_control m = Panic_loop \<Longrightarrow> firmware_step env al heap_memory m m"

inductive_cases firmware_stepE: "firmware_step env al heap_memory m m'"

lemma firmware_check_passes:
  assumes "packet_env env"
  shows "firmware_check env = Ok ()"
  using build_and_inspect_udp_result [OF assms] by (simp add: firmware_check_def)

text \<open>
  The firmware sets up its heap once, checks the summary and reaches the loop of \<open>main\<close>; it never enters the panic
  handler, and it never stops.
\<close>

definition firmware_inv :: "'h allocator \<Rightarrow> nat \<Rightarrow> 'h firmware \<Rightarrow> bool" where
  "firmware_inv al heap_memory m \<longleftrightarrow> fw_control m \<noteq> Panic_loop \<and>
     fw_heap m = (if fw_control m = Entry then al_empty al else al_init al heap_memory HEAP_SIZE (al_empty al))"

lemma firmware_step_inv:
  assumes "packet_env env" and "firmware_step env al heap_memory m m'" and "firmware_inv al heap_memory m"
  shows "firmware_inv al heap_memory m'"
  using assms(2,3) by cases (simp_all add: firmware_inv_def firmware_check_passes [OF assms(1)])

lemma firmware_never_panics:
  assumes "packet_env env" and "(firmware_step env al heap_memory)\<^sup>*\<^sup>* (firmware_entry al) m"
  shows "firmware_inv al heap_memory m"
  using assms(2)
proof (induction rule: rtranclp_induct)
  case base
  show ?case by (simp add: firmware_inv_def firmware_entry_def)
next
  case (step m m')
  then show ?case using firmware_step_inv [OF assms(1)] by blast
qed

lemma firmware_runs_on:
  assumes "packet_env env" and "(firmware_step env al heap_memory)\<^sup>*\<^sup>* (firmware_entry al) m"
  shows "\<exists>m'. firmware_step env al heap_memory m m'"
  using firmware_never_panics [OF assms] firmware_check_passes [OF assms(1)]
  by (cases "fw_control m") (auto simp: firmware_inv_def intro: firmware_step.intros)

lemma firmware_reaches_loop:
  assumes "packet_env env"
  shows "(firmware_step env al heap_memory)\<^sup>*\<^sup>* (firmware_entry al)
    \<lparr>fw_heap = al_init al heap_memory HEAP_SIZE (al_empty al), fw_control = Main_loop\<rparr>"
proof -
  let ?ready = "\<lparr>fw_heap = al_init al heap_memory HEAP_SIZE (al_empty al), fw_control = Heap_ready\<rparr>"
  have "firmware_step env al heap_memory (firmware_entry al) ?ready"
    using firmware_step.set_up [of "firmware_entry al"] by (simp add: firmware_entry_def)
  moreover have "firmware_step env al heap_memory ?ready (?ready\<lparr>fw_control := Main_loop\<rparr>)"
    by (rule firmware_step.checked) (simp_all add: firmware_check_passes [OF assms])
  ultimately show ?thesis by (simp add: converse_rtranclp_into_rtranclp)
qed

text \<open>The loop of \<open>main\<close> is left by no step.\<close>

lemma firmware_loop_stays:
  assumes "firmware_step env al heap_memory m m'" and "fw_control m = Main_loop"
  shows "m' = m"
  using assms by (auto elim: firmware_stepE)

section \<open>The build script\<close>

text \<open>
  The script sees the environment and the files, prints lines for Cargo and copies the linker script.  A variable that is
  not Unicode equals no text, so that its value can be compared as it is.  A directory that exists takes files;
  copying a file onto itself empties it.  Paths are those of Unix; \<open>Path::display\<close>, which alters what is not Unicode, is
  a parameter.
\<close>

record file_system =
  fs_files :: "string \<Rightarrow> bytes option"
  fs_writable :: "string \<Rightarrow> bool"

definition fs_copy :: "string \<Rightarrow> string \<Rightarrow> file_system \<Rightarrow> file_system option" where
  "fs_copy from to fs = (case fs_files fs from of
     None \<Rightarrow> None
   | Some data \<Rightarrow> if fs_writable fs to then Some (fs\<lparr>fs_files := (fs_files fs)(to \<mapsto> if to = from then [] else data)\<rparr>)
       else None)"

text \<open>\<open>Path::join\<close> of a relative path.\<close>

definition path_join :: "string \<Rightarrow> string \<Rightarrow> string" where
  "path_join base p = (if base = [] \<or> last base = CHR ''/'' then base @ p else base @ ''/'' @ p)"

definition build_script ::
    "(string \<Rightarrow> string) \<Rightarrow> (string \<Rightarrow> string option) \<Rightarrow> file_system \<Rightarrow> (file_system \<times> string list) \<times> (unit, unit) outcome" where
  "build_script display var fs =
     (let out = [''cargo:rerun-if-changed=memory.x''] in
      if var ''CARGO_CFG_TARGET_OS'' \<noteq> Some ''none'' then ((fs, out), Ok ())
      else case var ''OUT_DIR'' of
        None \<Rightarrow> ((fs, out), Panic ''OUT_DIR is set by Cargo'')
      | Some out_dir \<Rightarrow>
          (case fs_copy ''memory.x'' (path_join out_dir ''memory.x'') fs of
             None \<Rightarrow> ((fs, out), Panic ''failed to copy memory.x'')
           | Some fs' \<Rightarrow> ((fs', out @ [''cargo:rustc-link-search='' @ display out_dir, ''cargo:rustc-link-arg=-Tlink.x'']), Ok ())))"

text \<open>Only a build without an operating system touches a file, and then only the copy of the linker script.\<close>

lemma build_script_frame:
  assumes "build_script display var fs = ((fs', out), res)"
  shows "fs_writable fs' = fs_writable fs \<and> (\<forall>f. fs_files fs' f \<noteq> fs_files fs f \<longrightarrow>
    var ''CARGO_CFG_TARGET_OS'' = Some ''none'' \<and> (\<exists>d. var ''OUT_DIR'' = Some d \<and> f = path_join d ''memory.x'') \<and> res = Ok ())"
  using assms by (auto simp: build_script_def fs_copy_def Let_def split: if_splits option.splits)

text \<open>With Cargo's variables and the linker script in place it links with the copy.\<close>

lemma build_script_copies:
  assumes "var ''CARGO_CFG_TARGET_OS'' = Some ''none''" and "var ''OUT_DIR'' = Some d" and "d \<noteq> []"
    and "fs_files fs ''memory.x'' = Some data" and "fs_writable fs (path_join d ''memory.x'')"
  shows "\<exists>fs'. build_script display var fs = ((fs', [''cargo:rerun-if-changed=memory.x'',
      ''cargo:rustc-link-search='' @ display d, ''cargo:rustc-link-arg=-Tlink.x'']), Ok ()) \<and>
    fs_files fs' (path_join d ''memory.x'') = Some data \<and> fs_files fs' ''memory.x'' = Some data"
proof -
  have "length (path_join d ''memory.x'') > length ''memory.x''"
    using assms(3) by (cases d) (simp_all add: path_join_def)
  then have "path_join d ''memory.x'' \<noteq> ''memory.x''" by (metis less_irrefl)
  with assms show ?thesis by (simp add: build_script_def fs_copy_def Let_def)
qed

end
