(* ===== verification/Frame_Stable.thy ===== *)
theory Frame_Stable
  imports Packet_Finalize
begin

text \<open>
  Repeated \<open>Packet::finalize\<close> on frames of Ethernet, IPv4 or IPv6, TCP or UDP, and raw payload.  What the transport
  layers need of the IP layer below them is the locale \<open>ip_carrier\<close>; IPv4 and IPv6 are its instances.
\<close>

section \<open>The contract of an IP layer\<close>

text \<open>
  \<open>ip_sized v n\<close> is the header that \<open>finalize\<close> makes of \<open>v\<close> in front of \<open>n\<close> bytes, \<open>ip_room v\<close> how many bytes fit, and
  \<open>ip_valid\<close> what is promised of the length and the checksum.
\<close>

locale ip_carrier = packet_env env for env :: "'c env" +
  fixes ip :: "'v \<Rightarrow> 'c LayerOwned"
    and ip_ok :: "'v \<Rightarrow> bool"
    and ip_room :: "'v \<Rightarrow> nat"
    and ip_sized :: "'v \<Rightarrow> nat \<Rightarrow> 'v"
    and ip_valid :: "'v \<Rightarrow> nat \<Rightarrow> bool"
  assumes ip_finalize: "ip_ok v \<Longrightarrow> layers_to_bytes env next = Ok payload \<Longrightarrow> length payload \<le> ip_room v \<Longrightarrow>
      layer_finalize env (ip v) prev next = (ip (ip_sized v (length payload)), Ok ())"
    and ip_room_le: "ip_room v \<le> 65535"
    and ip_over: "over_ip (prev @ [ip v])"
    and ip_sized_ok: "ip_ok v \<Longrightarrow> ip_ok (ip_sized v n)"
    and ip_sized_room: "ip_ok v \<Longrightarrow> ip_room (ip_sized v n) = ip_room v"
    and ip_sized_sized: "ip_ok v \<Longrightarrow> ip_sized (ip_sized v m) n = ip_sized v n"
    and ip_sized_valid: "ip_ok v \<Longrightarrow> n \<le> ip_room v \<Longrightarrow> ip_valid (ip_sized v n) n"
begin

lemma frame_run:
  assumes "ip_ok v" and "layers_to_bytes env (tr # rest) = Ok payload" and "length payload \<le> ip_room v"
    and "layer_finalize env tr [LEther e, ip (ip_sized v (length payload))] rest = (tr', Ok ())" and "list_all is_raw rest"
  shows "Packet_finalize env (Packet_from_layers (LEther e # ip v # tr # rest))
    = (Packet_from_layers (LEther e # ip (ip_sized v (length payload)) # tr' # rest), Ok ())"
  using ip_finalize [OF assms(1-3), of "[LEther e]"] assms(4,5)
  by (simp add: Packet_finalize_from Packet_from_layers_def Ether_finalize_def finalize_raw)

lemma over_carrier: "over_ip [LEther e, ip v]"
  using ip_over [of "[LEther e]" v] by simp

text \<open>TCP: the first run pads the options and sets the offset, the second sets the lengths and checksums, the third nothing.\<close>

lemma tcp_frame_stable:
  assumes v: "ip_ok v" and rest: "list_all is_raw rest" "layers_to_bytes env rest = Ok data"
    and t: "Tcp_to_bytes (env_dk env) t = Ok thdr" and off: "unat (tcp_offset t) < 16" and words: "tcp_words t < 16"
    and fits: "4 * tcp_words t + length data \<le> ip_room v"
  defines "n \<equiv> 4 * tcp_words t + length data"
  shows "\<exists>p' c seg ph. let t' = (tcp_padded t)\<lparr>tcp_offset := word_of_nat (tcp_words t), tcp_checksum := c\<rparr>;
      q = Packet_from_layers (LEther e # ip (ip_sized v n) # LTcp t' # rest) in
    Packet_finalize env (Packet_from_layers (LEther e # ip v # LTcp t # rest)) = (p', Ok ()) \<and>
    Packet_finalize env p' = (q, Ok ()) \<and> Packet_finalize env q = (q, Ok ()) \<and>
    (Tcp_bits t = 32 * unat (tcp_offset t) \<longrightarrow> p' = q) \<and> ip_valid (ip_sized v n) n \<and>
    Tcp_to_bytes (env_dk env) t' = Ok seg \<and> length seg = 4 * tcp_words t \<and>
    ip_pseudo_header ''tcp_length'' env (ip (ip_sized v n)) n = Ok (Some ph) \<and>
    checksum (env_pf env) (ph @ seg @ data) = (Ok 0 :: (LayerError, u16) outcome)"
proof -
  let ?w = "word_of_nat (tcp_words t) :: u8"
  have total: "4 * tcp_words t + length data \<le> 65535"
    using fits ip_room_le [of v] by simp
  have thdr: "8 * length thdr = Tcp_bits t" "length thdr \<le> 4 * tcp_words t"
    using deku.Tcp_to_bytes_length [OF t] by (simp_all add: tcp_words_def)
  have bytes: "layers_to_bytes env (LTcp t' # rest) = Ok (hdr @ data)" if "Tcp_to_bytes (env_dk env) t' = Ok hdr" for t' hdr
    using rest(2) that by (simp add: layers_to_bytes_eq)
  let ?v1 = "ip_sized v (length thdr + length data)" and ?v2 = "ip_sized v n"
  \<comment> \<open>the first run\<close>
  from Tcp_finalize_segment [OF t rest(2) total words over_carrier off, of e ?v1] obtain c1 seg1 where
      t1: "Tcp_finalize env t [LEther e, ip ?v1] rest = ((tcp_padded t)\<lparr>tcp_checksum := c1, tcp_offset := ?w\<rparr>, Ok ())"
        "Tcp_to_bytes (env_dk env) ((tcp_padded t)\<lparr>tcp_checksum := c1, tcp_offset := ?w\<rparr>) = Ok seg1"
    by auto
  define t1' where "t1' = (tcp_padded t)\<lparr>tcp_checksum := c1, tcp_offset := ?w\<rparr>"
  have run1: "Packet_finalize env (Packet_from_layers (LEther e # ip v # LTcp t # rest))
      = (Packet_from_layers (LEther e # ip ?v1 # LTcp t1' # rest), Ok ())"
    using frame_run [OF v bytes [OF t] _ _ rest(1), of e "LTcp t1'"] thdr(2) fits t1(1) by (simp add: t1'_def)
  \<comment> \<open>the second and the third run\<close>
  have bits: "Tcp_bits t1' = 32 * tcp_words t" "tcp_offset t1' = ?w"
    by (simp_all add: t1'_def Tcp_bits_padded)
  from Tcp_finalize_settled [OF bits(1) words bits(2) t1(2) [folded t1'_def] rest(2) total over_carrier, of e ?v2] obtain ph c seg where
      ph: "ip_pseudo_header ''tcp_length'' env (ip ?v2) n = Ok (Some ph)"
      and t2: "Tcp_finalize env t1' [LEther e, ip ?v2] rest = (t1'\<lparr>tcp_checksum := c\<rparr>, Ok ())"
        "Tcp_finalize env (t1'\<lparr>tcp_checksum := c\<rparr>) [LEther e, ip ?v2] rest = (t1'\<lparr>tcp_checksum := c\<rparr>, Ok ())"
      and seg: "Tcp_to_bytes (env_dk env) (t1'\<lparr>tcp_checksum := c\<rparr>) = Ok seg"
      and ver: "checksum (env_pf env) (ph @ seg @ data) = (Ok 0 :: (LayerError, u16) outcome)"
    by (auto simp: n_def)
  define t' where "t' = t1'\<lparr>tcp_checksum := c\<rparr>"
  have len: "length seg1 = 4 * tcp_words t" "length seg = 4 * tcp_words t"
    using deku.Tcp_to_bytes_length [OF t1(2)] deku.Tcp_to_bytes_length [OF seg] bits(1) by (simp_all add: t1'_def Tcp_bits_padded)
  let ?q = "Packet_from_layers (LEther e # ip ?v2 # LTcp t' # rest)"
  have run2: "Packet_finalize env (Packet_from_layers (LEther e # ip ?v1 # LTcp t1' # rest)) = (?q, Ok ())"
    using frame_run [OF ip_sized_ok [OF v] bytes [OF t1(2) [folded t1'_def]] _ _ rest(1), of "length thdr + length data" e "LTcp t'"]
      fits t2(1) len(1) by (simp add: ip_sized_room [OF v] ip_sized_sized [OF v] n_def t'_def)
  have run3: "Packet_finalize env ?q = (?q, Ok ())"
    using frame_run [OF ip_sized_ok [OF v] bytes [OF seg [folded t'_def]] _ _ rest(1), of n e "LTcp t'"]
      fits t2(2) len(2) by (simp add: ip_sized_room [OF v] ip_sized_sized [OF v] n_def t'_def)
  have once: "Packet_from_layers (LEther e # ip ?v1 # LTcp t1' # rest) = ?q" if settled: "Tcp_bits t = 32 * unat (tcp_offset t)"
  proof -
    have pad: "tcp_padded t = t" "tcp_words t = unat (tcp_offset t)"
      using tcp_aligned_padded [OF settled] by simp_all
    then have n: "length thdr + length data = n"
      using thdr(1) settled by (simp add: n_def)
    have w: "?w = tcp_offset t" using pad(2) by simp
    from Tcp_finalize_settled [OF settled off _ t rest(2) _ over_carrier, of e ?v2] total pad(2) obtain c2 where
        "Tcp_finalize env t [LEther e, ip ?v2] rest = (t\<lparr>tcp_checksum := c2\<rparr>, Ok ())"
        "Tcp_finalize env (t\<lparr>tcp_checksum := c2\<rparr>) [LEther e, ip ?v2] rest = (t\<lparr>tcp_checksum := c2\<rparr>, Ok ())"
      by auto
    moreover have "t1' = t\<lparr>tcp_checksum := c1\<rparr>"
      using pad(1) w by (simp add: t1'_def)
    ultimately have "t1' = t'"
      using t1(1) t2(1) by (simp add: n t1'_def t'_def)
    with n show ?thesis by simp
  qed
  have "(tcp_padded t)\<lparr>tcp_offset := ?w, tcp_checksum := c\<rparr> = t'"
    by (simp add: t'_def t1'_def)
  moreover have "ip_valid ?v2 n"
    using ip_sized_valid [OF v] fits by (simp add: n_def)
  ultimately show ?thesis
    using run1 run2 run3 once ph seg [folded t'_def] len(2) ver
    by (intro exI [where x = "Packet_from_layers (LEther e # ip ?v1 # LTcp t1' # rest)"] exI [where x = c]
        exI [where x = seg] exI [where x = ph]) (simp add: Let_def)
qed

text \<open>UDP: the first run sets the lengths, the second the checksum, the third nothing.\<close>

lemma udp_frame_stable:
  assumes v: "ip_ok v" and rest: "list_all is_raw rest" "layers_to_bytes env rest = Ok data"
    and fits: "8 + length data \<le> ip_room v"
  defines "n \<equiv> 8 + length data"
  shows "\<exists>p' c ph. let u' = u\<lparr>udp_length := word_of_nat n, udp_checksum := c\<rparr>;
      q = Packet_from_layers (LEther e # ip (ip_sized v n) # LUdp u' # rest) in
    Packet_finalize env (Packet_from_layers (LEther e # ip v # LUdp u # rest)) = (p', Ok ()) \<and>
    Packet_finalize env p' = (q, Ok ()) \<and> Packet_finalize env q = (q, Ok ()) \<and>
    (udp_length u = word_of_nat n \<longrightarrow> p' = q) \<and> ip_valid (ip_sized v n) n \<and>
    ip_pseudo_header ''udp_length'' env (ip (ip_sized v n)) n = Ok (Some ph) \<and>
    checksum (env_pf env) (ph @ Udp_bytes u' @ data) = (Ok 0 :: (LayerError, u16) outcome)"
proof -
  have total: "8 + length data \<le> 65535"
    using fits ip_room_le [of v] by simp
  have bytes: "layers_to_bytes env (LUdp u # rest) = Ok (Udp_bytes u @ data)" for u
    using rest(2) by (simp add: layers_to_bytes_eq deku.Udp_to_bytes_eq)
  let ?v = "ip_sized v n"
  from Udp_finalize_payload [OF rest(2) total, of "[LEther e, ip ?v]" u] over_carrier obtain c1 where
      u1: "Udp_finalize env u [LEther e, ip ?v] rest = (u\<lparr>udp_length := word_of_nat n, udp_checksum := c1\<rparr>, Ok ())"
    by (auto simp: n_def)
  define u1' where "u1' = u\<lparr>udp_length := word_of_nat n, udp_checksum := c1\<rparr>"
  have len: "udp_length u1' = word_of_nat (8 + length data)" by (simp add: u1'_def n_def)
  from Udp_finalize_settled [OF rest(2) total over_carrier len, of e ?v] obtain ph c where
      ph: "ip_pseudo_header ''udp_length'' env (ip ?v) n = Ok (Some ph)"
      and u2: "Udp_finalize env u1' [LEther e, ip ?v] rest = (u1'\<lparr>udp_checksum := c\<rparr>, Ok ())"
        "Udp_finalize env (u1'\<lparr>udp_checksum := c\<rparr>) [LEther e, ip ?v] rest = (u1'\<lparr>udp_checksum := c\<rparr>, Ok ())"
      and ver: "checksum (env_pf env) (udp_message ph (u1'\<lparr>udp_checksum := c\<rparr>) data) = (Ok 0 :: (LayerError, u16) outcome)"
    by (auto simp: n_def)
  define u' where "u' = u1'\<lparr>udp_checksum := c\<rparr>"
  let ?q = "Packet_from_layers (LEther e # ip ?v # LUdp u' # rest)"
  have run1: "Packet_finalize env (Packet_from_layers (LEther e # ip v # LUdp u # rest))
      = (Packet_from_layers (LEther e # ip ?v # LUdp u1' # rest), Ok ())"
    using frame_run [OF v bytes [of u] _ _ rest(1), of e "LUdp u1'"] fits u1 by (simp add: n_def u1'_def)
  have run2: "Packet_finalize env (Packet_from_layers (LEther e # ip ?v # LUdp u1' # rest)) = (?q, Ok ())"
    using frame_run [OF ip_sized_ok [OF v] bytes [of u1'] _ _ rest(1), of n e "LUdp u'"] fits u2(1)
    by (simp add: ip_sized_room [OF v] ip_sized_sized [OF v] n_def u'_def)
  have run3: "Packet_finalize env ?q = (?q, Ok ())"
    using frame_run [OF ip_sized_ok [OF v] bytes [of u'] _ _ rest(1), of n e "LUdp u'"] fits u2(2)
    by (simp add: ip_sized_room [OF v] ip_sized_sized [OF v] n_def u'_def)
  have "u1' = u'" if "udp_length u = word_of_nat n"
  proof -
    have "udp_length u = word_of_nat (8 + length data)" using that by (simp add: n_def)
    from Udp_finalize_settled [OF rest(2) total over_carrier this, of e ?v] obtain c2 where
        c2: "Udp_finalize env u [LEther e, ip ?v] rest = (u\<lparr>udp_checksum := c2\<rparr>, Ok ())"
        "Udp_finalize env (u\<lparr>udp_checksum := c2\<rparr>) [LEther e, ip ?v] rest = (u\<lparr>udp_checksum := c2\<rparr>, Ok ())"
      by blast
    have "u1' = u\<lparr>udp_checksum := c2\<rparr>"
      using c2(1) u1 by (simp add: u1'_def)
    with c2(2) u2(1) show ?thesis by (simp add: u'_def)
  qed
  moreover have "u\<lparr>udp_length := word_of_nat n, udp_checksum := c\<rparr> = u'"
    by (simp add: u'_def u1'_def)
  moreover have "ip_valid ?v n"
    using ip_sized_valid [OF v] fits by (simp add: n_def)
  ultimately show ?thesis
    using run1 run2 run3 ph ver [folded u'_def]
    by (intro exI [where x = "Packet_from_layers (LEther e # ip ?v # LUdp u1' # rest)"] exI [where x = c] exI [where x = ph])
      (simp add: Let_def udp_message_def)
qed

end

section \<open>IPv4 and IPv6\<close>

definition ipv4_sized :: "'c env \<Rightarrow> Ipv4 \<Rightarrow> nat \<Rightarrow> Ipv4" where
  "ipv4_sized env v n = fst (Ipv4_update_checksum (env_pf env) (env_dk env)
     (v\<lparr>ip4_length := word_of_nat (Ipv4_bits v div 8 + n)\<rparr>))"

definition ipv4_ok :: "'c env \<Rightarrow> Ipv4 \<Rightarrow> bool" where
  "ipv4_ok env v \<longleftrightarrow> Ipv4_bits v \<le> 8 * 65535 \<and> (\<exists>hdr. Ipv4_to_bytes (env_dk env) v = Ok hdr)"

definition ipv4_valid :: "'c env \<Rightarrow> Ipv4 \<Rightarrow> nat \<Rightarrow> bool" where
  "ipv4_valid env v n \<longleftrightarrow> (\<exists>hdr. Ipv4_to_bytes (env_dk env) v = Ok hdr \<and> unat (ip4_length v) = length hdr + n \<and>
     checksum (env_pf env) hdr = (Ok 0 :: (LayerError, u16) outcome))"

lemma Ipv4_bits_update [simp]: "Ipv4_bits (v\<lparr>ip4_length := n\<rparr>) = Ipv4_bits v" "Ipv4_bits (v\<lparr>ip4_checksum := c\<rparr>) = Ipv4_bits v"
  by (simp_all add: Ipv4_bits_def)

text \<open>The checksum does not depend on the checksum before.\<close>

lemma Ipv4_update_checksum_again:
  assumes "deku_laws D" and "Ipv4_to_bytes D v = Ok hdr"
  shows "Ipv4_update_checksum pf D (v\<lparr>ip4_checksum := c\<rparr>) =
    (case Ipv4_update_checksum pf D v of (w, r) \<Rightarrow> (if r = Ok () then w else v\<lparr>ip4_checksum := c\<rparr>, r))"
proof -
  from deku_laws.Ipv4_update_checksum_cases [OF assms(1), of v pf] assms(2) obtain pre post where
      pre: "length pre = 10" "\<forall>c. Ipv4_to_bytes D (v\<lparr>ip4_checksum := c\<rparr>) = Ok (pre @ u16_to_be_bytes c @ post)"
      and run: "Ipv4_update_checksum pf D v = try_in v (checksum pf (pre @ [0, 0] @ post)) (\<lambda>c. (v\<lparr>ip4_checksum := c\<rparr>, Ok ()))"
    by auto
  from deku_laws.Ipv4_update_checksum_cases [OF assms(1), of "v\<lparr>ip4_checksum := c\<rparr>" pf] pre(2) obtain pre' post' where
      pre': "length pre' = 10" "pre @ u16_to_be_bytes c @ post = pre' @ u16_to_be_bytes c @ post'"
      and run': "Ipv4_update_checksum pf D (v\<lparr>ip4_checksum := c\<rparr>) = try_in (v\<lparr>ip4_checksum := c\<rparr>)
        (checksum pf (pre' @ [0, 0] @ post')) (\<lambda>c. (v\<lparr>ip4_checksum := c\<rparr>, Ok ()))"
    by auto
  have "pre' = pre \<and> post' = post"
    using pre(1) pre' by simp
  with run run' show ?thesis
    by (cases "checksum pf (pre @ [0, 0] @ post) :: (LayerError, u16) outcome") simp_all
qed

context packet_env
begin

lemma ipv4_sized:
  assumes "ipv4_ok env v"
  shows "\<exists>c hdr. ipv4_sized env v n = v\<lparr>ip4_length := word_of_nat (Ipv4_bits v div 8 + n), ip4_checksum := c\<rparr> \<and>
    Ipv4_update_checksum (env_pf env) (env_dk env) (v\<lparr>ip4_length := word_of_nat (Ipv4_bits v div 8 + n)\<rparr>)
      = (ipv4_sized env v n, Ok ()) \<and>
    Ipv4_to_bytes (env_dk env) (ipv4_sized env v n) = Ok hdr \<and> length hdr = Ipv4_bits v div 8 \<and>
    checksum (env_pf env) hdr = (Ok 0 :: (LayerError, u16) outcome)"
proof -
  let ?w = "v\<lparr>ip4_length := word_of_nat (Ipv4_bits v div 8 + n)\<rparr>"
  obtain hdr0 where "Ipv4_to_bytes (env_dk env) v = Ok hdr0"
    using assms(1) by (auto simp: ipv4_ok_def)
  from deku.Ipv4_to_bytes_set_length [OF this] obtain hdr1 where
      hdr1: "Ipv4_to_bytes (env_dk env) ?w = Ok hdr1" by blast
  have "Ipv4_bits ?w \<le> 8 * 131074"
    using assms(1) by (simp add: ipv4_ok_def)
  from deku.Ipv4_update_checksum_valid [OF this, of "env_pf env"] hdr1 obtain c hdr where
      run: "Ipv4_update_checksum (env_pf env) (env_dk env) ?w = (?w\<lparr>ip4_checksum := c\<rparr>, Ok ())"
      and hdr: "Ipv4_to_bytes (env_dk env) (?w\<lparr>ip4_checksum := c\<rparr>) = Ok hdr"
        "checksum (env_pf env) hdr = (Ok 0 :: (LayerError, u16) outcome)"
    by auto
  moreover have "length hdr = Ipv4_bits v div 8"
    using deku.Ipv4_to_bytes_length [OF hdr(1)] by simp
  ultimately show ?thesis
    unfolding ipv4_sized_def by (intro exI [where x = c] exI [where x = hdr]) simp
qed

lemma ipv4_ok_bits:
  assumes "ipv4_ok env v" and "Ipv4_to_bytes (env_dk env) v = Ok hdr"
  shows "length hdr = Ipv4_bits v div 8" "Ipv4_bits v div 8 \<le> 65535"
  using assms deku.Ipv4_to_bytes_length [OF assms(2)] by (simp_all add: ipv4_ok_def)

end

lemma ipv4_carrier:
  assumes env: "packet_env env"
  shows "ip_carrier env LIpv4 (ipv4_ok env) (\<lambda>v. 65535 - Ipv4_bits v div 8) (ipv4_sized env) (ipv4_valid env)"
proof (intro ip_carrier.intro env ip_carrier_axioms.intro)
  fix v payload prev "next"
  assume v: "ipv4_ok env v" and payload: "layers_to_bytes env next = Ok payload" and fits: "length payload \<le> 65535 - Ipv4_bits v div 8"
  obtain hdr where hdr: "Ipv4_to_bytes (env_dk env) v = Ok hdr"
    using v by (auto simp: ipv4_ok_def)
  note len = packet_env.ipv4_ok_bits [OF env v hdr]
  then have total: "length hdr + length payload \<le> 65535" "Ipv4_bits v div 8 + length payload \<le> 65535"
    using fits by simp_all
  from packet_env.Ipv4_finalize_run [OF env hdr payload total(1), of prev] packet_env.ipv4_sized [OF env v, of "length payload"] len(1)
  show "layer_finalize env (LIpv4 v) prev next = (LIpv4 (ipv4_sized env v (length payload)), Ok ())"
    by auto
next
  fix v :: Ipv4 and m n :: nat
  assume v: "ipv4_ok env v"
  note D = packet_env.env_deku [OF env]
  obtain c hdr where sized: "ipv4_sized env v m = v\<lparr>ip4_length := word_of_nat (Ipv4_bits v div 8 + m), ip4_checksum := c\<rparr>"
      "Ipv4_to_bytes (env_dk env) (ipv4_sized env v m) = Ok hdr" "length hdr = Ipv4_bits v div 8"
      "checksum (env_pf env) hdr = (Ok 0 :: (LayerError, u16) outcome)"
    using packet_env.ipv4_sized [OF env v] by blast
  then show ok: "ipv4_ok env (ipv4_sized env v m)"
    using v by (simp add: ipv4_ok_def)
  show "ipv4_valid env (ipv4_sized env v m) m" if fits: "m \<le> 65535 - Ipv4_bits v div 8"
  proof -
    have "Ipv4_bits v div 8 + m \<le> 65535"
      using v fits div_le_mono [of "Ipv4_bits v" "8 * 65535" 8] by (simp add: ipv4_ok_def)
    then have "unat (word_of_nat (Ipv4_bits v div 8 + m) :: u16) = Ipv4_bits v div 8 + m"
      by (intro unat_word_of_nat_small [where n = 16]) simp_all
    with sized show ?thesis by (auto simp: ipv4_valid_def)
  qed
  show "65535 - Ipv4_bits (ipv4_sized env v m) div 8 = 65535 - Ipv4_bits v div 8"
    using sized(1) by simp
  let ?w = "v\<lparr>ip4_length := word_of_nat (Ipv4_bits v div 8 + n)\<rparr>"
  obtain hdr0 where "Ipv4_to_bytes (env_dk env) v = Ok hdr0"
    using v by (auto simp: ipv4_ok_def)
  from deku_laws.Ipv4_to_bytes_set_length [OF D this] obtain hdr1 where "Ipv4_to_bytes (env_dk env) ?w = Ok hdr1" by blast
  from Ipv4_update_checksum_again [OF D this, of "env_pf env" c] packet_env.ipv4_sized [OF env v, of n]
  have "Ipv4_update_checksum (env_pf env) (env_dk env) (?w\<lparr>ip4_checksum := c\<rparr>) = (ipv4_sized env v n, Ok ())"
    by auto
  moreover have "ipv4_sized env v m\<lparr>ip4_length := word_of_nat (Ipv4_bits (ipv4_sized env v m) div 8 + n)\<rparr> = ?w\<lparr>ip4_checksum := c\<rparr>"
    using sized(1) by simp
  ultimately show "ipv4_sized env (ipv4_sized env v m) n = ipv4_sized env v n"
    by (simp add: ipv4_sized_def [of env "ipv4_sized env v m"])
qed (simp_all add: over_ip_def)

lemma ipv6_carrier:
  assumes env: "packet_env env"
  shows "ip_carrier env LIpv6 (\<lambda>_. True) (\<lambda>_. 65535) (\<lambda>v n. v\<lparr>ip6_length := word_of_nat n\<rparr>) (\<lambda>v n. unat (ip6_length v) = n)"
proof (intro ip_carrier.intro env ip_carrier_axioms.intro)
  fix v payload prev "next" assume "layers_to_bytes env next = Ok payload" and "length payload \<le> 65535"
  then show "layer_finalize env (LIpv6 v) prev next = (LIpv6 (v\<lparr>ip6_length := word_of_nat (length payload)\<rparr>), Ok ())"
    using packet_env.Ipv6_finalize_spec [OF env, of v prev "next"] by simp
next
  fix v :: Ipv6 and n :: nat assume "n \<le> 65535"
  then show "unat (ip6_length (v\<lparr>ip6_length := word_of_nat n\<rparr>)) = n"
    by (simp, intro unat_word_of_nat_small [where n = 16]) simp_all
qed (simp_all add: over_ip_def)

text \<open>The two instances, for the client without layers.\<close>

interpretation dev_ipv4: ip_carrier dev_env LIpv4 "ipv4_ok dev_env" "\<lambda>v. 65535 - Ipv4_bits v div 8" "ipv4_sized dev_env"
    "ipv4_valid dev_env"
  by (rule ipv4_carrier [OF dev_packets.packet_env_axioms])

interpretation dev_ipv6: ip_carrier dev_env LIpv6 "\<lambda>_. True" "\<lambda>_. 65535" "\<lambda>v n. v\<lparr>ip6_length := word_of_nat n\<rparr>"
    "\<lambda>v n. unat (ip6_length v) = n"
  by (rule ipv6_carrier [OF dev_packets.packet_env_axioms])

section \<open>Properties\<close>

text \<open>
  (C11) Two runs of \<open>Packet::finalize\<close> are enough for every TCP frame over IPv4, whatever its lengths, checksums and data
  offset, with options that need padding or not: the second run ends in a packet with the options padded, the offset,
  the IPv4 length and both checksums right and nothing else changed, and a further run changes nothing.  When the
  header already was as long as its offset says, one run is enough.
\<close>

theorem tcp_frame_finalize_stable:
  assumes env: "packet_env env" and rest: "list_all is_raw rest" "layers_to_bytes env rest = Ok data"
    and hdr: "Ipv4_to_bytes (env_dk env) v = Ok hdr" and t: "Tcp_to_bytes (env_dk env) t = Ok thdr"
    and off: "unat (tcp_offset t) < 16" and words: "tcp_words t < 16"
    and fits: "length hdr + 4 * tcp_words t + length data \<le> 65535"
  shows "\<exists>p' q v' t' hdr' seg ph.
    Packet_finalize env (Packet_from_layers (LEther e # LIpv4 v # LTcp t # rest)) = (p', Ok ()) \<and>
    Packet_finalize env p' = (q, Ok ()) \<and> Packet_finalize env q = (q, Ok ()) \<and>
    (Tcp_bits t = 32 * unat (tcp_offset t) \<longrightarrow> p' = q) \<and>
    q = Packet_from_layers (LEther e # LIpv4 v' # LTcp t' # rest) \<and>
    (\<exists>n c. v' = v\<lparr>ip4_length := n, ip4_checksum := c\<rparr>) \<and>
    (\<exists>c. t' = (tcp_padded t)\<lparr>tcp_offset := word_of_nat (tcp_words t), tcp_checksum := c\<rparr>) \<and>
    Ipv4_to_bytes (env_dk env) v' = Ok hdr' \<and> Tcp_to_bytes (env_dk env) t' = Ok seg \<and> length seg = 4 * tcp_words t \<and>
    unat (ip4_length v') = length hdr' + length seg + length data \<and>
    checksum (env_pf env) hdr' = (Ok 0 :: (LayerError, u16) outcome) \<and>
    ip_pseudo_header ''tcp_length'' env (LIpv4 v') (length seg + length data) = Ok (Some ph) \<and>
    checksum (env_pf env) (ph @ seg @ data) = (Ok 0 :: (LayerError, u16) outcome)"
proof -
  note bits = deku_laws.Ipv4_to_bytes_length [OF packet_env.env_deku [OF env] hdr]
  have ok: "ipv4_ok env v" "4 * tcp_words t + length data \<le> 65535 - Ipv4_bits v div 8"
    using fits bits hdr by (simp_all add: ipv4_ok_def)
  let ?n = "4 * tcp_words t + length data"
  let ?t = "\<lambda>c. (tcp_padded t)\<lparr>tcp_offset := word_of_nat (tcp_words t), tcp_checksum := c\<rparr>"
  let ?q = "\<lambda>c. Packet_from_layers (LEther e # LIpv4 (ipv4_sized env v ?n) # LTcp (?t c) # rest)"
  from ip_carrier.tcp_frame_stable [OF ipv4_carrier [OF env] ok(1) rest t off words ok(2), of e] obtain p' c seg ph where
      runs: "Packet_finalize env (Packet_from_layers (LEther e # LIpv4 v # LTcp t # rest)) = (p', Ok ())"
        "Packet_finalize env p' = (?q c, Ok ())" "Packet_finalize env (?q c) = (?q c, Ok ())"
        "Tcp_bits t = 32 * unat (tcp_offset t) \<longrightarrow> p' = ?q c"
      and valid: "ipv4_valid env (ipv4_sized env v ?n) ?n"
      and seg: "Tcp_to_bytes (env_dk env) (?t c) = Ok seg"
        "length seg = 4 * tcp_words t"
      and sums: "ip_pseudo_header ''tcp_length'' env (LIpv4 (ipv4_sized env v ?n)) ?n = Ok (Some ph)"
        "checksum (env_pf env) (ph @ seg @ data) = (Ok 0 :: (LayerError, u16) outcome)"
    unfolding Let_def by blast
  obtain hdr' where hdr': "Ipv4_to_bytes (env_dk env) (ipv4_sized env v ?n) = Ok hdr'"
      "unat (ip4_length (ipv4_sized env v ?n)) = length hdr' + ?n" "checksum (env_pf env) hdr' = (Ok 0 :: (LayerError, u16) outcome)"
    using valid by (auto simp: ipv4_valid_def)
  have same: "\<exists>n c. ipv4_sized env v ?n = v\<lparr>ip4_length := n, ip4_checksum := c\<rparr>"
    using packet_env.ipv4_sized [OF env ok(1)] by blast
  have n: "length seg + length data = ?n" "length hdr' + length seg + length data = length hdr' + ?n"
    using seg(2) by simp_all
  show ?thesis
    by (intro exI [where x = p'] exI [where x = "?q c"] exI [where x = "ipv4_sized env v ?n"] exI [where x = "?t c"]
        exI [where x = hdr'] exI [where x = seg] exI [where x = ph], unfold n, intro conjI)
      (use runs same seg sums hdr' in blast)+
qed

text \<open>Three options of one byte: the header needs a byte of padding and its offset is too small.\<close>

theorem tcp_frame_finalize_stable_witness:
  "\<exists>p' q t'. Packet_finalize dev_env
      (Packet_from_layers (LEther Ether_default # LIpv4 (frame_ipv4 TCP) # LTcp tcp_example # frame_rest)) = (p', Ok ()) \<and>
    Packet_finalize dev_env p' = (q, Ok ()) \<and> Packet_finalize dev_env q = (q, Ok ()) \<and>
    LTcp t' \<in> set (pkt_layers q) \<and> tcp_offset t' = word_of_nat (tcp_words tcp_example)"
proof -
  obtain hdr where hdr: "Ipv4_to_bytes (env_dk dev_env) (frame_ipv4 TCP) = Ok hdr" "length hdr = 20"
    using frame_ipv4(2) by blast
  obtain thdr where thdr: "Tcp_to_bytes (env_dk dev_env) tcp_example = Ok thdr"
    using tcp_pad_example [of 3] by (auto simp: tcp_example_def)
  have fits: "tcp_words tcp_example < 16" "length hdr + 4 * tcp_words tcp_example + length [1, 2, 3 :: u8] \<le> 65535"
    using hdr(2) tcp_example_words(1) by simp_all
  from tcp_frame_finalize_stable [OF dev_packets.packet_env_axioms frame_rest hdr(1) thdr tcp_example_words(2) fits,
      of Ether_default] obtain p' q v' t' c where
      "Packet_finalize dev_env (Packet_from_layers (LEther Ether_default # LIpv4 (frame_ipv4 TCP) # LTcp tcp_example # frame_rest)) = (p', Ok ())"
      "Packet_finalize dev_env p' = (q, Ok ())" "Packet_finalize dev_env q = (q, Ok ())"
      and q: "q = Packet_from_layers (LEther Ether_default # LIpv4 v' # LTcp t' # frame_rest)"
        "t' = (tcp_padded tcp_example)\<lparr>tcp_offset := word_of_nat (tcp_words tcp_example), tcp_checksum := c\<rparr>"
    by blast
  moreover from q have "LTcp t' \<in> set (pkt_layers q)" "tcp_offset t' = word_of_nat (tcp_words tcp_example)"
    by (simp_all add: Packet_from_layers_def)
  ultimately show ?thesis by blast
qed

text \<open>
  (C12) The same over IPv6: two runs of \<open>Packet::finalize\<close> set the IPv6 payload length, the padded options, the offset and
  the checksum of a TCP frame, which verifies with the IPv6 pseudo header, nothing else changes, and a further run
  changes nothing; one run is enough for a header that is as long as its offset says.
\<close>

theorem ipv6_tcp_frame_finalize_stable:
  assumes env: "packet_env env" and rest: "list_all is_raw rest" "layers_to_bytes env rest = Ok data"
    and t: "Tcp_to_bytes (env_dk env) t = Ok thdr" and off: "unat (tcp_offset t) < 16" and words: "tcp_words t < 16"
    and fits: "4 * tcp_words t + length data \<le> 65535"
  shows "\<exists>p' q v' t' seg ph.
    Packet_finalize env (Packet_from_layers (LEther e # LIpv6 v # LTcp t # rest)) = (p', Ok ()) \<and>
    Packet_finalize env p' = (q, Ok ()) \<and> Packet_finalize env q = (q, Ok ()) \<and>
    (Tcp_bits t = 32 * unat (tcp_offset t) \<longrightarrow> p' = q) \<and>
    q = Packet_from_layers (LEther e # LIpv6 v' # LTcp t' # rest) \<and>
    v' = v\<lparr>ip6_length := word_of_nat (length seg + length data)\<rparr> \<and> unat (ip6_length v') = length seg + length data \<and>
    (\<exists>c. t' = (tcp_padded t)\<lparr>tcp_offset := word_of_nat (tcp_words t), tcp_checksum := c\<rparr>) \<and>
    Tcp_to_bytes (env_dk env) t' = Ok seg \<and> length seg = 4 * tcp_words t \<and>
    ip_pseudo_header ''tcp_length'' env (LIpv6 v') (length seg + length data) = Ok (Some ph) \<and>
    checksum (env_pf env) (ph @ seg @ data) = (Ok 0 :: (LayerError, u16) outcome)"
proof -
  let ?v = "v\<lparr>ip6_length := word_of_nat (4 * tcp_words t + length data)\<rparr>"
  let ?t = "\<lambda>c. (tcp_padded t)\<lparr>tcp_offset := word_of_nat (tcp_words t), tcp_checksum := c\<rparr>"
  let ?q = "\<lambda>c. Packet_from_layers (LEther e # LIpv6 ?v # LTcp (?t c) # rest)"
  from ip_carrier.tcp_frame_stable [OF ipv6_carrier [OF env] TrueI rest t off words fits, of e v] obtain p' c seg ph where
      run: "Packet_finalize env (Packet_from_layers (LEther e # LIpv6 v # LTcp t # rest)) = (p', Ok ())"
      "Packet_finalize env p' = (?q c, Ok ())" "Packet_finalize env (?q c) = (?q c, Ok ())"
      "Tcp_bits t = 32 * unat (tcp_offset t) \<longrightarrow> p' = ?q c" "unat (ip6_length ?v) = 4 * tcp_words t + length data"
      "Tcp_to_bytes (env_dk env) (?t c) = Ok seg" "length seg = 4 * tcp_words t"
      "ip_pseudo_header ''tcp_length'' env (LIpv6 ?v) (4 * tcp_words t + length data) = Ok (Some ph)"
      "checksum (env_pf env) (ph @ seg @ data) = (Ok 0 :: (LayerError, u16) outcome)"
    unfolding Let_def by blast
  have n: "length seg + length data = 4 * tcp_words t + length data"
    using run(7) by simp
  show ?thesis
    by (intro exI [where x = p'] exI [where x = "?q c"] exI [where x = ?v] exI [where x = "?t c"] exI [where x = seg]
        exI [where x = ph], unfold n, intro conjI) (use run in blast)+
qed

definition frame_ipv6 :: Ipv6 where
  "frame_ipv6 = Ipv6_default\<lparr>ip6_next_header := TCP\<rparr>"

theorem ipv6_tcp_frame_finalize_stable_witness:
  "\<exists>p' q v'. Packet_finalize dev_env
      (Packet_from_layers (LEther Ether_default # LIpv6 frame_ipv6 # LTcp tcp_example # frame_rest)) = (p', Ok ()) \<and>
    Packet_finalize dev_env p' = (q, Ok ()) \<and> Packet_finalize dev_env q = (q, Ok ()) \<and>
    LIpv6 v' \<in> set (pkt_layers q) \<and> unat (ip6_length v') = 27"
proof -
  obtain thdr where thdr: "Tcp_to_bytes (env_dk dev_env) tcp_example = Ok thdr"
    using tcp_pad_example [of 3] by (auto simp: tcp_example_def)
  have fits: "tcp_words tcp_example < 16" "4 * tcp_words tcp_example + length [1, 2, 3 :: u8] \<le> 65535"
    using tcp_example_words(1) by simp_all
  from ipv6_tcp_frame_finalize_stable [OF dev_packets.packet_env_axioms frame_rest thdr tcp_example_words(2) fits,
      of Ether_default frame_ipv6] obtain p' q v' t' and seg :: bytes where
      "Packet_finalize dev_env (Packet_from_layers (LEther Ether_default # LIpv6 frame_ipv6 # LTcp tcp_example # frame_rest)) = (p', Ok ())"
      "Packet_finalize dev_env p' = (q, Ok ())" "Packet_finalize dev_env q = (q, Ok ())"
      and q: "q = Packet_from_layers (LEther Ether_default # LIpv6 v' # LTcp t' # frame_rest)"
        "unat (ip6_length v') = length seg + length [1, 2, 3 :: u8]" "length seg = 4 * tcp_words tcp_example"
    by blast
  moreover from q have "LIpv6 v' \<in> set (pkt_layers q)" "unat (ip6_length v') = 27"
    using tcp_example_words(1) by (simp_all add: Packet_from_layers_def)
  ultimately show ?thesis by blast
qed

text \<open>
  (C13) Two runs of \<open>Packet::finalize\<close> make a UDP frame over IPv6 valid: the payload length of IPv6 and the length of UDP
  are right, the checksum verifies with the IPv6 pseudo header, nothing else changes, and a further run changes
  nothing; one run is enough when the UDP length was right.
\<close>

theorem ipv6_udp_frame_finalize_stable:
  assumes env: "packet_env env" and rest: "list_all is_raw rest" "layers_to_bytes env rest = Ok data"
    and fits: "8 + length data \<le> 65535"
  shows "\<exists>p' q v' u' ph.
    Packet_finalize env (Packet_from_layers (LEther e # LIpv6 v # LUdp u # rest)) = (p', Ok ()) \<and>
    Packet_finalize env p' = (q, Ok ()) \<and> Packet_finalize env q = (q, Ok ()) \<and>
    (unat (udp_length u) = 8 + length data \<longrightarrow> p' = q) \<and>
    q = Packet_from_layers (LEther e # LIpv6 v' # LUdp u' # rest) \<and>
    v' = v\<lparr>ip6_length := word_of_nat (8 + length data)\<rparr> \<and> unat (ip6_length v') = 8 + length data \<and>
    (\<exists>c. u' = u\<lparr>udp_length := word_of_nat (8 + length data), udp_checksum := c\<rparr>) \<and>
    ip_pseudo_header ''udp_length'' env (LIpv6 v') (8 + length data) = Ok (Some ph) \<and>
    checksum (env_pf env) (ph @ Udp_bytes u' @ data) = (Ok 0 :: (LayerError, u16) outcome)"
proof -
  let ?v = "v\<lparr>ip6_length := word_of_nat (8 + length data)\<rparr>"
  let ?u = "\<lambda>c. u\<lparr>udp_length := word_of_nat (8 + length data), udp_checksum := c\<rparr>"
  let ?q = "\<lambda>c. Packet_from_layers (LEther e # LIpv6 ?v # LUdp (?u c) # rest)"
  have len: "udp_length u = word_of_nat (8 + length data)" if "unat (udp_length u) = 8 + length data"
    by (simp add: that [symmetric])
  from ip_carrier.udp_frame_stable [OF ipv6_carrier [OF env] TrueI rest fits, where e = e and v = v and u = u] obtain p' c ph where
      run: "Packet_finalize env (Packet_from_layers (LEther e # LIpv6 v # LUdp u # rest)) = (p', Ok ())"
      "Packet_finalize env p' = (?q c, Ok ())" "Packet_finalize env (?q c) = (?q c, Ok ())"
      "udp_length u = word_of_nat (8 + length data) \<longrightarrow> p' = ?q c" "unat (ip6_length ?v) = 8 + length data"
      "ip_pseudo_header ''udp_length'' env (LIpv6 ?v) (8 + length data) = Ok (Some ph)"
      "checksum (env_pf env) (ph @ Udp_bytes (?u c) @ data) = (Ok 0 :: (LayerError, u16) outcome)"
    unfolding Let_def by blast
  show ?thesis
    by (intro exI [where x = p'] exI [where x = "?q c"] exI [where x = ?v] exI [where x = "?u c"] exI [where x = ph] conjI)
      (use run len in blast)+
qed

theorem ipv6_udp_frame_finalize_stable_witness:
  "\<exists>p' q v'. Packet_finalize dev_env
      (Packet_from_layers (LEther Ether_default # LIpv6 (frame_ipv6\<lparr>ip6_next_header := UDP\<rparr>) # LUdp Udp_default # frame_rest))
      = (p', Ok ()) \<and>
    Packet_finalize dev_env p' = (q, Ok ()) \<and> Packet_finalize dev_env q = (q, Ok ()) \<and>
    LIpv6 v' \<in> set (pkt_layers q) \<and> unat (ip6_length v') = 11"
proof -
  have "8 + length [1, 2, 3 :: u8] \<le> 65535" by simp
  from ipv6_udp_frame_finalize_stable [OF dev_packets.packet_env_axioms frame_rest this, of Ether_default
      "frame_ipv6\<lparr>ip6_next_header := UDP\<rparr>" Udp_default] obtain p' q v' u' where
      "Packet_finalize dev_env
        (Packet_from_layers (LEther Ether_default # LIpv6 (frame_ipv6\<lparr>ip6_next_header := UDP\<rparr>) # LUdp Udp_default # frame_rest))
        = (p', Ok ())"
      "Packet_finalize dev_env p' = (q, Ok ())" "Packet_finalize dev_env q = (q, Ok ())"
      and q: "q = Packet_from_layers (LEther Ether_default # LIpv6 v' # LUdp u' # frame_rest)"
        "unat (ip6_length v') = 8 + length [1, 2, 3 :: u8]"
    by blast
  moreover from q have "LIpv6 v' \<in> set (pkt_layers q)" "unat (ip6_length v') = 11"
    by (simp_all add: Packet_from_layers_def)
  ultimately show ?thesis by blast
qed

end
