(* ===== verification/Frame_Fixpoint.thy ===== *)
theory Frame_Fixpoint
  imports Frame_Stable
begin

text \<open>
  Which frames \<open>Packet::finalize\<close> leaves alone: exactly the valid ones, up to the two zeros of one's complement.  A
  checksum field that holds 0xffff can verify, but \<open>finalize\<close> writes that value as 0.
\<close>

section \<open>Checksums\<close>

lemma be_sum_eq_0_iff: "be_sum bs = 0 \<longleftrightarrow> (\<forall>b \<in> set bs. b = 0)"
  by (induction bs rule: be_words.induct) (auto simp: unat_eq_zero)

text \<open>A field that is the checksum of its message with the field cleared.\<close>

lemma rfc1071_own_iff:
  assumes "even (length pre)" and "length pre + 2 + length post \<le> 131074" and nz: "be_sum (pre @ [0, 0] @ post) \<noteq> 0"
  shows "rfc1071 (pre @ [0, 0] @ post) = c \<longleftrightarrow>
    checksum pf (pre @ u16_to_be_bytes c @ post) = (Ok 0 :: (LayerError, u16) outcome) \<and> c \<noteq> 0xffff"
proof -
  let ?s = "be_sum (pre @ [0, 0] @ post)" and ?r = "rfc1071 (pre @ [0, 0] @ post)"
  have filled: "be_sum (pre @ u16_to_be_bytes c @ post) = ?s + unat c"
    using assms(1) by (simp add: be_sum_append be_sum_u16_to_be_bytes)
  have ver: "checksum pf (pre @ u16_to_be_bytes c @ post) = (Ok 0 :: (LayerError, u16) outcome) \<longleftrightarrow> (?s + unat c) mod 65535 = 0"
    using assms(2) nz filled by (subst checksum_zero_iff) simp_all
  have r: "unat ?r < 65535"
    using nz ones_norm_eq_0 [of ?s] unfolding unat_rfc1071 by linarith
  have c: "unat c \<le> 65535" "unat c = 65535 \<longleftrightarrow> c = 0xffff"
    using unat_less_width(2) [of c] by (linarith, simp add: word_unat_eq_iff)
  have "(?s + unat c + unat ?r) mod 65535 = unat c mod 65535"
    using mod_add_left_eq [of "?s + unat ?r" 65535 "unat c"] rfc1071_completes [of "pre @ [0, 0] @ post"]
    by (simp add: ac_simps)
  from mod_cancel_nat [OF this] have "(?s + unat c) mod 65535 = 0 \<longleftrightarrow> unat c mod 65535 = unat ?r mod 65535"
    by (simp only: eq_commute)
  with r c have "(?s + unat c) mod 65535 = 0 \<and> c \<noteq> 0xffff \<longleftrightarrow> unat c = unat ?r"
    by (cases "unat c = 65535") auto
  with ver show ?thesis by (auto simp: word_unat_eq_iff)
qed

section \<open>The layers\<close>

context packet_env
begin

lemma Udp_fixpoint:
  assumes payload: "layers_to_bytes env next = Ok payload" "8 + length payload \<le> 65535" and ip: "over_ip prev"
  shows "\<exists>ph. ip_pseudo_header ''udp_length'' env (last prev) (8 + length payload) = Ok (Some ph) \<and>
    (Udp_finalize env u prev next = (u, Ok ()) \<longleftrightarrow> unat (udp_length u) = 8 + length payload \<and>
      checksum (env_pf env) (ph @ Udp_bytes u @ payload) = (Ok 0 :: (LayerError, u16) outcome) \<and> udp_checksum u \<noteq> 0xffff)"
proof -
  let ?n = "word_of_nat (8 + length payload) :: u16"
  from Udp_finalize_payload [OF payload, of prev u] ip obtain ph where
      ph: "ip_pseudo_header ''udp_length'' env (last prev) (8 + length payload) = Ok (Some ph)"
        "even (length ph)" "length ph \<le> 40"
      and run: "Udp_finalize env u prev next = (u\<lparr>udp_length := ?n,
        udp_checksum := rfc1071 (udp_message ph (u\<lparr>udp_checksum := 0\<rparr>) payload)\<rparr>, Ok ())"
    by auto
  have n: "unat ?n = 8 + length payload"
    using payload(2) by (intro unat_word_of_nat_small [where n = 16]) simp_all
  let ?pre = "ph @ u16_to_be_bytes (udp_sport u) @ u16_to_be_bytes (udp_dport u) @ u16_to_be_bytes (udp_length u)"
  have msg: "udp_message ph (u\<lparr>udp_checksum := c\<rparr>) payload = ?pre @ u16_to_be_bytes c @ payload" for c
    by (simp add: udp_message_def Udp_bytes_def)
  have "(u\<lparr>udp_length := ?n, udp_checksum := rfc1071 (udp_message ph (u\<lparr>udp_checksum := 0\<rparr>) payload)\<rparr> = u) \<longleftrightarrow>
      udp_length u = ?n \<and> rfc1071 (udp_message ph (u\<lparr>udp_checksum := 0\<rparr>) payload) = udp_checksum u"
    by (cases u) auto
  also have "udp_length u = ?n \<longleftrightarrow> unat (udp_length u) = 8 + length payload"
    using n by (metis word_unat_eq_iff)
  also have "unat (udp_length u) = 8 + length payload \<and>
      rfc1071 (udp_message ph (u\<lparr>udp_checksum := 0\<rparr>) payload) = udp_checksum u \<longleftrightarrow>
    unat (udp_length u) = 8 + length payload \<and>
      checksum (env_pf env) (ph @ Udp_bytes u @ payload) = (Ok 0 :: (LayerError, u16) outcome) \<and> udp_checksum u \<noteq> 0xffff"
  proof (rule conj_cong [OF refl])
    assume len: "unat (udp_length u) = 8 + length payload"
    have "be_sum (?pre @ [0, 0] @ payload) \<noteq> 0"
      using ph(2) len by (simp add: be_sum_append be_sum_u16_to_be_bytes)
    from rfc1071_own_iff [OF _ _ this, of "udp_checksum u" "env_pf env"] ph(2,3) payload(2) msg [of 0] msg [of "udp_checksum u"]
    show "rfc1071 (udp_message ph (u\<lparr>udp_checksum := 0\<rparr>) payload) = udp_checksum u \<longleftrightarrow>
        checksum (env_pf env) (ph @ Udp_bytes u @ payload) = (Ok 0 :: (LayerError, u16) outcome) \<and> udp_checksum u \<noteq> 0xffff"
      by (simp add: u16_to_be_bytes_0 udp_message_def)
  qed
  finally show ?thesis
    using ph(1) run by simp
qed

lemma Tcp_fixpoint:
  assumes t: "Tcp_to_bytes (env_dk env) t = Ok hdr" and payload: "layers_to_bytes env next = Ok payload"
    and total: "4 * tcp_words t + length payload \<le> 65535" and words: "tcp_words t < 16"
    and ip: "over_ip prev" and off: "unat (tcp_offset t) < 16"
  shows "\<exists>ph. ip_pseudo_header ''tcp_length'' env (last prev) (4 * tcp_words t + length payload) = Ok (Some ph) \<and>
    (Tcp_finalize env t prev next = (t, Ok ()) \<longleftrightarrow> Tcp_bits t = 32 * unat (tcp_offset t) \<and>
      checksum (env_pf env) (ph @ hdr @ payload) = (Ok 0 :: (LayerError, u16) outcome) \<and> tcp_checksum t \<noteq> 0xffff)"
proof -
  let ?n = "word_of_nat (tcp_words t) :: u8"
  have n: "unat ?n = tcp_words t"
    using words by (intro unat_word_of_nat_small [where n = 4]) simp_all
  from Tcp_finalize_payload [OF t payload total, of prev] words ip obtain ph hdr0 where
      ph: "ip_pseudo_header ''tcp_length'' env (last prev) (4 * tcp_words t + length payload) = Ok (Some ph)"
        "even (length ph)" "length ph \<le> 40"
      and hdr0: "Tcp_to_bytes (env_dk env) ((tcp_padded t)\<lparr>tcp_checksum := 0\<rparr>) = Ok hdr0" "length hdr0 = 4 * tcp_words t"
      and run: "Tcp_finalize env t prev next = ((tcp_padded t)\<lparr>tcp_checksum := rfc1071 (ph @ hdr0 @ payload), tcp_offset := ?n\<rparr>, Ok ())"
    by auto
  have fixed: "(tcp_padded t)\<lparr>tcp_checksum := c, tcp_offset := ?n\<rparr> = t \<longleftrightarrow>
      Tcp_bits t = 32 * unat (tcp_offset t) \<and> c = tcp_checksum t" for c
  proof
    assume eq: "(tcp_padded t)\<lparr>tcp_checksum := c, tcp_offset := ?n\<rparr> = t"
    have "tcp_offset t = ?n" "tcp_checksum t = c" "Tcp_bits t = 32 * tcp_words t"
      by (subst (1) eq [symmetric], simp add: Tcp_bits_padded)+
    with n show "Tcp_bits t = 32 * unat (tcp_offset t) \<and> c = tcp_checksum t" by simp
  next
    assume "Tcp_bits t = 32 * unat (tcp_offset t) \<and> c = tcp_checksum t"
    with tcp_aligned_padded [of t "unat (tcp_offset t)"] show "(tcp_padded t)\<lparr>tcp_checksum := c, tcp_offset := ?n\<rparr> = t"
      by simp
  qed
  have "rfc1071 (ph @ hdr0 @ payload) = tcp_checksum t \<longleftrightarrow>
      checksum (env_pf env) (ph @ hdr @ payload) = (Ok 0 :: (LayerError, u16) outcome) \<and> tcp_checksum t \<noteq> 0xffff"
    if bits: "Tcp_bits t = 32 * unat (tcp_offset t)"
  proof -
    have pad: "tcp_padded t = t" "unat (tcp_offset t) = tcp_words t"
      using tcp_aligned_padded [OF bits] by simp_all
    from deku.Tcp_to_bytes_checksum [OF t] hdr0(1) obtain pre post where pre: "length pre = 16"
        "hdr = pre @ u16_to_be_bytes (tcp_checksum t) @ post" "hdr0 = pre @ [0, 0] @ post"
      by (auto simp: pad u16_to_be_bytes_0)
    obtain pre' f post' where pre': "length pre' = 12" "f < 4096"
        "hdr0 = pre' @ u16_to_be_bytes (word_of_nat (4096 * tcp_words t + f)) @ post'"
      using deku.Tcp_to_bytes_offset [OF hdr0(1)] off by (auto simp: pad)
    have "be_sum (ph @ hdr0 @ payload) \<noteq> 0"
      using ph(2) pre'(1) tcp_words_ge [of t]
      by (simp add: pre'(3) be_sum_append be_sum_offset_word [OF pre'(2) words] del: of_nat_add of_nat_mult)
    then have "be_sum ((ph @ pre) @ [0, 0] @ post @ payload) \<noteq> 0" by (simp add: pre(3))
    from rfc1071_own_iff [OF _ _ this, of "tcp_checksum t" "env_pf env"] ph(2,3) pre hdr0(2) total show ?thesis by simp
  qed
  with ph(1) run fixed [of "rfc1071 (ph @ hdr0 @ payload)"] show ?thesis by auto
qed

lemma Ipv4_fixpoint:
  assumes v: "ipv4_ok env v" and n: "n \<le> 65535 - Ipv4_bits v div 8"
  shows "ipv4_sized env v n = v \<longleftrightarrow> ipv4_valid env v n \<and> ip4_checksum v \<noteq> 0xffff"
proof -
  let ?n = "word_of_nat (Ipv4_bits v div 8 + n) :: u16"
  let ?w = "v\<lparr>ip4_length := ?n\<rparr>"
  obtain hdr where hdr: "Ipv4_to_bytes (env_dk env) v = Ok hdr"
    using v by (auto simp: ipv4_ok_def)
  note len = ipv4_ok_bits [OF v hdr]
  have unat_n: "unat ?n = Ipv4_bits v div 8 + n"
    using n len(2) by (intro unat_word_of_nat_small [where n = 16]) simp_all
  obtain hdr1 where "Ipv4_to_bytes (env_dk env) ?w = Ok hdr1"
    using deku.Ipv4_to_bytes_set_length [OF hdr] by blast
  with deku.Ipv4_update_checksum_cases [of ?w "env_pf env"] obtain pre post where
      pre: "length pre = 10" "\<And>c. Ipv4_to_bytes (env_dk env) (?w\<lparr>ip4_checksum := c\<rparr>) = Ok (pre @ u16_to_be_bytes c @ post)"
      and run: "Ipv4_update_checksum (env_pf env) (env_dk env) ?w
        = try_in ?w (checksum (env_pf env) (pre @ [0, 0] @ post)) (\<lambda>c. (?w\<lparr>ip4_checksum := c\<rparr>, Ok ()))"
    by auto
  have "8 * length (pre @ u16_to_be_bytes 0 @ post) = Ipv4_bits v"
    using deku.Ipv4_to_bytes_length [OF pre(2) [of 0]] by simp
  with len have small: "length pre + 2 + length post \<le> 65535"
    by simp
  then have "checksum (env_pf env) (pre @ [0, 0] @ post) = (Ok (rfc1071 (pre @ [0, 0] @ post)) :: (LayerError, u16) outcome)"
    by (intro checksum_rfc) simp
  with run have "ipv4_sized env v n = ?w\<lparr>ip4_checksum := rfc1071 (pre @ [0, 0] @ post)\<rparr>"
    by (simp add: ipv4_sized_def)
  moreover have "?w\<lparr>ip4_checksum := c\<rparr> = v \<longleftrightarrow> ip4_length v = ?n \<and> c = ip4_checksum v" for c
    by (cases v) auto
  moreover have "rfc1071 (pre @ [0, 0] @ post) = ip4_checksum v \<longleftrightarrow>
      checksum (env_pf env) hdr = (Ok 0 :: (LayerError, u16) outcome) \<and> ip4_checksum v \<noteq> 0xffff" if "ip4_length v = ?n"
  proof -
    have w: "?w = v"
      unfolding that [symmetric] by simp
    have hdr_eq: "hdr = pre @ u16_to_be_bytes (ip4_checksum v) @ post"
      using pre(2) [of "ip4_checksum v"] hdr unfolding w by simp
    from deku.to_bytes_hole [OF deku.Ipv4_hole_length deku.wsize_Ipv4 Ipv4_bits_dvd, folded Ipv4_to_bytes_def, OF pre(2) [of 0]]
    obtain pre' post' where "length pre' = 2" "pre @ u16_to_be_bytes 0 @ post = pre' @ u16_to_be_bytes ?n @ post'"
      by auto
    moreover have "8 \<le> Ipv4_bits v" by (simp add: Ipv4_bits_def)
    then have "unat ?n \<noteq> 0"
      unfolding unat_n by (simp add: div_greater_zero_iff)
    ultimately have "be_sum (pre @ u16_to_be_bytes 0 @ post) \<noteq> 0"
      by (simp add: be_sum_append be_sum_u16_to_be_bytes del: of_nat_add)
    then have "be_sum (pre @ [0, 0] @ post) \<noteq> 0"
      by (simp add: u16_to_be_bytes_0)
    from rfc1071_own_iff [OF _ _ this, of "ip4_checksum v" "env_pf env"] pre(1) small hdr_eq show ?thesis by simp
  qed
  moreover have "ip4_length v = ?n \<longleftrightarrow> unat (ip4_length v) = length hdr + n"
    using unat_n len(1) by (metis word_unat_eq_iff)
  ultimately show ?thesis
    by (auto simp: ipv4_valid_def hdr)
qed

end

section \<open>Frames\<close>

text \<open>An IP layer whose own fixpoints are known.\<close>

locale ip_fixpoint = ip_carrier +
  fixes ip_fixed :: "'v \<Rightarrow> nat \<Rightarrow> bool"
  assumes ip_sized_fixed: "ip_ok v \<Longrightarrow> n \<le> ip_room v \<Longrightarrow> ip_sized v n = v \<longleftrightarrow> ip_fixed v n"
    and ip_inject: "ip v = ip v' \<longleftrightarrow> v = v'"
begin

lemma tcp_frame_fixpoint:
  fixes e :: Ether
  assumes v: "ip_ok v" and rest: "list_all is_raw rest" "layers_to_bytes env rest = Ok data"
    and t: "Tcp_to_bytes (env_dk env) t = Ok seg" and off: "unat (tcp_offset t) < 16" and words: "tcp_words t < 16"
    and fits: "4 * tcp_words t + length data \<le> ip_room v"
  defines "p \<equiv> Packet_from_layers (LEther e # ip v # LTcp t # rest)"
  shows "Packet_finalize env p = (p, Ok ()) \<longleftrightarrow> ip_fixed v (length seg + length data) \<and>
    Tcp_bits t = 32 * unat (tcp_offset t) \<and>
    (\<exists>ph. ip_pseudo_header ''tcp_length'' env (ip v) (length seg + length data) = Ok (Some ph) \<and>
      checksum (env_pf env) (ph @ seg @ data) = (Ok 0 :: (LayerError, u16) outcome)) \<and> tcp_checksum t \<noteq> 0xffff"
proof -
  let ?n = "length seg + length data"
  have seg: "8 * length seg = Tcp_bits t" "length seg \<le> 4 * tcp_words t"
    using deku.Tcp_to_bytes_length [OF t] by (simp_all add: tcp_words_def)
  then have room: "?n \<le> ip_room v" using fits by simp
  have bytes: "layers_to_bytes env (LTcp t # rest) = Ok (seg @ data)"
    using t rest(2) by (simp add: layers_to_bytes_eq)
  have total: "4 * tcp_words t + length data \<le> 65535"
    using fits ip_room_le [of v] by simp
  let ?v = "ip_sized v ?n"
  obtain t' where t': "Tcp_finalize env t [LEther e, ip ?v] rest = (t', Ok ())"
    using Tcp_finalize_segment [OF t rest(2) total words over_carrier off, of e ?v] by blast
  then have run: "Packet_finalize env p = (Packet_from_layers (LEther e # ip ?v # LTcp t' # rest), Ok ())"
    unfolding p_def using frame_run [OF v bytes _ _ rest(1), of e "LTcp t'"] room by simp
  have fixed: "Packet_finalize env p = (p, Ok ()) \<longleftrightarrow> ?v = v \<and> t' = t"
    unfolding run by (auto simp: p_def Packet_from_layers_def ip_inject)
  from Tcp_fixpoint [OF t rest(2) total words over_carrier off, of e v] obtain ph where
      ph: "ip_pseudo_header ''tcp_length'' env (ip v) (4 * tcp_words t + length data) = Ok (Some ph)"
        "Tcp_finalize env t [LEther e, ip v] rest = (t, Ok ()) \<longleftrightarrow> Tcp_bits t = 32 * unat (tcp_offset t) \<and>
          checksum (env_pf env) (ph @ seg @ data) = (Ok 0 :: (LayerError, u16) outcome) \<and> tcp_checksum t \<noteq> 0xffff"
    by auto
  have same: "?v = v \<Longrightarrow> t' = t \<longleftrightarrow> Tcp_finalize env t [LEther e, ip v] rest = (t, Ok ())"
    using t' by simp
  have "4 * tcp_words t = length seg" if "Tcp_bits t = 32 * unat (tcp_offset t)"
    using tcp_aligned_padded(2) [OF that] seg(1) that by simp
  with ph(1) have "Tcp_bits t = 32 * unat (tcp_offset t) \<Longrightarrow>
      ip_pseudo_header ''tcp_length'' env (ip v) ?n = Ok (Some ph)" by simp
  then show ?thesis
    unfolding fixed using same ph(2) ip_sized_fixed [OF v room] by auto
qed

lemma udp_frame_fixpoint:
  fixes e :: Ether and u :: Udp
  assumes v: "ip_ok v" and rest: "list_all is_raw rest" "layers_to_bytes env rest = Ok data"
    and fits: "8 + length data \<le> ip_room v"
  defines "p \<equiv> Packet_from_layers (LEther e # ip v # LUdp u # rest)"
  shows "Packet_finalize env p = (p, Ok ()) \<longleftrightarrow> ip_fixed v (8 + length data) \<and> unat (udp_length u) = 8 + length data \<and>
    (\<exists>ph. ip_pseudo_header ''udp_length'' env (ip v) (8 + length data) = Ok (Some ph) \<and>
      checksum (env_pf env) (ph @ Udp_bytes u @ data) = (Ok 0 :: (LayerError, u16) outcome)) \<and> udp_checksum u \<noteq> 0xffff"
proof -
  have bytes: "layers_to_bytes env (LUdp u # rest) = Ok (Udp_bytes u @ data)"
    using rest(2) by (simp add: layers_to_bytes_eq deku.Udp_to_bytes_eq)
  have total: "8 + length data \<le> 65535"
    using fits ip_room_le [of v] by simp
  let ?v = "ip_sized v (8 + length data)"
  obtain u' where u': "Udp_finalize env u [LEther e, ip ?v] rest = (u', Ok ())"
    using Udp_finalize_payload [OF rest(2) total, of "[LEther e, ip ?v]" u] over_carrier by auto
  then have run: "Packet_finalize env p = (Packet_from_layers (LEther e # ip ?v # LUdp u' # rest), Ok ())"
    unfolding p_def using frame_run [OF v bytes _ _ rest(1), of e "LUdp u'"] fits by simp
  have fixed: "Packet_finalize env p = (p, Ok ()) \<longleftrightarrow> ?v = v \<and> u' = u"
    unfolding run by (auto simp: p_def Packet_from_layers_def ip_inject)
  from Udp_fixpoint [OF rest(2) total over_carrier, of e v u] obtain ph where
      ph: "ip_pseudo_header ''udp_length'' env (ip v) (8 + length data) = Ok (Some ph)"
        "Udp_finalize env u [LEther e, ip v] rest = (u, Ok ()) \<longleftrightarrow> unat (udp_length u) = 8 + length data \<and>
          checksum (env_pf env) (ph @ Udp_bytes u @ data) = (Ok 0 :: (LayerError, u16) outcome) \<and> udp_checksum u \<noteq> 0xffff"
    by auto
  have same: "?v = v \<Longrightarrow> u' = u \<longleftrightarrow> Udp_finalize env u [LEther e, ip v] rest = (u, Ok ())"
    using u' by simp
  show ?thesis
    unfolding fixed using same ph ip_sized_fixed [OF v fits] by auto
qed

end

lemma ipv4_fixpoint:
  assumes env: "packet_env env"
  shows "ip_fixpoint env LIpv4 (ipv4_ok env) (\<lambda>v. 65535 - Ipv4_bits v div 8) (ipv4_sized env) (ipv4_valid env)
    (\<lambda>v n. ipv4_valid env v n \<and> ip4_checksum v \<noteq> 0xffff)"
  by (intro ip_fixpoint.intro ipv4_carrier [OF env] ip_fixpoint_axioms.intro packet_env.Ipv4_fixpoint [OF env]) simp_all

lemma ipv6_fixpoint:
  assumes env: "packet_env env"
  shows "ip_fixpoint env LIpv6 (\<lambda>_. True) (\<lambda>_. 65535) (\<lambda>v n. v\<lparr>ip6_length := word_of_nat n\<rparr>) (\<lambda>v n. unat (ip6_length v) = n)
    (\<lambda>v n. unat (ip6_length v) = n)"
proof (intro ip_fixpoint.intro ipv6_carrier [OF env] ip_fixpoint_axioms.intro)
  fix v :: Ipv6 and n :: nat assume "n \<le> 65535"
  then have "unat (word_of_nat n :: u16) = n"
    by (intro unat_word_of_nat_small [where n = 16]) simp_all
  moreover have "v\<lparr>ip6_length := word_of_nat n\<rparr> = v \<longleftrightarrow> ip6_length v = word_of_nat n"
    by (cases v) auto
  ultimately show "v\<lparr>ip6_length := word_of_nat n\<rparr> = v \<longleftrightarrow> unat (ip6_length v) = n"
    by (metis word_unat_eq_iff)
qed simp

interpretation dev_ipv4_fixpoint: ip_fixpoint dev_env LIpv4 "ipv4_ok dev_env" "\<lambda>v. 65535 - Ipv4_bits v div 8" "ipv4_sized dev_env"
    "ipv4_valid dev_env" "\<lambda>v n. ipv4_valid dev_env v n \<and> ip4_checksum v \<noteq> 0xffff"
  by (rule ipv4_fixpoint [OF dev_packets.packet_env_axioms])

interpretation dev_ipv6_fixpoint: ip_fixpoint dev_env LIpv6 "\<lambda>_. True" "\<lambda>_. 65535" "\<lambda>v n. v\<lparr>ip6_length := word_of_nat n\<rparr>"
    "\<lambda>v n. unat (ip6_length v) = n" "\<lambda>v n. unat (ip6_length v) = n"
  by (rule ipv6_fixpoint [OF dev_packets.packet_env_axioms])

section \<open>Properties\<close>

text \<open>
  (C14) \<open>Packet::finalize\<close> leaves a TCP frame over IPv4 as it is exactly when the frame is valid: the IPv4 length is right, the
  IPv4 header verifies, the TCP header is as long as its data offset says, and the segment verifies with its pseudo
  header, where neither checksum field holds 0xffff, the zero that \<open>finalize\<close> does not write.
\<close>

theorem tcp_frame_finalize_fixpoint:
  fixes e :: Ether
  assumes env: "packet_env env" and rest: "list_all is_raw rest" "layers_to_bytes env rest = Ok data"
    and hdr: "Ipv4_to_bytes (env_dk env) v = Ok hdr" and t: "Tcp_to_bytes (env_dk env) t = Ok seg"
    and off: "unat (tcp_offset t) < 16" and words: "tcp_words t < 16"
    and fits: "length hdr + 4 * tcp_words t + length data \<le> 65535"
  defines "p \<equiv> Packet_from_layers (LEther e # LIpv4 v # LTcp t # rest)"
  shows "Packet_finalize env p = (p, Ok ()) \<longleftrightarrow>
    (unat (ip4_length v) = length hdr + length seg + length data \<and>
     checksum (env_pf env) hdr = (Ok 0 :: (LayerError, u16) outcome) \<and> ip4_checksum v \<noteq> 0xffff \<and>
     Tcp_bits t = 32 * unat (tcp_offset t) \<and>
     (\<exists>ph. ip_pseudo_header ''tcp_length'' env (LIpv4 v) (length seg + length data) = Ok (Some ph) \<and>
       checksum (env_pf env) (ph @ seg @ data) = (Ok 0 :: (LayerError, u16) outcome)) \<and> tcp_checksum t \<noteq> 0xffff)"
proof -
  note bits = deku_laws.Ipv4_to_bytes_length [OF packet_env.env_deku [OF env] hdr]
  have ok: "ipv4_ok env v" "4 * tcp_words t + length data \<le> 65535 - Ipv4_bits v div 8"
    using fits bits hdr by (simp_all add: ipv4_ok_def)
  from ip_fixpoint.tcp_frame_fixpoint [OF ipv4_fixpoint [OF env] ok(1) rest t off words ok(2), of e] show ?thesis
    unfolding p_def by (auto simp: ipv4_valid_def hdr)
qed

text \<open>A frame with a header that its offset does not describe is changed.\<close>

theorem tcp_frame_finalize_fixpoint_witness:
  "\<exists>p. p = Packet_from_layers (LEther Ether_default # LIpv4 (frame_ipv4 TCP) # LTcp tcp_example # frame_rest) \<and>
    Packet_finalize dev_env p \<noteq> (p, Ok ())"
proof -
  obtain hdr where hdr: "Ipv4_to_bytes (env_dk dev_env) (frame_ipv4 TCP) = Ok hdr" "length hdr = 20"
    using frame_ipv4(2) by blast
  obtain thdr where thdr: "Tcp_to_bytes (env_dk dev_env) tcp_example = Ok thdr"
    using tcp_pad_example [of 3] by (auto simp: tcp_example_def)
  have fits: "tcp_words tcp_example < 16" "length hdr + 4 * tcp_words tcp_example + length [1, 2, 3 :: u8] \<le> 65535"
    using hdr(2) tcp_example_words(1) by simp_all
  have "Tcp_bits tcp_example \<noteq> 32 * unat (tcp_offset tcp_example)"
    by (simp add: tcp_example_def Tcp_bits_def Tcp_default_def sum_list_replicate)
  with tcp_frame_finalize_fixpoint [OF dev_packets.packet_env_axioms frame_rest hdr(1) thdr tcp_example_words(2) fits,
      of Ether_default] show ?thesis by blast
qed

text \<open>
  (C36) \<open>Packet::finalize\<close> leaves a UDP frame over IPv4 as it is exactly when the frame is valid: both lengths are right, and
  the IPv4 header and the datagram with its pseudo header verify, where neither checksum field holds 0xffff.  For
  UDP that is the value RFC 768 asks for when the checksum comes out as zero: such a frame is valid, and is changed.
\<close>

theorem udp_frame_finalize_fixpoint:
  fixes e :: Ether
  assumes env: "packet_env env" and rest: "list_all is_raw rest" "layers_to_bytes env rest = Ok data"
    and hdr: "Ipv4_to_bytes (env_dk env) v = Ok hdr" and u: "Udp_to_bytes (env_dk env) u = Ok seg"
    and fits: "length hdr + 8 + length data \<le> 65535"
  defines "p \<equiv> Packet_from_layers (LEther e # LIpv4 v # LUdp u # rest)"
  shows "Packet_finalize env p = (p, Ok ()) \<longleftrightarrow>
    (unat (ip4_length v) = length hdr + 8 + length data \<and>
     checksum (env_pf env) hdr = (Ok 0 :: (LayerError, u16) outcome) \<and> ip4_checksum v \<noteq> 0xffff \<and>
     unat (udp_length u) = 8 + length data \<and>
     (\<exists>ph. ip_pseudo_header ''udp_length'' env (LIpv4 v) (8 + length data) = Ok (Some ph) \<and>
       checksum (env_pf env) (ph @ seg @ data) = (Ok 0 :: (LayerError, u16) outcome)) \<and> udp_checksum u \<noteq> 0xffff)"
proof -
  note bits = deku_laws.Ipv4_to_bytes_length [OF packet_env.env_deku [OF env] hdr]
  have ok: "ipv4_ok env v" "8 + length data \<le> 65535 - Ipv4_bits v div 8"
    using fits bits hdr by (simp_all add: ipv4_ok_def)
  have seg: "seg = Udp_bytes u"
    using u deku_laws.Udp_to_bytes_eq [OF packet_env.env_deku [OF env]] by simp
  from ip_fixpoint.udp_frame_fixpoint [OF ipv4_fixpoint [OF env] ok(1) rest ok(2), of e u] show ?thesis
    unfolding p_def seg by (auto simp: ipv4_valid_def hdr)
qed

text \<open>A frame with a length of zero is changed.\<close>

theorem udp_frame_finalize_fixpoint_witness:
  "\<exists>p. p = Packet_from_layers (LEther Ether_default # LIpv4 (frame_ipv4 UDP) # LUdp Udp_default # frame_rest) \<and>
    Packet_finalize dev_env p \<noteq> (p, Ok ())"
proof -
  obtain hdr where hdr: "Ipv4_to_bytes (env_dk dev_env) (frame_ipv4 UDP) = Ok hdr" "length hdr = 20"
    using frame_ipv4(2) by blast
  have u: "Udp_to_bytes (env_dk dev_env) Udp_default = Ok (Udp_bytes Udp_default)"
    using deku_laws.Udp_to_bytes_eq [OF packet_env.env_deku [OF dev_packets.packet_env_axioms]] by simp
  have fits: "length hdr + 8 + length [1, 2, 3 :: u8] \<le> 65535"
    using hdr(2) by simp
  from udp_frame_finalize_fixpoint [OF dev_packets.packet_env_axioms frame_rest hdr(1) u fits, of Ether_default]
  show ?thesis by (simp add: Udp_default_def)
qed

end
