(* ===== verification/Fuzz_Targets.thy ===== *)
theory Fuzz_Targets
  imports Bindings
begin

text \<open>
  \<open>fuzz/fuzz_targets/*.rs\<close>: a fuzz target parses arbitrary bytes as a layer and drops the result.  The fuzzer reports a
  panic or a run that does not end; the lemma shows that there is nothing to report.
\<close>

definition drop_result :: "('e, 'a) outcome \<Rightarrow> (unit, unit) outcome" where
  "drop_result r = omap (\<lambda>_. ()) (result_ok r)"

definition fuzz_ether :: "'c env \<Rightarrow> bytes \<Rightarrow> (unit, unit) outcome" where
  "fuzz_ether env input = drop_result (lt_parse (Ether_t env) input)"

definition fuzz_ipv4 :: "'c env \<Rightarrow> bytes \<Rightarrow> (unit, unit) outcome" where
  "fuzz_ipv4 env input = drop_result (lt_parse (Ipv4_t env) input)"

definition fuzz_ipv6 :: "'c env \<Rightarrow> bytes \<Rightarrow> (unit, unit) outcome" where
  "fuzz_ipv6 env input = drop_result (lt_parse (Ipv6_t env) input)"

definition fuzz_tcp :: "'c env \<Rightarrow> bytes \<Rightarrow> (unit, unit) outcome" where
  "fuzz_tcp env input = drop_result (lt_parse (Tcp_t env) input)"

lemma drop_result_returns: "returns r \<Longrightarrow> drop_result r = Ok ()"
  by (cases r) (simp_all add: drop_result_def)

lemma fuzz_targets_find_nothing:
  assumes "packet_env env"
  shows "fuzz_ether env input = Ok ()" "fuzz_ipv4 env input = Ok ()" "fuzz_ipv6 env input = Ok ()" "fuzz_tcp env input = Ok ()"
  unfolding fuzz_ether_def fuzz_ipv4_def fuzz_ipv6_def fuzz_tcp_def
  by (intro drop_result_returns
      layer_codec.parse_returns [OF packet_env.ether_codec [OF assms]] layer_codec.parse_returns [OF packet_env.ipv4_codec' [OF assms]]
      layer_codec.parse_returns [OF packet_env.ipv6_codec [OF assms]] layer_codec.parse_returns [OF packet_env.tcp_codec' [OF assms]])+

end
