(* ===== verification/Parse_Steps.thy ===== *)
theory Parse_Steps
  imports Bindings
begin

text \<open>
  The loop of \<open>PacketParser::parse_packet\<close> (\<open>src/packet/mod.rs\<close>) as a transition system: a state is the layers
  pushed so far, the current layer and the rest of the input; a step parses the next layer.  The recursion
  of \<open>parse_loop\<close> computes exactly the runs of this system that end, and the invariants of the loop are proved
  by rule induction on its runs.
\<close>

section \<open>The transition system\<close>

type_synonym 'c parse_state = "'c LayerOwned list \<times> 'c LayerOwned \<times> bytes"

inductive parse_step :: "'c env \<Rightarrow> 'c PacketParser \<Rightarrow> 'c parse_state \<Rightarrow> 'c parse_state \<Rightarrow> bool" for env self where
  next_layer: "rest \<noteq> [] \<Longrightarrow> next_layer_parser env self cur rest = Ok (Some parser) \<Longrightarrow> parser rest = Ok (rest', layer) \<Longrightarrow>
    parse_step env self (layers, cur, rest) (layers @ [cur], layer, rest')"

inductive_cases parse_stepE: "parse_step env self (layers, cur, rest) s"

inductive_simps parse_step_iff: "parse_step env self (layers, cur, rest) (layers', cur', rest')"

fun parse_done :: "'c env \<Rightarrow> 'c PacketParser \<Rightarrow> 'c parse_state \<Rightarrow> bool" where
  "parse_done env self (layers, cur, rest) \<longleftrightarrow> rest = [] \<or> next_layer_parser env self cur rest = Ok None"

section \<open>The loop computes the runs\<close>

lemma run_parse_loop:
  assumes "(parse_step env self)\<^sup>*\<^sup>* s s'" and "parse_done env self s'"
  shows "(case s of (layers, cur, rest) \<Rightarrow> parse_loop env self layers cur rest)
    = (case s' of (layers, cur, rest) \<Rightarrow> Some (Ok (rest, Packet_from_layers (layers @ [cur]))))"
  using assms
proof (induction rule: converse_rtranclp_induct)
  case base
  then show ?case
    by (cases s') (auto simp: parse_loop.simps)
next
  case (step s s1)
  obtain layers cur rest where s: "s = (layers, cur, rest)" by (cases s)
  with step.hyps(1) show ?case
    using step.IH [OF step.prems] by (auto simp: parse_loop.simps [of env self layers] elim!: parse_stepE)
qed

lemma parse_loop_run:
  assumes "parse_loop env self layers cur rest = Some r"
  shows "case r of Ok (rest', pkt) \<Rightarrow> \<exists>layers' cur'. (parse_step env self)\<^sup>*\<^sup>* (layers, cur, rest) (layers', cur', rest') \<and>
      parse_done env self (layers', cur', rest') \<and> pkt = Packet_from_layers (layers' @ [cur']) | _ \<Rightarrow> True"
proof (rule parse_loop.raw_induct [OF _ assms, where P = "\<lambda>env self layers cur rest r. case r of
      Ok (rest', pkt) \<Rightarrow> \<exists>layers' cur'. (parse_step env self)\<^sup>*\<^sup>* (layers, cur, rest) (layers', cur', rest') \<and>
      parse_done env self (layers', cur', rest') \<and> pkt = Packet_from_layers (layers' @ [cur']) | _ \<Rightarrow> True"])
  fix loop :: "'a env \<Rightarrow> 'a PacketParser \<Rightarrow> 'a LayerOwned list \<Rightarrow> 'a LayerOwned \<Rightarrow> bytes \<Rightarrow>
      (PacketError, bytes \<times> 'a Packet) outcome option"
    and env :: "'a env" and self layers cur rest r
  let ?post = "\<lambda>layers cur rest r. case r of
      Ok (rest', pkt) \<Rightarrow> \<exists>layers' cur'. (parse_step env self)\<^sup>*\<^sup>* (layers, cur, rest) (layers', cur', rest') \<and>
      parse_done env self (layers', cur', rest') \<and> pkt = Packet_from_layers (layers' @ [cur']) | _ \<Rightarrow> True"
  assume IH: "\<And>env self layers cur rest r. loop env self layers cur rest = Some r \<Longrightarrow> case r of
      Ok (rest', pkt) \<Rightarrow> \<exists>layers' cur'. (parse_step env self)\<^sup>*\<^sup>* (layers, cur, rest) (layers', cur', rest') \<and>
      parse_done env self (layers', cur', rest') \<and> pkt = Packet_from_layers (layers' @ [cur']) | _ \<Rightarrow> True"
    and body: "(if rest = [] then Some (Ok (rest, Packet_from_layers (layers @ [cur])))
        else case next_layer_parser env self cur rest of
            Ok None \<Rightarrow> Some (Ok (rest, Packet_from_layers (layers @ [cur])))
          | Ok (Some parser) \<Rightarrow> (case parser rest of
               Ok p \<Rightarrow> loop env self (layers @ [cur]) (snd p) (fst p)
             | Err e \<Rightarrow> Some (Err (PacketError_from e)) | Panic m \<Rightarrow> Some (Panic m) | Diverge \<Rightarrow> None)
          | Err e \<Rightarrow> Some (Err e) | Panic m \<Rightarrow> Some (Panic m) | Diverge \<Rightarrow> None) = Some r"
  have fin: "?post layers cur rest (Ok (rest, Packet_from_layers (layers @ [cur])))"
    if "parse_done env self (layers, cur, rest)" using that by auto
  show "?post layers cur rest r"
  proof (cases "parse_done env self (layers, cur, rest)")
    case True
    with body have "r = Ok (rest, Packet_from_layers (layers @ [cur]))" by (cases "rest = []") auto
    with fin [OF True] show ?thesis by simp
  next
    case False
    then have ne: "rest \<noteq> []" by simp
    show ?thesis
    proof (cases "\<exists>parser p. next_layer_parser env self cur rest = Ok (Some parser) \<and> parser rest = Ok p")
      case True
      then obtain parser rest1 l where nxt: "next_layer_parser env self cur rest = Ok (Some parser)" "parser rest = Ok (rest1, l)"
        by force
      with body ne have "loop env self (layers @ [cur]) l rest1 = Some r" by simp
      note run = IH [OF this]
      note step = converse_rtranclp_into_rtranclp [where r = "parse_step env self",
          OF next_layer [OF ne nxt, where layers = layers]]
      show ?thesis
      proof (cases r)
        case (Ok q)
        with run show ?thesis by (cases q) (auto dest!: step)
      qed simp_all
    next
      case stuck: False
      with body False show ?thesis
        by (auto split: outcome.splits option.splits if_splits)
    qed
  qed
qed

section \<open>Invariants of the runs\<close>

context parser_policy
begin

text \<open>The bytes of the layers parsed so far and the rest are the bytes the run started with, and each step takes some.\<close>

lemma steps_conserve:
  assumes "(parse_step env self)\<^sup>*\<^sup>* s s'" and "s = (layers, cur, rest)"
  shows "case s' of (layers', cur', rest') \<Rightarrow> \<exists>ls bs. layers' @ [cur'] = layers @ cur # ls \<and>
    concat_bytes env ls = Ok bs \<and> rest = bs @ rest' \<and> length ls \<le> length bs"
  using assms
proof (induction rule: rtranclp_induct)
  case base
  then show ?case by auto
next
  case (step s1 s2)
  obtain layers1 cur1 rest1 where s1: "s1 = (layers1, cur1, rest1)" by (cases s1)
  from step.IH [OF step.prems] obtain ls bs where
      ls: "layers1 @ [cur1] = layers @ cur # ls" "concat_bytes env ls = Ok bs" "rest = bs @ rest1" "length ls \<le> length bs"
    unfolding s1 by auto
  from step.hyps(2) [unfolded s1] obtain parser rest2 l where
      s2: "s2 = (layers1 @ [cur1], l, rest2)" and
      nxt: "rest1 \<noteq> []" "next_layer_parser env self cur1 rest1 = Ok (Some parser)" "parser rest1 = Ok (rest2, l)"
    by (auto elim: parse_stepE)
  from nxt(2) have pol: "pol cur1 rest1 = Some parser" using resolves by (simp add: resolves_def)
  from pol_lossless [OF nxt(1) pol nxt(3)] obtain b where "to_bytes env l = Ok b" "rest1 = b @ rest2" "b \<noteq> []" by blast
  then show ?case
    unfolding s2 using ls by (cases b) (auto intro!: exI [where x = "ls @ [l]"] simp: concat_bytes_append)
qed

end

section \<open>Properties\<close>

text \<open>
  \<open>parse_packet\<close> is the transition system: it returns a packet and a rest exactly when the first layer
  parses and a run of steps from it reaches a state where the input is used up or no binding names a parser;
  the packet is the layers of that state and the rest is its rest.
\<close>

lemma parse_packet_runs:
  "parse_packet env T self input = Some (Ok (rest, pkt)) \<longleftrightarrow>
   (\<exists>rest0 l layers cur. lt_parse T input = Ok (rest0, l) \<and>
      (parse_step env self)\<^sup>*\<^sup>* ([], lt_box T l, rest0) (layers, cur, rest) \<and>
      parse_done env self (layers, cur, rest) \<and> pkt = Packet_from_layers (layers @ [cur]))"
proof (cases "lt_parse T input")
  case (Ok q)
  obtain rest0 l where q: "q = (rest0, l)" by (cases q)
  with Ok have run: "parse_packet env T self input = parse_loop env self [] (lt_box T l) rest0"
    by (simp add: parse_packet_def)
  show ?thesis
    unfolding run using Ok q parse_loop_run [of env self "[]" "lt_box T l" rest0]
      run_parse_loop [of env self "([], lt_box T l, rest0)"] by fastforce
qed (simp_all add: parse_packet_def)

text \<open>
  (C23) In every state that a run from a first layer reaches, under bindings that consume input and serialise back:
  the bytes of the layers parsed after the first, followed by the rest, are the bytes the run started with, and
  there are at most as many such layers as bytes taken, so a run has no more steps than the input has bytes.
\<close>

theorem parse_steps_invariant:
  assumes "parser_policy env self pol" and "(parse_step env self)\<^sup>*\<^sup>* ([], first, rest0) (layers, cur, rest)"
  shows "\<exists>ls bs. layers @ [cur] = first # ls \<and> layers_to_bytes env ls = Ok bs \<and> rest0 = bs @ rest \<and>
    length ls \<le> length rest0 - length rest"
  using parser_policy.steps_conserve [OF assms refl] by (auto simp: layers_to_bytes_eq)

theorem parse_steps_invariant_witness:
  "\<exists>layers cur rest. (parse_step dev_env (create_packetparser dev_env))\<^sup>*\<^sup>*
     ([], LUdp Udp_default, [1, 2]) (layers, cur, rest) \<and> rest = [] \<and>
   (\<exists>ls bs. layers @ [cur] = LUdp Udp_default # ls \<and> layers_to_bytes dev_env ls = Ok bs \<and> [1, 2] = bs @ rest \<and> ls \<noteq> [])"
proof -
  have "next_layer_parser dev_env (create_packetparser dev_env) (LUdp Udp_default) [1, 2] = Ok (Some (parse_layer (Raw_t dev_env)))"
    using create_packetparser_resolves [of dev_env] by (simp add: resolves_def default_policy_def)
  moreover have "parse_layer (Raw_t dev_env) [1, 2] = Ok ([], LRaw \<lparr>raw_data = [1, 2], raw_bit_offset = 0\<rparr>)"
    by (simp add: parse_layer_def Raw_t_def ref.Raw_parse_eq)
  ultimately have "parse_step dev_env (create_packetparser dev_env) ([], LUdp Udp_default, [1, 2])
      ([] @ [LUdp Udp_default], LRaw \<lparr>raw_data = [1, 2], raw_bit_offset = 0\<rparr>, [])"
    by (intro next_layer [where parser = "parse_layer (Raw_t dev_env)"]) simp_all
  then have run: "(parse_step dev_env (create_packetparser dev_env))\<^sup>*\<^sup>* ([], LUdp Udp_default, [1, 2])
      ([LUdp Udp_default], LRaw \<lparr>raw_data = [1, 2], raw_bit_offset = 0\<rparr>, [])"
    by auto
  from parse_steps_invariant [OF dev_default.parser_policy_axioms run] run show ?thesis
    by (intro exI [where x = "[LUdp Udp_default]"] exI [where x = "LRaw \<lparr>raw_data = [1, 2], raw_bit_offset = 0\<rparr>"]
        exI [where x = "[] :: bytes"]) auto
qed

end
