(* ===== verification/Datalink.thy ===== *)
theory Datalink
  imports Bindings
begin

text \<open>
  \<open>src/datalink/error.rs\<close> and \<open>src/datalink/mod.rs\<close>: interfaces that read and write packets.

  A type that implements \<open>PacketRead\<close> (\<open>PacketWrite\<close>) is a state with a function \<open>read\<close> (\<open>write\<close>),
  the parameters of the definitions below.  A reader returns its new state beside the result; not
  returning (a parser that does not end) is \<open>Diverge\<close>.  \<open>std::io::Error\<close> is the type parameter \<open>'io\<close>.
  A reference held by \<open>InterfaceReaderRef\<close> or \<open>InterfaceWriterRef\<close> is the state it borrows; giving
  the borrow back (\<open>unsplit\<close>) stores the state in the interface again.
\<close>

section \<open>Errors\<close>

datatype 'io DataLinkError =
    PacketError PacketError
  | InterfaceNotFound
  | UnhandledInterfaceType
  | IoError 'io
  | BufferError
  | PcapError string
  | Eof

definition DataLinkError_from_packet :: "PacketError \<Rightarrow> 'io DataLinkError" where
  "DataLinkError_from_packet e = DataLinkError.PacketError e"

text \<open>\<open>pcap_file::PcapError\<close>: an I/O error, or another variant, of which only the message is used.\<close>

datatype 'io pcap_error = PcapIo 'io | PcapOther string

definition DataLinkError_from_pcap :: "'io pcap_error \<Rightarrow> 'io DataLinkError" where
  "DataLinkError_from_pcap e = (case e of PcapIo e \<Rightarrow> IoError e | PcapOther s \<Rightarrow> PcapError s)"

definition DataLinkError_from_io :: "'io \<Rightarrow> 'io DataLinkError" where
  "DataLinkError_from_io e = IoError e"

section \<open>Traits\<close>

type_synonym ('r, 'c, 'io) packet_read = "'r \<Rightarrow> 'r \<times> ('io DataLinkError, 'c Packet) outcome"

type_synonym ('w, 'c, 'io) packet_write = "'w \<Rightarrow> 'c Packet \<Rightarrow> 'w \<times> ('io DataLinkError, unit) outcome"

definition unimplemented_msg :: string where
  "unimplemented_msg = ''not implemented''"

definition UnimplementedWriter_write :: "(unit, 'c, 'io) packet_write" where
  "UnimplementedWriter_write self packet = (self, Panic unimplemented_msg)"

definition UnimplementedReader_read :: "(unit, 'c, 'io) packet_read" where
  "UnimplementedReader_read self = (self, Panic unimplemented_msg)"

section \<open>Interfaces\<close>

record InterfaceMetadata =
  md_mac_address :: "MacAddress option"

definition InterfaceMetadata_default :: InterfaceMetadata where
  "InterfaceMetadata_default = \<lparr>md_mac_address = None\<rparr>"

record ('r, 'w) Interface =
  if_reader :: 'r
  if_writer :: 'w
  if_metadata :: InterfaceMetadata

record 'r InterfaceReader =
  ir_reader :: 'r
  ir_metadata :: InterfaceMetadata

record 'w InterfaceWriter =
  iw_writer :: 'w
  iw_metadata :: InterfaceMetadata

record 'r InterfaceReaderRef =
  rr_reader :: 'r
  rr_metadata :: InterfaceMetadata

record 'w InterfaceWriterRef =
  wr_writer :: 'w
  wr_metadata :: InterfaceMetadata

text \<open>\<open>init\<close> and \<open>init_with_parser\<close> delegate to the interface type, whose functions are arguments.\<close>

definition Interface_init ::
    "(string \<Rightarrow> ('io DataLinkError, ('r, 'w) Interface) outcome) \<Rightarrow> string \<Rightarrow>
      ('io DataLinkError, ('r, 'w) Interface) outcome" where
  "Interface_init T_init name = T_init name"

definition Interface_init_with_parser ::
    "(string \<Rightarrow> 'c PacketParser \<Rightarrow> ('io DataLinkError, ('r, 'w) Interface) outcome) \<Rightarrow> string \<Rightarrow> 'c PacketParser \<Rightarrow>
      ('io DataLinkError, ('r, 'w) Interface) outcome" where
  "Interface_init_with_parser T_init_with_parser name packet_parser = T_init_with_parser name packet_parser"

definition InterfaceReader_init ::
    "(string \<Rightarrow> ('io DataLinkError, 'r InterfaceReader) outcome) \<Rightarrow> string \<Rightarrow>
      ('io DataLinkError, 'r InterfaceReader) outcome" where
  "InterfaceReader_init T_init name = T_init name"

definition InterfaceReader_init_with_parser ::
    "(string \<Rightarrow> 'c PacketParser \<Rightarrow> ('io DataLinkError, 'r InterfaceReader) outcome) \<Rightarrow> string \<Rightarrow> 'c PacketParser \<Rightarrow>
      ('io DataLinkError, 'r InterfaceReader) outcome" where
  "InterfaceReader_init_with_parser T_init_with_parser name packet_parser = T_init_with_parser name packet_parser"

definition InterfaceWriter_init ::
    "(string \<Rightarrow> ('io DataLinkError, 'w InterfaceWriter) outcome) \<Rightarrow> string \<Rightarrow>
      ('io DataLinkError, 'w InterfaceWriter) outcome" where
  "InterfaceWriter_init T_init name = T_init name"

definition Interface_split :: "('r, 'w) Interface \<Rightarrow> 'r InterfaceReaderRef \<times> 'w InterfaceWriterRef" where
  "Interface_split self =
     (\<lparr>rr_reader = if_reader self, rr_metadata = if_metadata self\<rparr>,
      \<lparr>wr_writer = if_writer self, wr_metadata = if_metadata self\<rparr>)"

definition Interface_unsplit ::
    "('r, 'w) Interface \<Rightarrow> 'r InterfaceReaderRef \<Rightarrow> 'w InterfaceWriterRef \<Rightarrow> ('r, 'w) Interface" where
  "Interface_unsplit self r w = self\<lparr>if_reader := rr_reader r, if_writer := wr_writer w\<rparr>"

definition Interface_into_split :: "('r, 'w) Interface \<Rightarrow> 'r InterfaceReader \<times> 'w InterfaceWriter" where
  "Interface_into_split self =
     (\<lparr>ir_reader = if_reader self, ir_metadata = if_metadata self\<rparr>,
      \<lparr>iw_writer = if_writer self, iw_metadata = if_metadata self\<rparr>)"

definition Interface_mac_address :: "('r, 'w) Interface \<Rightarrow> MacAddress option" where
  "Interface_mac_address self = md_mac_address (if_metadata self)"

definition InterfaceReaderRef_mac_address :: "'r InterfaceReaderRef \<Rightarrow> MacAddress option" where
  "InterfaceReaderRef_mac_address self = md_mac_address (rr_metadata self)"

definition InterfaceWriterRef_mac_address :: "'w InterfaceWriterRef \<Rightarrow> MacAddress option" where
  "InterfaceWriterRef_mac_address self = md_mac_address (wr_metadata self)"

definition InterfaceReader_mac_address :: "'r InterfaceReader \<Rightarrow> MacAddress option" where
  "InterfaceReader_mac_address self = md_mac_address (ir_metadata self)"

definition InterfaceWriter_mac_address :: "'w InterfaceWriter \<Rightarrow> MacAddress option" where
  "InterfaceWriter_mac_address self = md_mac_address (iw_metadata self)"

section \<open>Reading and writing\<close>

definition Interface_write :: "('w, 'c, 'io) packet_write \<Rightarrow> (('r, 'w) Interface, 'c, 'io) packet_write" where
  "Interface_write wr self packet =
     (case wr (if_writer self) packet of (w, res) \<Rightarrow> (self\<lparr>if_writer := w\<rparr>, res))"

definition Interface_read :: "('r, 'c, 'io) packet_read \<Rightarrow> (('r, 'w) Interface, 'c, 'io) packet_read" where
  "Interface_read rd self = (case rd (if_reader self) of (r, res) \<Rightarrow> (self\<lparr>if_reader := r\<rparr>, res))"

definition InterfaceReaderRef_read :: "('r, 'c, 'io) packet_read \<Rightarrow> ('r InterfaceReaderRef, 'c, 'io) packet_read" where
  "InterfaceReaderRef_read rd self = (case rd (rr_reader self) of (r, res) \<Rightarrow> (self\<lparr>rr_reader := r\<rparr>, res))"

definition InterfaceReader_read :: "('r, 'c, 'io) packet_read \<Rightarrow> ('r InterfaceReader, 'c, 'io) packet_read" where
  "InterfaceReader_read rd self = (case rd (ir_reader self) of (r, res) \<Rightarrow> (self\<lparr>ir_reader := r\<rparr>, res))"

definition InterfaceWriterRef_write :: "('w, 'c, 'io) packet_write \<Rightarrow> ('w InterfaceWriterRef, 'c, 'io) packet_write" where
  "InterfaceWriterRef_write wr self packet =
     (case wr (wr_writer self) packet of (w, res) \<Rightarrow> (self\<lparr>wr_writer := w\<rparr>, res))"

definition InterfaceWriter_write :: "('w, 'c, 'io) packet_write \<Rightarrow> ('w InterfaceWriter, 'c, 'io) packet_write" where
  "InterfaceWriter_write wr self packet =
     (case wr (iw_writer self) packet of (w, res) \<Rightarrow> (self\<lparr>iw_writer := w\<rparr>, res))"

text \<open>\<open>Iterator::next\<close>, which has no error to return: the error type is \<open>unit\<close>.\<close>

definition Interface_next ::
    "('r, 'c, 'io) packet_read \<Rightarrow> ('r, 'w) Interface \<Rightarrow> ('r, 'w) Interface \<times> (unit, 'c Packet option) outcome" where
  "Interface_next rd self = (case rd (if_reader self) of (r, res) \<Rightarrow> (self\<lparr>if_reader := r\<rparr>, result_ok res))"

definition InterfaceReaderRef_next ::
    "('r, 'c, 'io) packet_read \<Rightarrow> 'r InterfaceReaderRef \<Rightarrow> 'r InterfaceReaderRef \<times> (unit, 'c Packet option) outcome" where
  "InterfaceReaderRef_next rd self = (case rd (rr_reader self) of (r, res) \<Rightarrow> (self\<lparr>rr_reader := r\<rparr>, result_ok res))"

definition InterfaceReader_next ::
    "('r, 'c, 'io) packet_read \<Rightarrow> 'r InterfaceReader \<Rightarrow> 'r InterfaceReader \<times> (unit, 'c Packet option) outcome" where
  "InterfaceReader_next rd self = (case rd (ir_reader self) of (r, res) \<Rightarrow> (self\<lparr>ir_reader := r\<rparr>, result_ok res))"

text \<open>A \<open>for\<close> loop over an iterator, for at most \<open>n\<close> rounds: the packets it sees, in order.\<close>

fun collect_packets ::
    "('s \<Rightarrow> 's \<times> ('e, 'p option) outcome) \<Rightarrow> nat \<Rightarrow> 's \<Rightarrow> 's \<times> ('e, 'p list) outcome" where
  "collect_packets nxt 0 self = (self, Ok [])"
| "collect_packets nxt (Suc n) self =
     (case nxt self of (self', res) \<Rightarrow> try_in self' res (\<lambda>p.
        (case p of
           None \<Rightarrow> (self', Ok [])
         | Some packet \<Rightarrow> (case collect_packets nxt n self' of (self'', rest) \<Rightarrow>
             (self'', omap (\<lambda>ps. packet # ps) rest)))))"

text \<open>Writing packets one after the other, stopping at the first error; each call has its own reading of the clock.\<close>

fun write_packets ::
    "('k \<Rightarrow> ('w, 'c, 'io) packet_write) \<Rightarrow> 'w \<Rightarrow> ('k \<times> 'c Packet) list \<Rightarrow> 'w \<times> ('io DataLinkError, unit) outcome" where
  "write_packets wr self [] = (self, Ok ())"
| "write_packets wr self ((now, p) # ps) = (case wr now self p of (self', res) \<Rightarrow>
     try_in self' res (\<lambda>_. write_packets wr self' ps))"

section \<open>Sinks of packets\<close>

text \<open>
  A writer seen as the list of frames it has put out: a successful \<open>write\<close> puts out the bytes of the packet.
\<close>

locale packet_sink =
  fixes wr :: "'k \<Rightarrow> ('w, 'c, 'io) packet_write" and env :: "'c env" and out :: "'w \<Rightarrow> bytes list"
  assumes write_Ok: "wr k w p = (w', Ok ()) \<Longrightarrow> \<exists>data. Packet_to_bytes env p = Ok data \<and> out w' = out w @ [data]"
begin

lemma write_packets_Ok:
  assumes "write_packets wr w ps = (w', Ok ())"
  shows "\<exists>datas. map (\<lambda>np. Packet_to_bytes env (snd np)) ps = map Ok datas \<and> out w' = out w @ datas"
  using assms
proof (induction ps arbitrary: w)
  case (Cons np ps)
  obtain now p where np: "np = (now, p)" by (cases np)
  obtain w1 res where w1: "wr now w p = (w1, res)" by fastforce
  with Cons.prems np have res: "res = Ok ()"
    by (cases res) auto
  with w1 Cons.prems np have rest: "write_packets wr w1 ps = (w', Ok ())"
    by simp
  from write_Ok [OF w1 [unfolded res]] Cons.IH [OF rest] obtain data datas where
      "Packet_to_bytes env p = Ok data" "out w1 = out w @ [data]"
      "map (\<lambda>np. Packet_to_bytes env (snd np)) ps = map Ok datas" "out w' = out w1 @ datas"
    by blast
  with np show ?case by (intro exI [where x = "data # datas"]) simp
qed simp

text \<open>The writer behind an interface.\<close>

lemma interface_sink: "packet_sink (\<lambda>k. InterfaceWriter_write (wr k)) env (\<lambda>w. out (iw_writer w))"
proof
  fix k w p w'
  assume *: "InterfaceWriter_write (wr k) w p = (w', Ok ())"
  obtain v res where v: "wr k (iw_writer w) p = (v, res)" by fastforce
  with * have "w' = w\<lparr>iw_writer := v\<rparr>" "res = Ok ()"
    by (simp_all add: InterfaceWriter_write_def)
  with write_Ok [of k "iw_writer w" p v] v
  show "\<exists>data. Packet_to_bytes env p = Ok data \<and> out (iw_writer w') = out (iw_writer w) @ [data]" by simp
qed

lemma ref_sink: "packet_sink (\<lambda>k. InterfaceWriterRef_write (wr k)) env (\<lambda>w. out (wr_writer w))"
proof
  fix k w p w'
  assume *: "InterfaceWriterRef_write (wr k) w p = (w', Ok ())"
  obtain v res where v: "wr k (wr_writer w) p = (v, res)" by fastforce
  with * have "w' = w\<lparr>wr_writer := v\<rparr>" "res = Ok ()"
    by (simp_all add: InterfaceWriterRef_write_def)
  with write_Ok [of k "wr_writer w" p v] v
  show "\<exists>data. Packet_to_bytes env p = Ok data \<and> out (wr_writer w') = out (wr_writer w) @ [data]" by simp
qed

lemmas interface_packets_Ok = packet_sink.write_packets_Ok [OF interface_sink]

end

section \<open>Sources of packets\<close>

text \<open>
  A reader seen as the list of results it will give: each \<open>read\<close> gives the first, and the reader after
  it holds the others.  A live source may block when the list is empty; a finite source then
  fails, and stays at its end when it is intact.
\<close>

locale packet_source =
  fixes rd :: "('r, 'c, 'io) packet_read" and pending :: "'r \<Rightarrow> ('io DataLinkError, 'c Packet) outcome list"
  assumes read_next: "pending r = x # xs \<Longrightarrow> snd (rd r) = x \<and> pending (fst (rd r)) = xs"
begin

lemma next_eq: "rd (ir_reader s) = (r', res) \<Longrightarrow> InterfaceReader_next rd s = (s\<lparr>ir_reader := r'\<rparr>, result_ok res)"
  by (simp add: InterfaceReader_next_def)

text \<open>The packets before the first result that is no packet.\<close>

lemma collect_prefix:
  assumes "pending (ir_reader s) = map Ok ps @ Err e # xs" and "length ps < n"
  shows "\<exists>s'. collect_packets (InterfaceReader_next rd) n s = (s', Ok ps) \<and> pending (ir_reader s') = xs \<and>
    ir_metadata s' = ir_metadata s"
  using assms
proof (induction ps arbitrary: s n)
  case Nil
  then obtain m where n: "n = Suc m" by (cases n) auto
  obtain r' res where rd: "rd (ir_reader s) = (r', res)" by fastforce
  with read_next [of "ir_reader s" "Err e" xs] Nil show ?case
    by (simp add: n InterfaceReader_next_def)
next
  case (Cons p ps)
  then obtain m where n: "n = Suc m" and m: "length ps < m" by (cases n) auto
  obtain r' res where rd: "rd (ir_reader s) = (r', res)" by fastforce
  with read_next [of "ir_reader s" "Ok p"] Cons.prems(1)
  have res: "res = Ok p" and r': "pending r' = map Ok ps @ Err e # xs" by auto
  from Cons.IH [of "s\<lparr>ir_reader := r'\<rparr>" m] r' m obtain s' where
    "collect_packets (InterfaceReader_next rd) m (s\<lparr>ir_reader := r'\<rparr>) = (s', Ok ps)"
    "pending (ir_reader s') = xs" "ir_metadata s' = ir_metadata s"
    by auto
  with next_eq [OF rd] res show ?case
    by (simp add: n)
qed

text \<open>As many packets as rounds: the loop does not look further.\<close>

lemma collect_take:
  assumes "pending (ir_reader s) = map Ok ps @ xs"
  shows "\<exists>s'. collect_packets (InterfaceReader_next rd) (length ps) s = (s', Ok ps) \<and> pending (ir_reader s') = xs"
  using assms
proof (induction ps arbitrary: s)
  case (Cons p ps)
  obtain r' res where rd: "rd (ir_reader s) = (r', res)" by fastforce
  with read_next [of "ir_reader s" "Ok p"] Cons.prems(1)
  have res: "res = Ok p" and r': "pending r' = map Ok ps @ xs" by auto
  from Cons.IH [of "s\<lparr>ir_reader := r'\<rparr>"] r' obtain s' where
    "collect_packets (InterfaceReader_next rd) (length ps) (s\<lparr>ir_reader := r'\<rparr>) = (s', Ok ps)"
    "pending (ir_reader s') = xs"
    by auto
  with next_eq [OF rd] res show ?case
    by simp
qed simp

end

locale finite_source = packet_source rd pending
  for rd :: "('r, 'c, 'io) packet_read" and pending :: "'r \<Rightarrow> ('io DataLinkError, 'c Packet) outcome list" +
  fixes intact :: "'r \<Rightarrow> bool"
  assumes read_intact: "pending r \<noteq> [] \<Longrightarrow> intact r \<Longrightarrow> intact (fst (rd r))"
    and read_end: "pending r = [] \<Longrightarrow> intact r \<Longrightarrow>
      \<exists>e. snd (rd r) = Err e \<and> pending (fst (rd r)) = [] \<and> intact (fst (rd r))"
begin

lemma collect_all:
  assumes "pending (ir_reader s) = map Ok ps" and "intact (ir_reader s)" and "length ps < n"
  shows "\<exists>s'. collect_packets (InterfaceReader_next rd) n s = (s', Ok ps) \<and> pending (ir_reader s') = [] \<and>
    intact (ir_reader s')"
  using assms
proof (induction ps arbitrary: s n)
  case Nil
  then obtain m where n: "n = Suc m" by (cases n) auto
  obtain r' res where rd: "rd (ir_reader s) = (r', res)" by fastforce
  with read_end [of "ir_reader s"] Nil show ?case
    by (auto simp: n InterfaceReader_next_def)
next
  case (Cons p ps)
  then obtain m where n: "n = Suc m" and m: "length ps < m" by (cases n) auto
  obtain r' res where rd: "rd (ir_reader s) = (r', res)" by fastforce
  with read_next [of "ir_reader s" "Ok p"] read_intact [of "ir_reader s"] Cons.prems(1,2)
  have res: "res = Ok p" and r': "pending r' = map Ok ps" "intact r'" by auto
  from Cons.IH [of "s\<lparr>ir_reader := r'\<rparr>" m] r' m obtain s' where
    "collect_packets (InterfaceReader_next rd) m (s\<lparr>ir_reader := r'\<rparr>) = (s', Ok ps)" "pending (ir_reader s') = []"
    "intact (ir_reader s')"
    by auto
  with next_eq [OF rd] res show ?case
    by (simp add: n)
qed

end

section \<open>Properties\<close>

text \<open>
  Splitting an interface loses nothing: reading and writing through the two halves of \<open>split\<close> and
  giving the borrows back is reading and writing through the interface, with the same results; both
  halves of \<open>split\<close> and \<open>into_split\<close> report the interface's MAC address; and the halves of \<open>into_split\<close>
  behave like the interface.
\<close>

lemma split_faithful:
  "(case Interface_split self of (r, w) \<Rightarrow>
      InterfaceReaderRef_mac_address r = Interface_mac_address self \<and>
      InterfaceWriterRef_mac_address w = Interface_mac_address self \<and>
      (case (InterfaceReaderRef_read rd r, InterfaceWriterRef_write wr w packet) of
         ((r', rres), (w', wres)) \<Rightarrow>
           (Interface_unsplit self r' w', wres) = Interface_write wr (fst (Interface_read rd self)) packet \<and>
           rres = snd (Interface_read rd self))) \<and>
   (case Interface_into_split self of (r, w) \<Rightarrow>
      InterfaceReader_mac_address r = Interface_mac_address self \<and>
      InterfaceWriter_mac_address w = Interface_mac_address self \<and>
      snd (InterfaceReader_read rd r) = snd (Interface_read rd self) \<and>
      snd (InterfaceReader_next rd r) = snd (Interface_next rd self) \<and>
      snd (InterfaceWriter_write wr w packet) = snd (Interface_write wr self packet))"
  by (simp add: Interface_split_def Interface_into_split_def Interface_unsplit_def
      InterfaceReaderRef_mac_address_def InterfaceWriterRef_mac_address_def Interface_mac_address_def
      InterfaceReader_mac_address_def InterfaceWriter_mac_address_def InterfaceReaderRef_read_def
      InterfaceWriterRef_write_def Interface_read_def Interface_write_def InterfaceReader_read_def
      InterfaceReader_next_def Interface_next_def InterfaceWriter_write_def split_beta)

end
