(* ===== verification/Pcap_File.thy ===== *)
theory Pcap_File
  imports Datalink
begin

text \<open>
  \<open>src/datalink/pcapfile.rs\<close>: reading and writing capture files.  The file system, the clock and the
  crate \<open>pcap_file\<close> are not part of the repository: they are the record \<open>pcap_lib\<close> (a \<open>Result\<close> is a
  sum with the error on the left).  What is used of the crate to relate written and read files is the
  locale \<open>pcap_file_laws\<close>: a successful write appends one record, and reading returns the records in
  order, up to the end of the file or to where it is damaged, and there an error.
\<close>

datatype DataLink = ETHERNET | OTHER_LINK nat

record PcapPacket =
  cap_timestamp :: nat
  cap_orig_len :: u32
  cap_data :: bytes

record ('file, 'rd, 'wr, 'io) pcap_lib =
  pl_open :: "string \<Rightarrow> 'io + 'file"
  pl_create :: "string \<Rightarrow> 'io + 'file"
  pl_reader_new :: "'file \<Rightarrow> 'io pcap_error + 'rd"
  pl_datalink :: "'rd \<Rightarrow> DataLink"
  pl_next_packet :: "'rd \<Rightarrow> 'rd \<times> ('io pcap_error + bytes) option"
  pl_writer_new :: "'file \<Rightarrow> 'io pcap_error + 'wr"
  pl_write_packet :: "'wr \<Rightarrow> PcapPacket \<Rightarrow> 'wr \<times> ('io pcap_error + unit)"

section \<open>The reader\<close>

type_synonym 'c PcapParserFn = "'c PacketParser \<Rightarrow> bytes \<Rightarrow> (PacketError, bytes \<times> 'c Packet) outcome"

record ('c, 'rd) PcapFileReader =
  fr_packet_parser :: "'c PacketParser"
  fr_reader :: 'rd
  fr_parser_fn :: "'c PcapParserFn"

definition PcapFile_read_init_with_parser ::
    "('file, 'rd, 'wr, 'io) pcap_lib \<Rightarrow> 'c env \<Rightarrow> string \<Rightarrow> 'c PacketParser \<Rightarrow>
      ('io DataLinkError, ('c, 'rd) PcapFileReader InterfaceReader) outcome" where
  "PcapFile_read_init_with_parser lib env filename packet_parser =
     obind (map_err DataLinkError_from_io (of_result (pl_open lib filename))) (\<lambda>file_in.
     obind (map_err DataLinkError_from_pcap (of_result (pl_reader_new lib file_in))) (\<lambda>reader.
     let parser_fn = (case pl_datalink lib reader of
           ETHERNET \<Rightarrow> (\<lambda>packet_parser i. of_run (parse_packet env (Ether_t env) packet_parser i))
         | _ \<Rightarrow> (\<lambda>packet_parser i. of_run (parse_packet env (Raw_t env) packet_parser i))) in
     Ok \<lparr>ir_reader = \<lparr>fr_packet_parser = packet_parser, fr_reader = reader, fr_parser_fn = parser_fn\<rparr>,
         ir_metadata = \<lparr>md_mac_address = None\<rparr>\<rparr>))"

definition PcapFile_read_init ::
    "('file, 'rd, 'wr, 'io) pcap_lib \<Rightarrow> 'c env \<Rightarrow> string \<Rightarrow>
      ('io DataLinkError, ('c, 'rd) PcapFileReader InterfaceReader) outcome" where
  "PcapFile_read_init lib env filename = PcapFile_read_init_with_parser lib env filename (PacketParser_new env)"

definition parse_record :: "('c, 'rd) PcapFileReader \<Rightarrow> bytes \<Rightarrow> ('io DataLinkError, 'c Packet) outcome" where
  "parse_record self data =
     omap snd (map_err DataLinkError_from_packet (fr_parser_fn self (fr_packet_parser self) data))"

definition PcapFileReader_read ::
    "('file, 'rd, 'wr, 'io) pcap_lib \<Rightarrow> (('c, 'rd) PcapFileReader, 'c, 'io) packet_read" where
  "PcapFileReader_read lib self =
     (case pl_next_packet lib (fr_reader self) of (reader, res) \<Rightarrow>
      let self = self\<lparr>fr_reader := reader\<rparr> in
      (case res of
         Some (Inr data) \<Rightarrow> (self, parse_record self data)
       | Some (Inl e) \<Rightarrow> (self, Err (DataLinkError_from_pcap e))
       | None \<Rightarrow> (self, Err Eof)))"

section \<open>The writer\<close>

record 'wr PcapFileWriter =
  fw_writer :: 'wr

definition PcapFile_write_init ::
    "('file, 'rd, 'wr, 'io) pcap_lib \<Rightarrow> string \<Rightarrow> ('io DataLinkError, 'wr PcapFileWriter InterfaceWriter) outcome" where
  "PcapFile_write_init lib filename =
     obind (map_err DataLinkError_from_io (of_result (pl_create lib filename))) (\<lambda>file_in.
     obind (map_err DataLinkError_from_pcap (of_result (pl_writer_new lib file_in))) (\<lambda>writer.
     Ok \<lparr>iw_writer = \<lparr>fw_writer = writer\<rparr>, iw_metadata = \<lparr>md_mac_address = None\<rparr>\<rparr>))"

text \<open>\<open>now\<close> is \<open>SystemTime::now().duration_since(UNIX_EPOCH)\<close>.\<close>

definition PcapFileWriter_write ::
    "('file, 'rd, 'wr, 'io) pcap_lib \<Rightarrow> 'c env \<Rightarrow> string + nat \<Rightarrow> ('wr PcapFileWriter, 'c, 'io) packet_write" where
  "PcapFileWriter_write lib env now self packet =
     try_in self (map_err DataLinkError_from_packet (Packet_to_bytes env packet)) (\<lambda>data.
     try_in self (ok_or (PcapError (''failed to convert packet length '' @ show_nat (length data) @ '' > '' @
         show_nat 4294967295)) (u32_try_from (length data))) (\<lambda>data_len.
     try_in self (map_err (\<lambda>error. PcapError (''system clock is before Unix epoch: '' @ error)) (of_result now))
       (\<lambda>timestamp.
     (case pl_write_packet lib (fw_writer self)
         \<lparr>cap_timestamp = timestamp, cap_orig_len = data_len, cap_data = data\<rparr> of (writer, res) \<Rightarrow>
      (self\<lparr>fw_writer := writer\<rparr>, map_err DataLinkError_from_pcap (of_result res))))))"

section \<open>What is used of the library\<close>

locale pcap_file_laws =
  fixes lib :: "('file, 'rd, 'wr, 'io) pcap_lib" and stored :: "'file \<Rightarrow> bytes list"
    and written :: "'wr \<Rightarrow> bytes list" and unread :: "'rd \<Rightarrow> bytes list" and damage :: "'rd \<Rightarrow> 'io pcap_error option"
  assumes writer_empty: "pl_writer_new lib f = Inr w \<Longrightarrow> written w = []"
    and write_appends: "pl_write_packet lib w p = (w', Inr ()) \<Longrightarrow> written w' = written w @ [cap_data p]"
    and reader_start: "pl_reader_new lib f = Inr r \<Longrightarrow> unread r = stored f"
    and next_record: "unread r = x # xs \<Longrightarrow> \<exists>r'. pl_next_packet lib r = (r', Some (Inr x)) \<and> unread r' = xs \<and>
      damage r' = damage r"
    and next_eof: "unread r = [] \<Longrightarrow> damage r = None \<Longrightarrow>
      \<exists>r'. pl_next_packet lib r = (r', None) \<and> unread r' = [] \<and> damage r' = None"
    and next_damage: "unread r = [] \<Longrightarrow> damage r = Some e \<Longrightarrow> \<exists>r'. pl_next_packet lib r = (r', Some (Inl e))"
begin

text \<open>A capture file is a source of the packets its records parse to.\<close>

lemma file_source: "finite_source (PcapFileReader_read lib) (\<lambda>r. map (parse_record r) (unread (fr_reader r)))
  (\<lambda>r. damage (fr_reader r) = None)"
proof
  fix r :: "('c, 'rd) PcapFileReader" and x :: "('io DataLinkError, 'c Packet) outcome" and xs
  assume "map (parse_record r) (unread (fr_reader r)) = x # xs"
  then obtain d ds where ds: "unread (fr_reader r) = d # ds" "x = parse_record r d" "xs = map (parse_record r) ds"
    by auto
  from next_record [OF ds(1)] obtain r' where "pl_next_packet lib (fr_reader r) = (r', Some (Inr d))" "unread r' = ds"
    by blast
  then show "snd (PcapFileReader_read lib r) = x \<and>
      map (parse_record (fst (PcapFileReader_read lib r))) (unread (fr_reader (fst (PcapFileReader_read lib r)))) = xs"
    using ds(2,3) by (simp add: PcapFileReader_read_def parse_record_def [abs_def])
next
  fix r :: "('c, 'rd) PcapFileReader"
  assume "map (parse_record r) (unread (fr_reader r)) \<noteq> ([] :: ('io DataLinkError, 'c Packet) outcome list)"
    and intact: "damage (fr_reader r) = None"
  then obtain d ds where "unread (fr_reader r) = d # ds" by (cases "unread (fr_reader r)") auto
  from next_record [OF this] intact
  show "damage (fr_reader (fst (PcapFileReader_read lib r :: _ \<times> ('io DataLinkError, 'c Packet) outcome))) = None"
    by (auto simp: PcapFileReader_read_def Let_def)
next
  fix r :: "('c, 'rd) PcapFileReader"
  assume "map (parse_record r) (unread (fr_reader r)) = ([] :: ('io DataLinkError, 'c Packet) outcome list)"
    and "damage (fr_reader r) = None"
  then have "unread (fr_reader r) = []" "damage (fr_reader r) = None" by simp_all
  from next_eof [OF this] obtain r' where "pl_next_packet lib (fr_reader r) = (r', None)" "unread r' = []" "damage r' = None"
    by blast
  then show "\<exists>e. snd (PcapFileReader_read lib r) = Err e \<and>
      map (parse_record (fst (PcapFileReader_read lib r))) (unread (fr_reader (fst (PcapFileReader_read lib r))))
        = ([] :: ('io DataLinkError, 'c Packet) outcome list) \<and>
      damage (fr_reader (fst (PcapFileReader_read lib r))) = None"
    by (simp add: PcapFileReader_read_def)
qed

text \<open>What a successful sequence of writes leaves in the file.\<close>

lemma write_Ok:
  assumes "PcapFileWriter_write lib env now w p = (w', Ok ())"
  shows "\<exists>data. Packet_to_bytes env p = Ok data \<and> written (fw_writer w') = written (fw_writer w) @ [data]"
proof (cases "Packet_to_bytes env p")
  case (Ok data)
  from assms Ok obtain n where n: "u32_try_from (length data) = Some n"
    by (cases "u32_try_from (length data)") (auto simp: PcapFileWriter_write_def)
  from assms Ok n obtain t where t: "now = Inr t"
    by (cases now) (auto simp: PcapFileWriter_write_def)
  obtain w1 res where r: "pl_write_packet lib (fw_writer w) \<lparr>cap_timestamp = t, cap_orig_len = n, cap_data = data\<rparr> = (w1, res)"
    by fastforce
  with assms Ok n t have "w' = w\<lparr>fw_writer := w1\<rparr>" "res = Inr ()"
    by (cases res; simp add: PcapFileWriter_write_def)+
  with write_appends r Ok show ?thesis by fastforce
qed (use assms in \<open>simp_all add: PcapFileWriter_write_def\<close>)

lemma file_sink: "packet_sink (PcapFileWriter_write lib env) env (\<lambda>w. written (fw_writer w))"
  by unfold_locales (rule write_Ok)

lemmas write_packets_Ok = packet_sink.interface_packets_Ok [OF file_sink]

text \<open>What the two \<open>init\<close> functions leave.\<close>

lemma write_init_Ok: "PcapFile_write_init lib f = Ok w \<Longrightarrow> written (fw_writer (iw_writer w)) = []"
  using writer_empty by (cases "pl_create lib f"; cases "pl_writer_new lib (projr (pl_create lib f))")
    (auto simp: PcapFile_write_init_def)

lemma read_init_Ok:
  assumes "PcapFile_read_init_with_parser lib env f pp = Ok s"
  shows "\<exists>file r. pl_open lib f = Inr file \<and> pl_reader_new lib file = Inr r \<and>
    ir_reader s = \<lparr>fr_packet_parser = pp, fr_reader = r, fr_parser_fn = (\<lambda>packet_parser i.
      of_run (case pl_datalink lib r of ETHERNET \<Rightarrow> parse_packet env (Ether_t env) packet_parser i
        | _ \<Rightarrow> parse_packet env (Raw_t env) packet_parser i))\<rparr> \<and>
    unread r = stored file \<and> ir_metadata s = \<lparr>md_mac_address = None\<rparr>"
  using assms reader_start
  by (cases "pl_open lib f"; cases "pl_reader_new lib (projr (pl_open lib f))"; cases "pl_datalink lib (projr (pl_reader_new lib (projr (pl_open lib f))))")
    (auto simp: PcapFile_read_init_with_parser_def)

text \<open>Reading records that are the bytes of well-formed frames.\<close>

lemma read_end_of_file:
  assumes "unread (fr_reader r) = []" and "damage (fr_reader r) = None"
  shows "snd (PcapFileReader_read lib r) = Err Eof"
  using next_eof [OF assms] by (auto simp: PcapFileReader_read_def)

lemma read_damage:
  assumes "unread (fr_reader r) = []" and "damage (fr_reader r) = Some e"
  shows "snd (PcapFileReader_read lib r) = Err (DataLinkError_from_pcap e)"
  using next_damage [OF assms] by (auto simp: PcapFileReader_read_def)

lemma read_back:
  assumes env: "packet_env env" and init: "PcapFile_read_init lib env f = Ok s"
    and eth: "pl_datalink lib (fr_reader (ir_reader s)) = ETHERNET"
    and bytes: "map (Packet_to_bytes env) ps = map Ok (unread (fr_reader (ir_reader s)))"
    and frames: "list_all (frame_wf env) ps" and intact: "damage (fr_reader (ir_reader s)) = None" and n: "length ps < n"
  shows "\<exists>s'. collect_packets (InterfaceReader_next (PcapFileReader_read lib)) n s = (s', Ok ps) \<and>
    snd (InterfaceReader_read (PcapFileReader_read lib) s') = Err Eof"
proof -
  let ?pending = "\<lambda>r. map (parse_record r) (unread (fr_reader r)) :: ('io DataLinkError, 'c Packet) outcome list"
  from read_init_Ok [OF init [unfolded PcapFile_read_init_def]] eth
  have parser: "fr_parser_fn (ir_reader s) = (\<lambda>pp i. of_run (parse_packet env (Ether_t env) pp i))"
      "fr_packet_parser (ir_reader s) = PacketParser_new env"
    by (auto split: DataLink.splits)
  have "parse_record (ir_reader s) d = Ok p" if "frame_wf env p" "Packet_to_bytes env p = Ok d" for p d
    using frame_wf_reparse [OF env that(1)] that(2) by (auto simp: parse_record_def parser)
  with frames bytes have "?pending (ir_reader s) = map Ok ps"
    by (intro map_retract [where f = "Packet_to_bytes env"]) (auto simp: list_all_iff)
  from finite_source.collect_all [OF file_source this intact n] obtain s' where
      s': "collect_packets (InterfaceReader_next (PcapFileReader_read lib)) n s = (s', Ok ps)"
      "unread (fr_reader (ir_reader s')) = []" "damage (fr_reader (ir_reader s')) = None"
    by auto
  with read_end_of_file [of "ir_reader s'"] show ?thesis
    by (auto simp: InterfaceReader_read_def split: prod.split)
qed

end

text \<open>A library that keeps the file in memory.\<close>

definition mem_pcap :: "bytes list \<Rightarrow> (bytes list, bytes list, bytes list, string) pcap_lib" where
  "mem_pcap disk = \<lparr>pl_open = (\<lambda>_. Inr disk), pl_create = (\<lambda>_. Inr []), pl_reader_new = Inr,
     pl_datalink = (\<lambda>_. ETHERNET),
     pl_next_packet = (\<lambda>r. case r of [] \<Rightarrow> ([], None) | d # ds \<Rightarrow> (ds, Some (Inr d))),
     pl_writer_new = (\<lambda>_. Inr []), pl_write_packet = (\<lambda>w p. (w @ [cap_data p], Inr ()))\<rparr>"

interpretation mem: pcap_file_laws "mem_pcap disk" "\<lambda>f. f" "\<lambda>w. w" "\<lambda>r. r" "\<lambda>_. None" for disk
  by unfold_locales (auto simp: mem_pcap_def split: list.splits)


interpretation mem_sink: packet_sink "PcapFileWriter_write (mem_pcap disk) env" env fw_writer for disk env
  by (rule mem.file_sink)

interpretation mem_source: finite_source "PcapFileReader_read (mem_pcap disk)"
  "\<lambda>r. map (parse_record r) (fr_reader r)" "\<lambda>_. True" for disk
  using mem.file_source by simp

text \<open>A library that keeps the file in memory, damaged after its records.\<close>

definition torn_pcap :: "string pcap_error \<Rightarrow> bytes list \<Rightarrow> (bytes list, bytes list, bytes list, string) pcap_lib" where
  "torn_pcap e disk = (mem_pcap disk)\<lparr>pl_next_packet :=
     (\<lambda>r. case r of [] \<Rightarrow> ([], Some (Inl e)) | d # ds \<Rightarrow> (ds, Some (Inr d)))\<rparr>"

interpretation torn: pcap_file_laws "torn_pcap e disk" "\<lambda>f. f" "\<lambda>w. w" "\<lambda>r. r" "\<lambda>_. Some e" for e disk
  by unfold_locales (auto simp: torn_pcap_def mem_pcap_def split: list.splits)

section \<open>Properties\<close>

text \<open>
  (C9) A capture file gives back what was written to it: when every write of well-formed Ethernet packets
  succeeded, iterating over a reader that the default \<open>init\<close> opened on the stored file, which is read to its
  end without damage, yields those packets, in order, and stops; the next \<open>read\<close> reports the end of the file.
\<close>

theorem pcap_write_read_roundtrip:
  assumes env: "packet_env env" and laws: "pcap_file_laws lib stored written unread damage"
    and create: "PcapFile_write_init lib f = Ok w0"
    and writes: "write_packets (\<lambda>now. InterfaceWriter_write (PcapFileWriter_write lib env now)) w0 ps = (w, Ok ())"
    and frames: "list_all (frame_wf env) (map snd ps)"
    and reopen: "PcapFile_read_init lib env g = Ok s" "pl_datalink lib (fr_reader (ir_reader s)) = ETHERNET"
    and same: "pl_open lib g = Inr file" "stored file = written (fw_writer (iw_writer w))"
      "damage (fr_reader (ir_reader s)) = None"
    and n: "length ps < n"
  shows "\<exists>s'. collect_packets (InterfaceReader_next (PcapFileReader_read lib)) n s = (s', Ok (map snd ps)) \<and>
    snd (InterfaceReader_read (PcapFileReader_read lib) s') = Err Eof"
proof -
  from pcap_file_laws.write_packets_Ok [OF laws writes] pcap_file_laws.write_init_Ok [OF laws create]
  obtain datas where datas: "map (\<lambda>np. Packet_to_bytes env (snd np)) ps = map Ok datas" "stored file = datas"
    using same by auto
  moreover have "unread (fr_reader (ir_reader s)) = stored file"
    using pcap_file_laws.read_init_Ok [OF laws reopen(1) [unfolded PcapFile_read_init_def]] same(1) by auto
  ultimately show ?thesis
    using pcap_file_laws.read_back [OF laws env reopen _ frames same(3)] n by (simp add: comp_def)
qed

definition ether_packet :: "unit Packet" where
  "ether_packet = Packet_from_layers [LEther Ether_default]"

lemma ether_packet_wf: "frame_wf dev_env ether_packet"
  using udp_frame_ok(2) by (simp add: ether_packet_def Packet_from_layers_def frame_wf_def)

lemma ether_packet_bytes: "\<exists>b. Packet_to_bytes dev_env ether_packet = Ok b \<and> length b = 14"
proof -
  obtain b where b: "Ether_to_bytes ref_deku Ether_default = Ok b"
    using layer_codec.reparse [OF dev_packets.ether_codec, of Ether_default] udp_frame_ok(2) by auto
  with fixed_header.to_bytes_length [OF ref.ether_header b] show ?thesis
    by (simp add: Packet_to_bytes_def layers_to_bytes_eq ether_packet_def Packet_from_layers_def)
qed

lemma mem_write_init: "PcapFile_write_init (mem_pcap disk) f
    = Ok \<lparr>iw_writer = \<lparr>fw_writer = []\<rparr>, iw_metadata = \<lparr>md_mac_address = None\<rparr>\<rparr>"
  by (simp add: PcapFile_write_init_def mem_pcap_def)

lemma mem_read_init: "\<exists>s. PcapFile_read_init (mem_pcap disk) env f = Ok s \<and> fr_reader (ir_reader s) = disk \<and>
    pl_datalink (mem_pcap disk) (fr_reader (ir_reader s)) = ETHERNET"
  by (simp add: PcapFile_read_init_def PcapFile_read_init_with_parser_def mem_pcap_def)

lemma mem_write:
  assumes "Packet_to_bytes env p = Ok b" and "length b < 2 ^ 32"
  shows "write_packets (\<lambda>now. InterfaceWriter_write (PcapFileWriter_write (mem_pcap disk) env now)) w [(Inr t, p)]
    = (w\<lparr>iw_writer := \<lparr>fw_writer = fw_writer (iw_writer w) @ [b]\<rparr>\<rparr>, Ok ())"
  using assms
  by (simp add: InterfaceWriter_write_def PcapFileWriter_write_def mem_pcap_def u32_try_from_def)

theorem pcap_write_read_roundtrip_witness:
  "\<exists>b w s. PcapFile_write_init (mem_pcap [b]) ''out.pcap'' = Ok w \<and>
    snd (write_packets (\<lambda>now. InterfaceWriter_write (PcapFileWriter_write (mem_pcap [b]) dev_env now)) w
      [(Inr 7, ether_packet)]) = Ok () \<and>
    PcapFile_read_init (mem_pcap [b]) dev_env ''out.pcap'' = Ok s \<and>
    snd (collect_packets (InterfaceReader_next (PcapFileReader_read (mem_pcap [b]))) 2 s) = Ok [ether_packet]"
proof -
  obtain b where b: "Packet_to_bytes dev_env ether_packet = Ok b" and len: "length b < 2 ^ 32"
    using ether_packet_bytes by force
  obtain s where s: "PcapFile_read_init (mem_pcap [b]) dev_env ''out.pcap'' = Ok s"
      "pl_datalink (mem_pcap [b]) (fr_reader (ir_reader s)) = ETHERNET"
    using mem_read_init by blast
  have op: "pl_open (mem_pcap [b]) ''out.pcap'' = Inr [b]" by (simp add: mem_pcap_def)
  note written = mem_write [OF b len, of "[b]" "\<lparr>iw_writer = \<lparr>fw_writer = []\<rparr>, iw_metadata = \<lparr>md_mac_address = None\<rparr>\<rparr>" 7]
  have "list_all (frame_wf dev_env) (map snd [(Inr 7 :: string + nat, ether_packet)])"
    using ether_packet_wf by simp
  from pcap_write_read_roundtrip [OF dev_packets.packet_env_axioms mem.pcap_file_laws_axioms mem_write_init written
      this s op _ refl, of 2]
  have "snd (collect_packets (InterfaceReader_next (PcapFileReader_read (mem_pcap [b]))) 2 s) = Ok [ether_packet]"
    by auto
  with mem_write_init [of "[b]"] written s(1) show ?thesis
    by (intro exI conjI) (assumption | simp)+
qed

text \<open>
  (C38) Iterating over a capture file stops at the first record that does not parse, as it does at the end of
  the file: the packets before it are given in order, the error is dropped, and the records after it stay
  unread.
\<close>

theorem pcap_iterator_stops_at_error:
  fixes lib :: "('file, 'rd, 'wr, 'io) pcap_lib" and e :: "'io DataLinkError"
  assumes laws: "pcap_file_laws lib stored written unread damage"
    and records: "unread (fr_reader (ir_reader s)) = ds @ d # ds'"
    and good: "map (parse_record (ir_reader s)) ds = (map Ok ps :: ('io DataLinkError, 'c Packet) outcome list)"
    and bad: "parse_record (ir_reader s) d = Err e" and n: "length ps < n"
  shows "\<exists>s'. collect_packets (InterfaceReader_next (PcapFileReader_read lib)) n s = (s', Ok ps) \<and>
    (map (parse_record (ir_reader s')) (unread (fr_reader (ir_reader s'))) :: ('io DataLinkError, 'c Packet) outcome list)
      = map (parse_record (ir_reader s)) ds'"
proof -
  let ?pending = "\<lambda>r. map (parse_record r) (unread (fr_reader r)) :: ('io DataLinkError, 'c Packet) outcome list"
  from records good bad have "?pending (ir_reader s) = map Ok ps @ Err e # map (parse_record (ir_reader s)) ds'"
    by simp
  from packet_source.collect_prefix [OF finite_source.axioms(1) [OF pcap_file_laws.file_source [OF laws]] this n] show ?thesis by blast
qed

lemma mem_read_short:
  assumes "PcapFile_read_init (mem_pcap disk) dev_env f = Ok s"
  shows "\<exists>e. parse_record (ir_reader s) [] = Err e"
proof -
  obtain n where "Ether_parse (env_pf dev_env) (env_dk dev_env) [] = Err (LayerError.Incomplete n)"
    using fixed_header.parse_short [OF ref.ether_header, of "[]"] by fastforce
  then have "parse_packet dev_env (Ether_t dev_env) pp [] = Some (Err (PacketError.Incomplete n))" for pp
    by (simp add: parse_packet_def Ether_t_def)
  with assms show ?thesis
    by (auto simp: PcapFile_read_init_def PcapFile_read_init_with_parser_def mem_pcap_def parse_record_def)
qed

theorem pcap_iterator_stops_at_error_witness:
  "\<exists>s s'. PcapFile_read_init (mem_pcap [[], [1]]) dev_env ''in.pcap'' = Ok s \<and>
    collect_packets (InterfaceReader_next (PcapFileReader_read (mem_pcap [[], [1]]))) 5 s = (s', Ok []) \<and>
    fr_reader (ir_reader s') \<noteq> []"
proof -
  obtain s where s: "PcapFile_read_init (mem_pcap [[], [1]]) dev_env ''in.pcap'' = Ok s"
      "fr_reader (ir_reader s) = [[], [1]]"
    using mem_read_init by blast
  obtain e :: "string DataLinkError" where e: "parse_record (ir_reader s) [] = Err e"
    using mem_read_short [OF s(1)] by blast
  have "fr_reader (ir_reader s) = [] @ [] # [[1]]" using s(2) by simp
  from pcap_iterator_stops_at_error [OF mem.pcap_file_laws_axioms [of "[[], [1]]"] this _ e, of "[]" 5] obtain s' where
      "collect_packets (InterfaceReader_next (PcapFileReader_read (mem_pcap [[], [1]]))) 5 s = (s', Ok [])"
      "fr_reader (ir_reader s') \<noteq> []"
    by fastforce
  with s(1) show ?thesis by blast
qed

text \<open>
  (C39) Iterating over a capture file that is damaged after its last readable record ends as if the file ended there: the
  packets of the readable records are given, in order, and no sign of the error.  Only a caller of \<open>read\<close> sees it:
  after the same packets the next \<open>read\<close> is the library's error.
\<close>

theorem pcap_iterator_hides_damage:
  fixes lib :: "('file, 'rd, 'wr, 'io) pcap_lib"
  assumes laws: "pcap_file_laws lib stored written unread damage"
    and good: "map (parse_record (ir_reader s)) (unread (fr_reader (ir_reader s)))
      = (map Ok ps :: ('io DataLinkError, 'c Packet) outcome list)"
    and damaged: "damage (fr_reader (ir_reader s)) = Some e" and n: "length ps < n"
  shows "snd (collect_packets (InterfaceReader_next (PcapFileReader_read lib)) n s) = (Ok ps :: (unit, 'c Packet list) outcome) \<and>
    (\<exists>s'. collect_packets (InterfaceReader_next (PcapFileReader_read lib)) (length ps) s = (s', Ok ps) \<and>
       snd (InterfaceReader_read (PcapFileReader_read lib) s') = (Err (DataLinkError_from_pcap e) :: ('io DataLinkError, 'c Packet) outcome))"
  using good damaged n
proof (induction ps arbitrary: s n)
  case Nil
  then obtain m where m: "n = Suc m" by (cases n) auto
  from Nil have "snd (PcapFileReader_read lib (ir_reader s)) = (Err (DataLinkError_from_pcap e) :: ('io DataLinkError, 'c Packet) outcome)"
    by (intro pcap_file_laws.read_damage [OF laws]) simp_all
  then show ?case
    by (auto simp: m InterfaceReader_next_def InterfaceReader_read_def split: prod.splits)
next
  case (Cons p ps)
  then obtain m d ds where m: "n = Suc m" "length ps < m" and d: "unread (fr_reader (ir_reader s)) = d # ds"
      "parse_record (ir_reader s) d = (Ok p :: ('io DataLinkError, 'c Packet) outcome)"
    by (cases n) auto
  obtain r where r: "pl_next_packet lib (fr_reader (ir_reader s)) = (r, Some (Inr d))" "unread r = ds"
      "damage r = damage (fr_reader (ir_reader s))"
    using pcap_file_laws.next_record [OF laws d(1)] by blast
  let ?s = "s\<lparr>ir_reader := ir_reader s\<lparr>fr_reader := r\<rparr>\<rparr>"
  have "InterfaceReader_next (PcapFileReader_read lib) s = (?s, Ok (Some p))"
    using r(1) d(2) by (simp add: InterfaceReader_next_def PcapFileReader_read_def parse_record_def)
  moreover from Cons.IH [of ?s m] Cons.prems d r m(2) have
      "snd (collect_packets (InterfaceReader_next (PcapFileReader_read lib)) m ?s) = (Ok ps :: (unit, 'c Packet list) outcome)"
      "\<exists>s'. collect_packets (InterfaceReader_next (PcapFileReader_read lib)) (length ps) ?s = (s', Ok ps) \<and>
        snd (InterfaceReader_read (PcapFileReader_read lib) s') = (Err (DataLinkError_from_pcap e) :: ('io DataLinkError, 'c Packet) outcome)"
    by (simp_all add: parse_record_def)
  ultimately show ?case by (auto simp: m(1) split: prod.splits)
qed

theorem pcap_iterator_hides_damage_witness:
  "\<exists>b s s'. PcapFile_read_init (torn_pcap (PcapOther ''incomplete buffer'') [b]) dev_env ''in.pcap'' = Ok s \<and>
    snd (collect_packets (InterfaceReader_next (PcapFileReader_read (torn_pcap (PcapOther ''incomplete buffer'') [b]))) 5 s) = Ok [ether_packet] \<and>
    snd (InterfaceReader_read (PcapFileReader_read (torn_pcap (PcapOther ''incomplete buffer'') [b])) s')
      = (Err (DataLinkError_from_pcap (PcapOther ''incomplete buffer'')) :: (string DataLinkError, unit Packet) outcome)"
proof -
  let ?lib = "torn_pcap (PcapOther ''incomplete buffer'')"
  obtain b where b: "Packet_to_bytes dev_env ether_packet = Ok b" using ether_packet_bytes by blast
  have "parse_packet dev_env (Ether_t dev_env) (PacketParser_new dev_env) b = Some (Ok ([], ether_packet))"
    using frame_wf_reparse [OF dev_packets.packet_env_axioms ether_packet_wf] b by auto
  then obtain s where s: "PcapFile_read_init (?lib [b]) dev_env ''in.pcap'' = Ok s" "fr_reader (ir_reader s) = [b]"
      "parse_record (ir_reader s) b = (Ok ether_packet :: (string DataLinkError, unit Packet) outcome)"
    by (simp add: PcapFile_read_init_def PcapFile_read_init_with_parser_def torn_pcap_def mem_pcap_def parse_record_def)
  have "map (parse_record (ir_reader s)) (fr_reader (ir_reader s))
      = (map Ok [ether_packet] :: (string DataLinkError, unit Packet) outcome list)"
    using s(2,3) by simp
  from pcap_iterator_hides_damage [OF torn.pcap_file_laws_axioms [where e = "PcapOther ''incomplete buffer''" and
      disk = "[b]"] this refl, of 5] s(1) show ?thesis by auto
qed

text \<open>
  A write either leaves the file alone and fails, or hands the library exactly one record: the packet's
  bytes, with their length as the original length, unchanged by the conversion to 32 bits; the result is the
  library's.
\<close>

lemma pcap_write_record:
  "(\<exists>r. PcapFileWriter_write lib env now self p = (self, r) \<and> r \<noteq> Ok ()) \<or>
   (\<exists>data n t w res. Packet_to_bytes env p = Ok data \<and> unat n = length data \<and> now = Inr t \<and>
      pl_write_packet lib (fw_writer self) \<lparr>cap_timestamp = t, cap_orig_len = n, cap_data = data\<rparr> = (w, res) \<and>
      PcapFileWriter_write lib env now self p
        = (self\<lparr>fw_writer := w\<rparr>, map_err DataLinkError_from_pcap (of_result res)))"
proof (cases "Packet_to_bytes env p")
  case (Ok data)
  show ?thesis
  proof (cases "length data < 2 ^ 32")
    case True
    then have n: "u32_try_from (length data) = Some (word_of_nat (length data))"
        "unat (word_of_nat (length data) :: u32) = length data"
      by (simp_all add: u32_try_from_def unat_of_nat)
    with Ok show ?thesis
      by (cases now) (auto simp: PcapFileWriter_write_def split: prod.splits)
  qed (use Ok in \<open>simp add: PcapFileWriter_write_def u32_try_from_def\<close>)
qed (simp_all add: PcapFileWriter_write_def)

end
