(* ===== verification/Capture_Dump.thy ===== *)
theory Capture_Dump
  imports Pcap_File
begin

text \<open>
  \<open>example_wasm/src/lib.rs\<close>: decode a capture file held in memory and describe its packets.  The crate \<open>pcap_file\<close> is
  the record \<open>parser_lib\<close>, and what is used of it is the locale \<open>pcap_parser_laws\<close>: a record takes at least one byte.
  The description is the list of the values that are printed; theory \<open>Dump_Text\<close> renders it.  The counter, an \<open>i32\<close>, is a natural number: a file of
  \<open>2^31\<close> records, of at least 16 bytes each, does not fit the memory of a wasm module.
\<close>

record ('parser, 'header) parser_lib =
  ps_new :: "bytes \<Rightarrow> string + bytes \<times> 'parser"
  ps_header :: "'parser \<Rightarrow> 'header"
  ps_datalink :: "'header \<Rightarrow> DataLink"
  ps_next_packet :: "'parser \<Rightarrow> bytes \<Rightarrow> string + bytes \<times> PcapPacket"

datatype dump_error =
    InvalidHeader string
  | UnreadablePacket nat string
  | UndecodablePacket nat PacketError

datatype ('header, 'c) dump_line =
    HeaderLine 'header
  | PacketLine nat nat nat u32 "'c Packet"
  | TrailingLine nat
  | BlankLine
  | CountLine nat

section \<open>The program\<close>

definition dump_parse_packet ::
    "'c env \<Rightarrow> 'c PacketParser \<Rightarrow> DataLink \<Rightarrow> bytes \<Rightarrow> (PacketError, bytes \<times> 'c Packet) outcome option" where
  "dump_parse_packet env parser datalink input =
     (if datalink = ETHERNET then parse_packet env (Ether_t env) parser input
      else parse_packet env (Raw_t env) parser input)"

text \<open>\<open>None\<close> is a loop that does not end.\<close>

partial_function (option) dump_loop ::
    "('parser, 'header) parser_lib \<Rightarrow> 'c env \<Rightarrow> 'parser \<Rightarrow> bytes \<Rightarrow> nat \<Rightarrow> ('header, 'c) dump_line list \<Rightarrow>
      (dump_error, ('header, 'c) dump_line list) outcome option" where
  "dump_loop lib env pcap_parser remaining_input packet_count lines =
     (if remaining_input = [] then Some (Ok (lines @ [CountLine packet_count]))
      else (case ps_next_packet lib pcap_parser remaining_input of
          Inl e \<Rightarrow> Some (Err (UnreadablePacket (packet_count + 1) e))
        | Inr (rest, cap) \<Rightarrow>
           (case of_run (dump_parse_packet env (PacketParser_new env) (ps_datalink lib (ps_header lib pcap_parser))
               (cap_data cap)) of
              Ok (unparsed, packet) \<Rightarrow>
                dump_loop lib env pcap_parser rest (packet_count + 1)
                  (lines @ [PacketLine (packet_count + 1) (cap_timestamp cap) (length (cap_data cap))
                     (cap_orig_len cap) packet] @
                   (if unparsed \<noteq> [] then [TrailingLine (length unparsed)] else []) @ [BlankLine])
            | Err e \<Rightarrow> Some (Err (UndecodablePacket (packet_count + 1) e))
            | Panic m \<Rightarrow> Some (Panic m)
            | Diverge \<Rightarrow> None)))"

definition read_packets_debug ::
    "('parser, 'header) parser_lib \<Rightarrow> 'c env \<Rightarrow> bytes \<Rightarrow> (dump_error, ('header, 'c) dump_line list) outcome option" where
  "read_packets_debug lib env input =
     (case ps_new lib input of
        Inl e \<Rightarrow> Some (Err (InvalidHeader e))
      | Inr (remaining_input, pcap_parser) \<Rightarrow>
          dump_loop lib env pcap_parser remaining_input 0 [HeaderLine (ps_header lib pcap_parser)])"

section \<open>What is used of the library\<close>

locale pcap_parser_laws =
  fixes lib :: "('parser, 'header) parser_lib"
  assumes next_shorter: "ps_next_packet lib pp input = Inr (rest, cap) \<Longrightarrow> length rest < length input"

text \<open>The records read from a position, and the position after them.\<close>

inductive captured :: "('parser, 'header) parser_lib \<Rightarrow> 'parser \<Rightarrow> bytes \<Rightarrow> PcapPacket list \<Rightarrow> bytes \<Rightarrow> bool" for lib pp where
  no_record: "captured lib pp input [] input"
| one_record: "input \<noteq> [] \<Longrightarrow> ps_next_packet lib pp input = Inr (rest, cap) \<Longrightarrow> captured lib pp rest caps end_input \<Longrightarrow>
    captured lib pp input (cap # caps) end_input"

text \<open>The lines of the records, each with its packet.\<close>

fun packet_lines :: "nat \<Rightarrow> PcapPacket list \<Rightarrow> 'c Packet list \<Rightarrow> ('header, 'c) dump_line list" where
  "packet_lines n (cap # caps) (p # ps) =
     PacketLine n (cap_timestamp cap) (length (cap_data cap)) (cap_orig_len cap) p # BlankLine # packet_lines (n + 1) caps ps"
| "packet_lines n _ _ = []"

section \<open>Decoding\<close>

text \<open>Nothing is left over: a record is decoded as a whole or not at all.\<close>

lemma dump_parse_lossless:
  assumes env: "packet_env env"
  shows "\<exists>r. dump_parse_packet env (PacketParser_new env) dl input = Some r \<and> (case r of
     Ok (rest, p) \<Rightarrow> rest = [] \<and> Packet_to_bytes env p = Ok input | Err e \<Rightarrow> True | _ \<Rightarrow> False)"
proof (cases "dl = ETHERNET")
  case True
  from frame_parse_lossless [OF env, of input] obtain r where
      "parse_packet env (Ether_t env) (PacketParser_new env) input = Some r"
      "case r of Ok (rest, pkt) \<Rightarrow> rest = [] \<and> Packet_to_bytes env pkt = Ok input \<and>
         (\<exists>e ls. pkt_layers pkt = LEther e # ls \<and> length ls \<le> 3 \<and> linked env (LEther e # ls))
       | Err e \<Rightarrow> True | _ \<Rightarrow> False"
    by blast
  with True show ?thesis
    by (cases r) (auto simp: dump_parse_packet_def)
next
  case False
  note deku = packet_env.env_deku [OF env]
  have "dump_parse_packet env (PacketParser_new env) dl input
      = Some (Ok ([], Packet_from_layers [LRaw \<lparr>raw_data = input, raw_bit_offset = 0\<rparr>]))"
    using False by (simp add: dump_parse_packet_def parse_packet_def Raw_t_def deku_laws.Raw_parse_eq [OF deku]
        parse_loop.simps [of env _ "[]"])
  then show ?thesis
    by (simp add: Packet_to_bytes_def Packet_from_layers_def layers_to_bytes_eq deku_laws.Raw_to_bytes_eq [OF deku])
qed

section \<open>The result\<close>

text \<open>A record that decodes, with its packet: the parser consumes its data, which the packet serialises to.\<close>

definition decoded :: "('parser, 'header) parser_lib \<Rightarrow> 'c env \<Rightarrow> 'parser \<Rightarrow> PcapPacket \<Rightarrow> 'c Packet \<Rightarrow> bool" where
  "decoded lib env pp cap p \<longleftrightarrow>
     dump_parse_packet env (PacketParser_new env) (ps_datalink lib (ps_header lib pp)) (cap_data cap) = Some (Ok ([], p)) \<and>
     Packet_to_bytes env p = Ok (cap_data cap)"

text \<open>
  What the loop returns, started before \<open>input\<close> after \<open>n\<close> packets with some lines printed.  Whatever it
  returns, all the records before the end or the error decode.
\<close>

definition dump_result ::
    "('parser, 'header) parser_lib \<Rightarrow> 'c env \<Rightarrow> 'parser \<Rightarrow> bytes \<Rightarrow> nat \<Rightarrow> ('header, 'c) dump_line list \<Rightarrow>
      (dump_error, ('header, 'c) dump_line list) outcome \<Rightarrow> bool" where
  "dump_result lib env pp input n lines r \<longleftrightarrow> (case r of
     Ok out \<Rightarrow> \<exists>caps ps. captured lib pp input caps [] \<and>
       list_all2 (decoded lib env pp) caps ps \<and>
       out = lines @ packet_lines (n + 1) caps ps @ [CountLine (n + length caps)]
   | Err (UnreadablePacket k e) \<Rightarrow> \<exists>caps ps rest. captured lib pp input caps rest \<and>
       list_all2 (decoded lib env pp) caps ps \<and> rest \<noteq> [] \<and> k = n + length caps + 1 \<and>
       ps_next_packet lib pp rest = Inl e
   | Err (UndecodablePacket k e) \<Rightarrow> \<exists>caps ps cap rest. captured lib pp input (caps @ [cap]) rest \<and>
       list_all2 (decoded lib env pp) caps ps \<and> k = n + length caps + 1 \<and>
       dump_parse_packet env (PacketParser_new env) (ps_datalink lib (ps_header lib pp)) (cap_data cap) = Some (Err e)
   | _ \<Rightarrow> False)"

lemma dump_result_Ok:
  assumes "captured lib pp input caps []" and "list_all2 (decoded lib env pp) caps ps"
  shows "dump_result lib env pp input n lines (Ok (lines @ packet_lines (n + 1) caps ps @ [CountLine (n + length caps)]))"
  unfolding dump_result_def outcome.case using assms by blast

lemma dump_result_unreadable:
  assumes "captured lib pp input caps rest" and "list_all2 (decoded lib env pp) caps ps" and "rest \<noteq> []" and "ps_next_packet lib pp rest = Inl e"
  shows "dump_result lib env pp input n lines (Err (UnreadablePacket (n + length caps + 1) e))"
  unfolding dump_result_def outcome.case dump_error.case using assms by blast

lemma dump_result_undecodable:
  assumes "captured lib pp input (caps @ [cap]) rest" and "list_all2 (decoded lib env pp) caps ps"
    and "dump_parse_packet env (PacketParser_new env) (ps_datalink lib (ps_header lib pp)) (cap_data cap) = Some (Err e)"
  shows "dump_result lib env pp input n lines (Err (UndecodablePacket (n + length caps + 1) e))"
  unfolding dump_result_def outcome.case dump_error.case using assms by blast

lemma dump_result_step:
  assumes "input \<noteq> []" and "ps_next_packet lib pp input = Inr (rest, cap)" and "decoded lib env pp cap p"
    and result: "dump_result lib env pp rest (n + 1)
      (lines @ [PacketLine (n + 1) (cap_timestamp cap) (length (cap_data cap)) (cap_orig_len cap) p, BlankLine]) r"
  shows "dump_result lib env pp input n lines r"
proof -
  note step = one_record [OF assms(1,2)]
  show ?thesis
  proof (cases r)
    case (Ok out)
    with result obtain caps ps where "captured lib pp rest caps []" "list_all2 (decoded lib env pp) caps ps"
        "out = lines @ [PacketLine (n + 1) (cap_timestamp cap) (length (cap_data cap)) (cap_orig_len cap) p, BlankLine] @
          packet_lines (n + 1 + 1) caps ps @ [CountLine (n + 1 + length caps)]"
      by (auto simp: dump_result_def)
    with step assms(3) have "captured lib pp input (cap # caps) []" "list_all2 (decoded lib env pp) (cap # caps) (p # ps)"
        "r = Ok (lines @ packet_lines (n + 1) (cap # caps) (p # ps) @ [CountLine (n + length (cap # caps))])"
      using Ok by simp_all
    then show ?thesis using dump_result_Ok [of lib pp input "cap # caps" env "p # ps" n lines] by simp
  next
    case (Err e)
    show ?thesis
    proof (cases e)
      case (UnreadablePacket k m)
      with result Err obtain caps ps end_input where "captured lib pp rest caps end_input"
          "list_all2 (decoded lib env pp) caps ps" "end_input \<noteq> []"
          "k = n + 1 + length caps + 1" "ps_next_packet lib pp end_input = Inl m"
        by (auto simp: dump_result_def)
      with dump_result_unreadable [of lib pp input "cap # caps" end_input env "p # ps" m n lines] step assms(3) Err
        UnreadablePacket
      show ?thesis by simp
    next
      case (UndecodablePacket k m)
      let ?dl = "ps_datalink lib (ps_header lib pp)"
      from UndecodablePacket result Err obtain caps ps c end_input where "captured lib pp rest (caps @ [c]) end_input"
          "list_all2 (decoded lib env pp) caps ps" "k = n + 1 + length caps + 1"
          "dump_parse_packet env (PacketParser_new env) ?dl (cap_data c) = Some (Err m)"
        by (auto simp: dump_result_def)
      with dump_result_undecodable [of lib pp input "cap # caps" c end_input env "p # ps" m n lines] step assms(3) Err
        UndecodablePacket
      show ?thesis by simp
    qed (use result Err in \<open>simp add: dump_result_def\<close>)
  qed (use result in \<open>simp_all add: dump_result_def\<close>)
qed

context pcap_parser_laws
begin

lemma dump_loop_result:
  assumes env: "packet_env env"
  shows "\<exists>r. dump_loop lib env pp input n lines = Some r \<and> dump_result lib env pp input n lines r"
proof (induction "length input" arbitrary: input n lines rule: less_induct)
  case less
  note unroll = dump_loop.simps [of lib env pp input n lines]
  consider (finished) "input = []"
    | (unreadable) e where "input \<noteq> []" "ps_next_packet lib pp input = Inl e"
    | (readable) rest cap where "input \<noteq> []" "ps_next_packet lib pp input = Inr (rest, cap)"
    by (cases "ps_next_packet lib pp input") auto
  then show ?case
  proof cases
    case finished
    with dump_result_Ok [OF no_record [of lib pp "[]"] list.rel_intros(1), of env n lines] unroll
    show ?thesis by simp
  next
    case unreadable
    with dump_result_unreadable [OF no_record list.rel_intros(1) unreadable, of env n lines] unroll show ?thesis by simp
  next
    case readable
    let ?dl = "ps_datalink lib (ps_header lib pp)"
    from dump_parse_lossless [OF env, of ?dl "cap_data cap"] obtain res where
        res: "dump_parse_packet env (PacketParser_new env) ?dl (cap_data cap) = Some res"
        and sound: "case res of Ok (rest, p) \<Rightarrow> rest = [] \<and> Packet_to_bytes env p = Ok (cap_data cap) | Err e \<Rightarrow> True | _ \<Rightarrow> False"
      by blast
    show ?thesis
    proof (cases res)
      case (Ok u)
      then obtain p where p: "res = Ok ([], p)" "Packet_to_bytes env p = Ok (cap_data cap)"
        using sound by (cases u) auto
      then have dec: "decoded lib env pp cap p" using res by (simp add: decoded_def)
      let ?lines = "lines @ [PacketLine (n + 1) (cap_timestamp cap) (length (cap_data cap)) (cap_orig_len cap) p, BlankLine]"
      have "dump_loop lib env pp input n lines = dump_loop lib env pp rest (n + 1) ?lines"
        using unroll readable res p(1) by simp
      with less [OF next_shorter [OF readable(2)], of "n + 1" ?lines] dump_result_step [OF readable dec] show ?thesis
        by metis
    next
      case (Err e)
      then have "dump_loop lib env pp input n lines = Some (Err (UndecodablePacket (n + 1) e))"
        using unroll readable res by simp
      moreover have "captured lib pp input ([] @ [cap]) rest"
        using one_record [OF readable no_record] by simp
      from dump_result_undecodable [OF this list.rel_intros(1), of env e n lines] res Err
      have "dump_result lib env pp input n lines (Err (UndecodablePacket (n + 1) e))" by simp
      ultimately show ?thesis by blast
    qed (use sound in simp_all)
  qed
qed

end

text \<open>Captures in memory: each record is a length byte, the data, and the link type is Ethernet.\<close>

definition mem_parser :: "(unit, unit) parser_lib" where
  "mem_parser = \<lparr>ps_new = (\<lambda>input. if input = [] then Inl ''empty'' else Inr (tl input, ())), ps_header = (\<lambda>_. ()),
     ps_datalink = (\<lambda>_. ETHERNET),
     ps_next_packet = (\<lambda>_ input. case input of [] \<Rightarrow> Inl ''incomplete''
       | n # bs \<Rightarrow> if length bs < unat n then Inl ''incomplete''
           else Inr (drop (unat n) bs, \<lparr>cap_timestamp = 0, cap_orig_len = ucast n, cap_data = take (unat n) bs\<rparr>))\<rparr>"

interpretation mem_dump: pcap_parser_laws mem_parser
  by unfold_locales (auto simp: mem_parser_def split: list.splits if_splits)

section \<open>Properties\<close>

text \<open>
  (C20) Describing a capture in memory ends, without a panic, for every input, when each record takes at least one byte.
  A description starts with the header, has one entry per record with a packet that serialises to exactly the
  record's data, so that the line for trailing bytes is never printed, and ends with the number of records.  An
  error names the first record, counted from one, that cannot be read or does not decode: all records before
  it decode, and the error is the one of reading or parsing it.
\<close>

theorem read_packets_debug_result:
  assumes "packet_env env" and "pcap_parser_laws lib"
  shows "\<exists>r. read_packets_debug lib env input = Some r \<and> (case ps_new lib input of
     Inl e \<Rightarrow> r = Err (InvalidHeader e)
   | Inr (rest, pp) \<Rightarrow> (case r of
       Ok out \<Rightarrow> \<exists>caps ps. captured lib pp rest caps [] \<and>
         list_all2 (decoded lib env pp) caps ps \<and>
         out = HeaderLine (ps_header lib pp) # packet_lines 1 caps ps @ [CountLine (length caps)]
     | Err (UnreadablePacket k e) \<Rightarrow> \<exists>caps ps rest'. captured lib pp rest caps rest' \<and>
         list_all2 (decoded lib env pp) caps ps \<and> rest' \<noteq> [] \<and> k = length caps + 1 \<and>
         ps_next_packet lib pp rest' = Inl e
     | Err (UndecodablePacket k e) \<Rightarrow> \<exists>caps ps cap rest'. captured lib pp rest (caps @ [cap]) rest' \<and>
         list_all2 (decoded lib env pp) caps ps \<and> k = length caps + 1 \<and>
         dump_parse_packet env (PacketParser_new env) (ps_datalink lib (ps_header lib pp)) (cap_data cap) = Some (Err e)
     | _ \<Rightarrow> False))"
proof (cases "ps_new lib input")
  case (Inr q)
  obtain rest pp where "q = (rest, pp)" by (cases q)
  moreover from pcap_parser_laws.dump_loop_result [OF assms(2,1), of pp rest 0 "[HeaderLine (ps_header lib pp)]"]
  obtain r where "dump_loop lib env pp rest 0 [HeaderLine (ps_header lib pp)] = Some r"
      "dump_result lib env pp rest 0 [HeaderLine (ps_header lib pp)] r"
    by blast
  ultimately show ?thesis
    using Inr by (intro exI [where x = r], cases r)
      (simp_all add: read_packets_debug_def dump_result_def split: dump_error.splits)
qed (simp add: read_packets_debug_def)

theorem read_packets_debug_result_witness:
  "\<exists>b p. read_packets_debug mem_parser dev_env (0 # 14 # b)
      = Some (Ok [HeaderLine (), PacketLine 1 0 14 14 p, BlankLine, CountLine 1]) \<and> Packet_to_bytes dev_env p = Ok b"
proof -
  obtain b where b: "Packet_to_bytes dev_env ether_packet = Ok b" "length b = 14" using ether_packet_bytes by blast
  have dec: "parse_packet dev_env (Ether_t dev_env) (PacketParser_new dev_env) b = Some (Ok ([], ether_packet))"
    using frame_wf_reparse [OF dev_packets.packet_env_axioms ether_packet_wf] b(1) by auto
  have "read_packets_debug mem_parser dev_env (0 # 14 # b)
      = Some (Ok [HeaderLine (), PacketLine 1 0 14 14 ether_packet, BlankLine, CountLine 1])"
    using b(2) by (simp add: read_packets_debug_def mem_parser_def dump_loop.simps dump_parse_packet_def dec)
  with b(1) read_packets_debug_result [OF dev_packets.packet_env_axioms mem_dump.pcap_parser_laws_axioms, of "0 # 14 # b"]
  show ?thesis by blast
qed

end
