(* ===== verification/Dump_Text.thy ===== *)
theory Dump_Text
  imports Capture_Dump Assertions "HOL-Library.Sublist"
begin

text \<open>
  The text of \<open>read_packets_debug\<close> and \<open>read_packets\<close> of \<open>example_wasm/src/lib.rs\<close>, and the tests of the example.  How the
  derived \<open>Debug\<close> of the header, a time stamp, a packet and an error looks is a parameter, and so is \<open>JsValue::from_str\<close>.
  The panic hook of JavaScript is not modelled.
\<close>

record ('header, 'c) debug_fmt =
  fmt_header :: "'header \<Rightarrow> string"
  fmt_timestamp :: "nat \<Rightarrow> string"
  fmt_packet :: "'c Packet \<Rightarrow> string"
  fmt_error :: "PacketError \<Rightarrow> string"

section \<open>The program\<close>

definition newline :: string where
  "newline = [CHR 0x0A]"

fun line_text :: "('header, 'c) debug_fmt \<Rightarrow> ('header, 'c) dump_line \<Rightarrow> string" where
  "line_text fmt (HeaderLine header) = ''PCAP header:'' @ newline @ fmt_header fmt header @ newline @ newline"
| "line_text fmt (PacketLine packet_count timestamp captured_len orig_len packet) =
     ''Packet '' @ show_nat packet_count @ '' (timestamp: '' @ fmt_timestamp fmt timestamp @ '', captured: '' @
     show_nat captured_len @ '' bytes, original: '' @ show_nat (unat orig_len) @ '' bytes):'' @ newline @
     fmt_packet fmt packet @ newline"
| "line_text fmt (TrailingLine n) = ''Unparsed trailing bytes: '' @ show_nat n @ newline"
| "line_text fmt BlankLine = newline"
| "line_text fmt (CountLine packet_count) = ''Parsed '' @ show_nat packet_count @ '' packet(s).'' @ newline"

fun error_text :: "('header, 'c) debug_fmt \<Rightarrow> dump_error \<Rightarrow> string" where
  "error_text fmt (InvalidHeader e) = ''Invalid PCAP header: '' @ e"
| "error_text fmt (UnreadablePacket n e) = ''Could not read packet '' @ show_nat n @ '': '' @ e"
| "error_text fmt (UndecodablePacket n e) = ''Could not decode packet '' @ show_nat n @ '': '' @ fmt_error fmt e"

definition read_packets_text ::
    "('header, 'c) debug_fmt \<Rightarrow> ('parser, 'header) parser_lib \<Rightarrow> 'c env \<Rightarrow> bytes \<Rightarrow> (string, string) outcome option" where
  "read_packets_text fmt lib env input =
     map_option (\<lambda>r. omap (\<lambda>lines. concat (map (line_text fmt) lines)) (map_err (error_text fmt) r))
       (read_packets_debug lib env input)"

definition read_packets ::
    "(string \<Rightarrow> 'js) \<Rightarrow> ('header, 'c) debug_fmt \<Rightarrow> ('parser, 'header) parser_lib \<Rightarrow> 'c env \<Rightarrow> bytes \<Rightarrow>
      ('js, string) outcome option" where
  "read_packets from_str fmt lib env input = map_option (map_err from_str) (read_packets_text fmt lib env input)"

section \<open>The tests of the example\<close>

definition formats_each_packet_as_debug_output ::
    "('header, 'c) debug_fmt \<Rightarrow> ('parser, 'header) parser_lib \<Rightarrow> 'c env \<Rightarrow> bytes \<Rightarrow> (unit, unit) outcome" where
  "formats_each_packet_as_debug_output fmt lib env capture =
     obind (unwrap (of_run (read_packets_text fmt lib env capture))) (\<lambda>output.
     obind (assert_that (sublist ''Packet 1'' output)) (\<lambda>_.
     obind (assert_that (sublist ''Ether'' output)) (\<lambda>_.
     assert_that (sublist ''Parsed 14 packet(s).'' output))))"

definition test_read_packets ::
    "(string \<Rightarrow> 'js) \<Rightarrow> ('header, 'c) debug_fmt \<Rightarrow> ('parser, 'header) parser_lib \<Rightarrow> 'c env \<Rightarrow> bytes \<Rightarrow> (unit, unit) outcome" where
  "test_read_packets from_str fmt lib env capture =
     obind (unwrap (of_run (read_packets from_str fmt lib env capture))) (\<lambda>output.
     obind (assert_that (sublist ''Packet 1'' output)) (\<lambda>_.
     assert_that (sublist ''Parsed 14 packet(s).'' output)))"

section \<open>The text\<close>

lemma sublist_concat: "xs \<in> set xss \<Longrightarrow> sublist xs (concat xss)"
  by (auto simp: in_set_conv_decomp)

lemma sublist_prepend: "sublist xs ys \<Longrightarrow> sublist xs (zs @ ys)"
  by (metis sublist_append)

lemma packet_text: "sublist (fmt_packet fmt p) (line_text fmt (PacketLine n ts len orig p))"
  unfolding line_text.simps by (intro sublist_append_rightI sublist_prepend)

lemma sublist_line:
  assumes "line \<in> set lines" and "sublist s (line_text fmt line)"
  shows "sublist s (concat (map (line_text fmt) lines))"
  using assms sublist_concat [of "line_text fmt line" "map (line_text fmt) lines"] sublist_order.order.trans by fastforce

text \<open>Reading the records of a capture is deterministic.\<close>

inductive_cases captured_NilE: "captured lib pp input [] end_input"
inductive_cases captured_ConsE: "captured lib pp input (cap # caps) end_input"

lemma captured_unique:
  assumes "captured lib pp input caps []" and "captured lib pp input caps' []"
  shows "caps = caps'"
  using assms
proof (induction caps arbitrary: input caps')
  case Nil
  then show ?case by (cases caps') (auto elim: captured_NilE captured_ConsE)
next
  case (Cons cap caps)
  then show ?case by (cases caps') (fastforce elim: captured_NilE captured_ConsE)+
qed

text \<open>Every packet that is printed comes from the parser.\<close>

context pcap_parser_laws
begin

lemma printed_parsed:
  assumes "dump_loop lib env pp input n lines = Some (Ok out)" and "PacketLine k ts len orig p \<in> set out"
  shows "PacketLine k ts len orig p \<in> set lines \<or> (\<exists>input rest. dump_parse_packet env (PacketParser_new env)
    (ps_datalink lib (ps_header lib pp)) input = Some (Ok (rest, p)))"
  using assms
proof (induction "length input" arbitrary: input n lines rule: less_induct)
  case less
  show ?case
  proof (cases "input = []")
    case True
    with less.prems show ?thesis by (subst (asm) dump_loop.simps) auto
  next
    case False
    let ?parsed = "\<lambda>cap. dump_parse_packet env (PacketParser_new env) (ps_datalink lib (ps_header lib pp)) (cap_data cap)"
    from False less.prems(1) obtain rest cap unparsed packet where
        next_packet: "ps_next_packet lib pp input = Inr (rest, cap)" and parsed: "of_run (?parsed cap) = Ok (unparsed, packet)"
        and loop: "dump_loop lib env pp rest (n + 1) (lines @ [PacketLine (n + 1) (cap_timestamp cap) (length (cap_data cap))
          (cap_orig_len cap) packet] @ (if unparsed \<noteq> [] then [TrailingLine (length unparsed)] else []) @ [BlankLine])
          = Some (Ok out)"
      by (subst (asm) dump_loop.simps) (auto split: sum.splits outcome.splits prod.splits)
    from parsed have "?parsed cap = Some (Ok (unparsed, packet))"
      by (cases "?parsed cap") simp_all
    with less.hyps [OF next_shorter [OF next_packet] loop less.prems(2)] show ?thesis
      by (auto split: if_splits)
  qed
qed

lemma description:
  assumes env: "packet_env env" and capture: "ps_new lib input = Inr (rest, pp)" "ps_datalink lib (ps_header lib pp) = ETHERNET"
    and out: "read_packets_debug lib env input = Some (Ok out)" and caps: "captured lib pp rest caps []" "caps \<noteq> []"
  obtains ts len orig p e ls where "PacketLine 1 ts len orig p \<in> set out" "pkt_layers p = LEther e # ls"
    "CountLine (length caps) \<in> set out"
proof -
  have loop: "dump_loop lib env pp rest 0 [HeaderLine (ps_header lib pp)] = Some (Ok out)"
    using out capture(1) by (simp add: read_packets_debug_def)
  with dump_loop_result [OF env, of pp rest 0 "[HeaderLine (ps_header lib pp)]"] obtain caps' ps where
      "captured lib pp rest caps' []" "list_all2 (decoded lib env pp) caps' ps"
      "out = [HeaderLine (ps_header lib pp)] @ packet_lines 1 caps' ps @ [CountLine (length caps')]"
    by (auto simp: dump_result_def)
  moreover from this(1) have "caps' = caps"
    using captured_unique caps(1) by metis
  ultimately obtain cap cs p ps' where first: "caps = cap # cs" "ps = p # ps'"
      "out = [HeaderLine (ps_header lib pp)] @ packet_lines 1 caps ps @ [CountLine (length caps)]"
    using caps(2) by (cases caps; cases ps) auto
  then have line: "PacketLine 1 (cap_timestamp cap) (length (cap_data cap)) (cap_orig_len cap) p \<in> set out"
    by simp
  from printed_parsed [OF loop line] obtain input' rest' where
      "parse_packet env (Ether_t env) (PacketParser_new env) input' = Some (Ok (rest', p))"
    using capture(2) by (auto simp: dump_parse_packet_def)
  with frame_parse_lossless [OF env, of input'] obtain e ls where "pkt_layers p = LEther e # ls" by auto
  with line first(3) that show thesis by auto
qed

text \<open>
  The tests of the example pass on a capture of fourteen Ethernet frames that decode, when the rendering of a packet
  names its Ethernet layer.
\<close>

lemma dump_tests_pass:
  assumes env: "packet_env env" and capture: "ps_new lib input = Inr (rest, pp)" "ps_datalink lib (ps_header lib pp) = ETHERNET"
    and out: "read_packets_debug lib env input = Some (Ok out)" and caps: "captured lib pp rest caps []" "length caps = 14"
    and fmt: "\<And>p e ls. pkt_layers p = LEther e # ls \<Longrightarrow> sublist ''Ether'' (fmt_packet fmt p)"
  shows "formats_each_packet_as_debug_output fmt lib env input = Ok ()"
    "test_read_packets from_str fmt lib env input = Ok ()"
proof -
  from caps(2) have "caps \<noteq> []" by auto
  then obtain ts len orig p e ls where line: "PacketLine 1 ts len orig p \<in> set out" "CountLine 14 \<in> set out"
      and p: "pkt_layers p = LEther e # ls"
    using description [OF env capture out caps(1)] caps(2) by metis
  have "show_nat 1 = ''1''" "show_nat 14 = ''14''"
    by (simp_all add: show_nat.simps char_of_def bit_0)
  then have texts: "line_text fmt (PacketLine 1 ts len orig p) = ''Packet 1'' @ drop 8 (line_text fmt (PacketLine 1 ts len orig p))"
      "line_text fmt (CountLine 14) = ''Parsed 14 packet(s).'' @ newline"
    by simp_all
  have "sublist ''Packet 1'' (line_text fmt (PacketLine 1 ts len orig p))"
    by (subst texts(1)) simp
  moreover have "sublist ''Parsed 14 packet(s).'' (line_text fmt (CountLine 14))"
    by (subst texts(2)) simp
  moreover have "sublist ''Ether'' (line_text fmt (PacketLine 1 ts len orig p))"
    using fmt [OF p] packet_text sublist_order.order.trans by blast
  ultimately have "sublist ''Packet 1'' (concat (map (line_text fmt) out))" "sublist ''Ether'' (concat (map (line_text fmt) out))"
      "sublist ''Parsed 14 packet(s).'' (concat (map (line_text fmt) out))"
    using sublist_line line by blast+
  then show "formats_each_packet_as_debug_output fmt lib env input = Ok ()"
      "test_read_packets from_str fmt lib env input = Ok ()"
    by (simp_all add: formats_each_packet_as_debug_output_def test_read_packets_def read_packets_def read_packets_text_def
        out assert_simps)
qed

end

end
