(* ===== verification/Packet_Loop.thy ===== *)
theory Packet_Loop
  imports Datalink
begin

text \<open>
  The loops of the examples over an interface: \<open>for packet in &mut reader { .. writer.write(..) .. }\<close>.  A live interface
  need not end, so a loop runs for a number of rounds.  \<open>packet_stream\<close> is what such a loop needs of
  the iterator, whatever interface is behind it; \<open>packet_server\<close> adds a writer that sends what it is given
  and a body that returns.
\<close>

section \<open>The loop\<close>

text \<open>The body gives the packet to write, if any, with the message of the \<open>expect\<close> of the \<open>write\<close>.\<close>

fun serve_loop ::
    "('s \<Rightarrow> 's \<times> (unit, 'c Packet option) outcome) \<Rightarrow> ('w, 'c, 'io) packet_write \<Rightarrow>
      ('c Packet \<Rightarrow> (unit, ('c Packet \<times> string) option) outcome) \<Rightarrow> nat \<Rightarrow> 's \<Rightarrow> 'w \<Rightarrow> ('s \<times> 'w) \<times> (unit, unit) outcome" where
  "serve_loop nxt wr handle 0 reader writer = ((reader, writer), Ok ())"
| "serve_loop nxt wr handle (Suc n) reader writer =
     (case nxt reader of (reader, res) \<Rightarrow> try_in (reader, writer) res (\<lambda>item.
      (case item of
         None \<Rightarrow> ((reader, writer), Ok ())
       | Some packet \<Rightarrow> try_in (reader, writer) (handle packet) (\<lambda>answer.
           (case answer of
              None \<Rightarrow> serve_loop nxt wr handle n reader writer
            | Some (reply, msg) \<Rightarrow> (case wr writer reply of (writer, sent) \<Rightarrow>
                try_in (reader, writer) (expect_ok msg sent) (\<lambda>_. serve_loop nxt wr handle n reader writer)))))))"

text \<open>The packets a body answers with.\<close>

definition answers :: "('p \<Rightarrow> ('e, ('q \<times> string) option) outcome) \<Rightarrow> 'p list \<Rightarrow> 'q list" where
  "answers handle ps = List.map_filter (\<lambda>p. case handle p of Ok (Some (reply, msg)) \<Rightarrow> Some reply | _ \<Rightarrow> None) ps"

lemma answers_simps [simp]:
  "answers handle [] = []"
  "answers handle (p # ps) = (case handle p of Ok (Some (reply, msg)) \<Rightarrow> reply # answers handle ps | _ \<Rightarrow> answers handle ps)"
  by (auto simp: answers_def map_filter_simps split: outcome.splits option.splits prod.splits)

section \<open>Iterators\<close>

locale packet_stream =
  fixes nxt :: "'s \<Rightarrow> 's \<times> (unit, 'c Packet option) outcome" and coming :: "'s \<Rightarrow> ('e, 'c Packet) outcome list"
  assumes next_Ok: "coming s = Ok p # xs \<Longrightarrow> \<exists>s'. nxt s = (s', Ok (Some p)) \<and> coming s' = xs"
begin

lemma collect_stream:
  assumes "coming s = map Ok ps @ xs"
  shows "\<exists>s'. collect_packets nxt (length ps) s = (s', Ok ps) \<and> coming s' = xs"
  using assms
proof (induction ps arbitrary: s)
  case (Cons p ps)
  then obtain s1 where s1: "nxt s = (s1, Ok (Some p))" "coming s1 = map Ok ps @ xs"
    using next_Ok [of s p] by auto
  from Cons.IH [OF this(2)] s1(1) show ?case by auto
qed simp

end

context packet_source
begin

lemma reader_stream: "packet_stream (InterfaceReader_next rd) (\<lambda>s. pending (ir_reader s))"
proof
  fix s :: "'r InterfaceReader" and p and xs
  assume "pending (ir_reader s) = Ok p # xs"
  from read_next [OF this] show "\<exists>s'. InterfaceReader_next rd s = (s', Ok (Some p)) \<and> pending (ir_reader s') = xs"
    by (cases "rd (ir_reader s)") (auto simp: InterfaceReader_next_def)
qed

lemma ref_stream: "packet_stream (InterfaceReaderRef_next rd) (\<lambda>s. pending (rr_reader s))"
proof
  fix s :: "'r InterfaceReaderRef" and p and xs
  assume "pending (rr_reader s) = Ok p # xs"
  from read_next [OF this] show "\<exists>s'. InterfaceReaderRef_next rd s = (s', Ok (Some p)) \<and> pending (rr_reader s') = xs"
    by (cases "rd (rr_reader s)") (auto simp: InterfaceReaderRef_next_def)
qed

end

section \<open>Servers\<close>

locale packet_server = packet_stream nxt coming
  for nxt :: "'s \<Rightarrow> 's \<times> (unit, 'c Packet option) outcome" and coming :: "'s \<Rightarrow> ('e, 'c Packet) outcome list" +
  fixes wr :: "('w, 'c, 'io) packet_write" and env :: "'c env" and out :: "'w \<Rightarrow> bytes list"
    and handle :: "'c Packet \<Rightarrow> (unit, ('c Packet \<times> string) option) outcome"
  assumes sends: "Packet_to_bytes env p = Ok bs \<Longrightarrow> \<exists>w'. wr w p = (w', Ok ()) \<and> out w' = out w @ [bs]"
    and handles: "handle p = Ok None \<or> (\<exists>reply msg bs. handle p = Ok (Some (reply, msg)) \<and> Packet_to_bytes env reply = Ok bs)"
begin

text \<open>The loop puts out the bytes of the answers, in order, and nothing else.\<close>

lemma serve_stream:
  assumes "coming r = map Ok ps @ xs"
  shows "\<exists>r' w' datas. serve_loop nxt wr handle (length ps) r w = ((r', w'), Ok ()) \<and> coming r' = xs \<and>
    map (Packet_to_bytes env) (answers handle ps) = map Ok datas \<and> out w' = out w @ datas"
  using assms
proof (induction ps arbitrary: r w)
  case (Cons p ps)
  then obtain r1 where r1: "nxt r = (r1, Ok (Some p))" "coming r1 = map Ok ps @ xs"
    using next_Ok [of r p] by auto
  from handles [of p] show ?case
  proof
    assume "handle p = Ok None"
    with Cons.IH [OF r1(2), of w] r1 show ?thesis by simp
  next
    assume "\<exists>reply msg bs. handle p = Ok (Some (reply, msg)) \<and> Packet_to_bytes env reply = Ok bs"
    then obtain reply msg bs where answer: "handle p = Ok (Some (reply, msg))" "Packet_to_bytes env reply = Ok bs" by blast
    from sends [OF answer(2), of w] obtain v where v: "wr w reply = (v, Ok ())" "out v = out w @ [bs]" by blast
    from Cons.IH [OF r1(2), of v] obtain r' w' datas where
        "serve_loop nxt wr handle (length ps) r1 v = ((r', w'), Ok ())" "coming r' = xs"
        "map (Packet_to_bytes env) (answers handle ps) = map Ok datas" "out w' = out v @ datas"
      by blast
    with r1 v answer show ?thesis
      by (intro exI [where x = r'] exI [where x = w'] exI [where x = "bs # datas"]) simp
  qed
qed simp

end

section \<open>Any iterator\<close>

text \<open>
  Whatever the iterator and the writer do: a loop that ends without a panic has sent at most one frame per round, each
  the bytes of an answer to some packet, and nothing else.
\<close>

lemma serve_loop_step:
  assumes "serve_loop nxt wr handle (Suc n) r w = (rw, Ok ())"
  obtains (ended) "snd rw = w"
  | (ignored) r1 packet where "handle packet = Ok None" "serve_loop nxt wr handle n r1 w = (rw, Ok ())"
  | (answered) r1 packet reply msg w1 where "handle packet = Ok (Some (reply, msg))" "wr w reply = (w1, Ok ())"
      "serve_loop nxt wr handle n r1 w1 = (rw, Ok ())"
proof -
  obtain r1 res where r1: "nxt r = (r1, res)" by fastforce
  with assms obtain item where item: "res = Ok item" by (cases res) auto
  show thesis
  proof (cases item)
    case None
    with assms r1 item ended show thesis by auto
  next
    case (Some packet)
    with assms r1 item obtain answer where answer: "handle packet = Ok answer" by (cases "handle packet") auto
    show thesis
    proof (cases answer)
      case None
      with assms r1 item Some answer ignored show thesis by auto
    next
      case reply: (Some a)
      obtain reply msg where a: "a = (reply, msg)" by (cases a)
      obtain w1 sent where w1: "wr w reply = (w1, sent)" by fastforce
      with assms r1 item Some answer reply a have "sent = Ok ()" by (cases sent) auto
      with assms r1 item Some answer reply a w1 answered show thesis by auto
    qed
  qed
qed

lemma serve_loop_sends_answers:
  assumes sink: "packet_sink (\<lambda>_ :: unit. wr) env out"
    and run: "serve_loop nxt wr handle n r w = ((r', w'), Ok ())"
  shows "\<exists>ps datas. length ps \<le> n \<and> map (Packet_to_bytes env) ps = map Ok datas \<and> out w' = out w @ datas \<and>
    list_all (\<lambda>p. \<exists>packet msg. handle packet = Ok (Some (p, msg))) ps"
  using run
proof (induction n arbitrary: r w)
  case 0
  then show ?case by auto
next
  case (Suc n)
  from Suc.prems show ?case
  proof (cases rule: serve_loop_step)
    case ended
    then show ?thesis by (intro exI [where x = "[]"]) simp
  next
    case (ignored r1 packet)
    from Suc.IH [OF ignored(2)] show ?thesis using le_SucI by blast
  next
    case (answered r1 packet reply msg w1)
    from packet_sink.write_Ok [OF sink answered(2)] obtain data where
        data: "Packet_to_bytes env reply = Ok data" "out w1 = out w @ [data]" by blast
    from Suc.IH [OF answered(3)] obtain ps datas where "length ps \<le> n" "map (Packet_to_bytes env) ps = map Ok datas"
        "out w' = out w1 @ datas"
        "list_all (\<lambda>p. \<exists>packet msg. handle packet = Ok (Some (p, msg))) ps"
      by blast
    with data answered(1) show ?thesis
      by (intro exI [where x = "reply # ps"] exI [where x = "data # datas"]) auto
  qed
qed

end
