(* ===== verification/Live_Capture.thy ===== *)
theory Live_Capture
  imports Pcap_File Packet_Loop
begin

text \<open>
  \<open>src/datalink/pnet.rs\<close> and \<open>src/datalink/pcap.rs\<close>: network interfaces.  The crate \<open>pnet\<close> is not part of
  the repository: it is the record \<open>pnet_lib\<close>.  What is used of it to relate sent and received packets is the
  locale \<open>pnet_laws\<close>: a successful \<open>send_to\<close> sends the frame, a failed one sends nothing, and \<open>next\<close> returns the
  frames that arrive, in order.
\<close>

record NetworkInterface =
  ni_name :: string
  ni_mac :: "MacAddress option"

datatype ('tx, 'rx) Channel = EthernetChannel 'tx 'rx | OtherChannel

record ('tx, 'rx, 'io) pnet_lib =
  pn_interfaces :: "NetworkInterface list"
  pn_channel :: "NetworkInterface \<Rightarrow> 'io + ('tx, 'rx) Channel"
  pn_next :: "'rx \<Rightarrow> 'rx \<times> ('io + bytes)"
  pn_send_to :: "'tx \<Rightarrow> bytes \<Rightarrow> NetworkInterface option \<Rightarrow> 'tx \<times> ('io + unit) option"

section \<open>The backend over libpnet\<close>

record ('c, 'rx) PnetReader =
  pnr_packet_parser :: "'c PacketParser"
  pnr_reader :: 'rx

record 'tx PnetWriter =
  pnw_writer :: 'tx

record ('c, 'rx, 'tx) Pnet =
  pnet_reader :: "('c, 'rx) PnetReader"
  pnet_writer :: "'tx PnetWriter"

definition Pnet_init_with_parser ::
    "('tx, 'rx, 'io) pnet_lib \<Rightarrow> string \<Rightarrow> 'c PacketParser \<Rightarrow>
      ('io DataLinkError, (('c, 'rx) PnetReader, 'tx PnetWriter) Interface) outcome" where
  "Pnet_init_with_parser lib interface_name packet_parser =
     (let interface_names_match = (\<lambda>iface. ni_name iface = interface_name);
          interfaces = pn_interfaces lib in
      obind (ok_or InterfaceNotFound (find interface_names_match interfaces)) (\<lambda>interface.
      obind (case pn_channel lib interface of
               Inr (EthernetChannel tx rx) \<Rightarrow> Ok (tx, rx)
             | Inr _ \<Rightarrow> Err UnhandledInterfaceType
             | Inl e \<Rightarrow> Err (IoError e)) (\<lambda>(tx, rx).
      Ok \<lparr>if_reader = \<lparr>pnr_packet_parser = packet_parser, pnr_reader = rx\<rparr>,
          if_writer = \<lparr>pnw_writer = tx\<rparr>,
          if_metadata = \<lparr>md_mac_address = ni_mac interface\<rparr>\<rparr>)))"

definition Pnet_init ::
    "('tx, 'rx, 'io) pnet_lib \<Rightarrow> 'c env \<Rightarrow> string \<Rightarrow>
      ('io DataLinkError, (('c, 'rx) PnetReader, 'tx PnetWriter) Interface) outcome" where
  "Pnet_init lib env interface_name = Pnet_init_with_parser lib interface_name (PacketParser_new env)"

definition PnetReader_read ::
    "('tx, 'rx, 'io) pnet_lib \<Rightarrow> 'c env \<Rightarrow> (('c, 'rx) PnetReader, 'c, 'io) packet_read" where
  "PnetReader_read lib env self =
     (case pn_next lib (pnr_reader self) of (rx, res) \<Rightarrow>
      let self = self\<lparr>pnr_reader := rx\<rparr> in
      (case res of
         Inr packet_bytes \<Rightarrow> (self, omap snd (map_err DataLinkError_from_packet
           (of_run (parse_packet env (Ether_t env) (pnr_packet_parser self) packet_bytes))))
       | Inl e \<Rightarrow> (self, Err (IoError e))))"

definition Pnet_read ::
    "('tx, 'rx, 'io) pnet_lib \<Rightarrow> 'c env \<Rightarrow> (('c, 'rx, 'tx) Pnet, 'c, 'io) packet_read" where
  "Pnet_read lib env self =
     (case PnetReader_read lib env (pnet_reader self) of (r, res) \<Rightarrow> (self\<lparr>pnet_reader := r\<rparr>, res))"

definition PnetWriter_write ::
    "('tx, 'rx, 'io) pnet_lib \<Rightarrow> 'c env \<Rightarrow> ('tx PnetWriter, 'c, 'io) packet_write" where
  "PnetWriter_write lib env self packet =
     try_in self (map_err DataLinkError_from_packet (Packet_to_bytes env packet)) (\<lambda>bytes.
     (case pn_send_to lib (pnw_writer self) bytes None of (tx, sent) \<Rightarrow>
      let self = self\<lparr>pnw_writer := tx\<rparr> in
      (case sent of
         Some res \<Rightarrow> (self, map_err DataLinkError_from_io (of_result res))
       | None \<Rightarrow> (self, Err BufferError))))"

definition Pnet_write ::
    "('tx, 'rx, 'io) pnet_lib \<Rightarrow> 'c env \<Rightarrow> (('c, 'rx, 'tx) Pnet, 'c, 'io) packet_write" where
  "Pnet_write lib env self packet =
     (case PnetWriter_write lib env (pnet_writer self) packet of (w, res) \<Rightarrow> (self\<lparr>pnet_writer := w\<rparr>, res))"

section \<open>The backend over libpcap\<close>

record ('c, 'rx) PcapReader =
  pcr_packet_parser :: "'c PacketParser"
  pcr_reader :: 'rx

record 'tx PcapWriter =
  pcw_writer :: 'tx

record ('c, 'rx, 'tx) Pcap =
  pcap_reader :: "('c, 'rx) PcapReader"
  pcap_writer :: "'tx PcapWriter"

definition Pcap_init_with_parser ::
    "('tx, 'rx, 'io) pnet_lib \<Rightarrow> string \<Rightarrow> 'c PacketParser \<Rightarrow>
      ('io DataLinkError, (('c, 'rx) PcapReader, 'tx PcapWriter) Interface) outcome" where
  "Pcap_init_with_parser lib interface_name packet_parser =
     (let interface_names_match = (\<lambda>iface. ni_name iface = interface_name);
          interfaces = pn_interfaces lib in
      obind (ok_or InterfaceNotFound (find interface_names_match interfaces)) (\<lambda>interface.
      obind (case pn_channel lib interface of
               Inr (EthernetChannel tx rx) \<Rightarrow> Ok (tx, rx)
             | Inr _ \<Rightarrow> Err UnhandledInterfaceType
             | Inl e \<Rightarrow> Err (IoError e)) (\<lambda>(tx, rx).
      Ok \<lparr>if_reader = \<lparr>pcr_packet_parser = packet_parser, pcr_reader = rx\<rparr>,
          if_writer = \<lparr>pcw_writer = tx\<rparr>,
          if_metadata = \<lparr>md_mac_address = ni_mac interface\<rparr>\<rparr>)))"

definition Pcap_init ::
    "('tx, 'rx, 'io) pnet_lib \<Rightarrow> 'c env \<Rightarrow> string \<Rightarrow>
      ('io DataLinkError, (('c, 'rx) PcapReader, 'tx PcapWriter) Interface) outcome" where
  "Pcap_init lib env interface_name = Pcap_init_with_parser lib interface_name (PacketParser_new env)"

text \<open>The read-only and the write-only interface.\<close>

definition Pcap_read_init_with_parser ::
    "('tx, 'rx, 'io) pnet_lib \<Rightarrow> string \<Rightarrow> 'c PacketParser \<Rightarrow>
      ('io DataLinkError, ('c, 'rx) PcapReader InterfaceReader) outcome" where
  "Pcap_read_init_with_parser lib name packet_parser =
     obind (omap Interface_into_split (Pcap_init_with_parser lib name packet_parser)) (\<lambda>(reader, writer). Ok reader)"

definition Pcap_read_init ::
    "('tx, 'rx, 'io) pnet_lib \<Rightarrow> 'c env \<Rightarrow> string \<Rightarrow>
      ('io DataLinkError, ('c, 'rx) PcapReader InterfaceReader) outcome" where
  "Pcap_read_init lib env name = Pcap_read_init_with_parser lib name (PacketParser_new env)"

definition Pcap_write_init ::
    "('tx, 'rx, 'io) pnet_lib \<Rightarrow> 'c env \<Rightarrow> string \<Rightarrow> ('io DataLinkError, 'tx PcapWriter InterfaceWriter) outcome" where
  "Pcap_write_init lib env name =
     obind (omap Interface_into_split (Pcap_init lib env name)) (\<lambda>(reader, writer). Ok writer)"

definition PcapReader_read ::
    "('tx, 'rx, 'io) pnet_lib \<Rightarrow> 'c env \<Rightarrow> (('c, 'rx) PcapReader, 'c, 'io) packet_read" where
  "PcapReader_read lib env self =
     (case pn_next lib (pcr_reader self) of (rx, res) \<Rightarrow>
      let self = self\<lparr>pcr_reader := rx\<rparr> in
      (case res of
         Inr packet_bytes \<Rightarrow> (self, omap snd (map_err DataLinkError_from_packet
           (of_run (parse_packet env (Ether_t env) (pcr_packet_parser self) packet_bytes))))
       | Inl e \<Rightarrow> (self, Err (IoError e))))"

definition Pcap_read ::
    "('tx, 'rx, 'io) pnet_lib \<Rightarrow> 'c env \<Rightarrow> (('c, 'rx, 'tx) Pcap, 'c, 'io) packet_read" where
  "Pcap_read lib env self =
     (case PcapReader_read lib env (pcap_reader self) of (r, res) \<Rightarrow> (self\<lparr>pcap_reader := r\<rparr>, res))"

definition PcapWriter_write ::
    "('tx, 'rx, 'io) pnet_lib \<Rightarrow> 'c env \<Rightarrow> ('tx PcapWriter, 'c, 'io) packet_write" where
  "PcapWriter_write lib env self packet =
     try_in self (map_err DataLinkError_from_packet (Packet_to_bytes env packet)) (\<lambda>bytes.
     (case pn_send_to lib (pcw_writer self) bytes None of (tx, sent) \<Rightarrow>
      let self = self\<lparr>pcw_writer := tx\<rparr> in
      (case sent of
         Some res \<Rightarrow> (self, map_err DataLinkError_from_io (of_result res))
       | None \<Rightarrow> (self, Err BufferError))))"

definition Pcap_write ::
    "('tx, 'rx, 'io) pnet_lib \<Rightarrow> 'c env \<Rightarrow> (('c, 'rx, 'tx) Pcap, 'c, 'io) packet_write" where
  "Pcap_write lib env self packet =
     (case PcapWriter_write lib env (pcap_writer self) packet of (w, res) \<Rightarrow> (self\<lparr>pcap_writer := w\<rparr>, res))"

section \<open>What is used of the library\<close>

text \<open>The result of reading a frame.\<close>

definition frame_result :: "'c env \<Rightarrow> 'c PacketParser \<Rightarrow> bytes \<Rightarrow> ('io DataLinkError, 'c Packet) outcome" where
  "frame_result env pp b = omap snd (map_err DataLinkError_from_packet (of_run (parse_packet env (Ether_t env) pp b)))"

locale pnet_laws =
  fixes lib :: "('tx, 'rx, 'io) pnet_lib" and sent :: "'tx \<Rightarrow> bytes list" and arriving :: "'rx \<Rightarrow> bytes list"
  assumes send_Ok: "pn_send_to lib tx b dst = (tx', Some (Inr ())) \<Longrightarrow> sent tx' = sent tx @ [b]"
    and send_None: "pn_send_to lib tx b dst = (tx', None) \<Longrightarrow> sent tx' = sent tx"
    and next_frame: "arriving rx = b # bs \<Longrightarrow> \<exists>rx'. pn_next lib rx = (rx', Inr b) \<and> arriving rx' = bs"
begin

text \<open>Both backends send what they serialise and read what arrives.\<close>

lemma pnet_sink: "packet_sink (\<lambda>_ :: unit. PnetWriter_write lib env) env (\<lambda>w. sent (pnw_writer w))"
proof
  fix w p w'
  assume *: "PnetWriter_write lib env w p = (w', Ok ())"
  then obtain data where data: "Packet_to_bytes env p = Ok data"
    by (cases "Packet_to_bytes env p") (auto simp: PnetWriter_write_def)
  obtain tx res where tx: "pn_send_to lib (pnw_writer w) data None = (tx, res)" by fastforce
  with * data have "res = Some (Inr ())" "w' = w\<lparr>pnw_writer := tx\<rparr>"
    by (cases res; cases "the res"; auto simp: PnetWriter_write_def Let_def)+
  with send_Ok [of "pnw_writer w" data None tx] tx data
  show "\<exists>data. Packet_to_bytes env p = Ok data \<and> sent (pnw_writer w') = sent (pnw_writer w) @ [data]" by simp
qed

lemma pnet_source:
  fixes env :: "'c env"
  shows "packet_source (PnetReader_read lib env) (\<lambda>r. map (frame_result env (pnr_packet_parser r)) (arriving (pnr_reader r)))"
proof
  fix r :: "('c, 'rx) PnetReader" and x :: "('io DataLinkError, 'c Packet) outcome" and xs
  assume "map (frame_result env (pnr_packet_parser r)) (arriving (pnr_reader r)) = x # xs"
  then obtain b bs where bs: "arriving (pnr_reader r) = b # bs" "x = frame_result env (pnr_packet_parser r) b"
      "xs = map (frame_result env (pnr_packet_parser r)) bs"
    by auto
  from next_frame [OF bs(1)] obtain rx where "pn_next lib (pnr_reader r) = (rx, Inr b)" "arriving rx = bs" by blast
  with bs(2,3) show "snd (PnetReader_read lib env r) = x \<and>
      map (frame_result env (pnr_packet_parser (fst (PnetReader_read lib env r))))
        (arriving (pnr_reader (fst (PnetReader_read lib env r)))) = xs"
    by (simp add: PnetReader_read_def frame_result_def)
qed

end

text \<open>A library with one Ethernet interface, whose frames are held in memory.\<close>

definition mem_nic :: NetworkInterface where
  "mem_nic = \<lparr>ni_name = ''eth0'', ni_mac = Some (MacAddress 1 2 3 4 5 6)\<rparr>"

definition mem_pnet :: "bytes list \<Rightarrow> (bytes list, bytes list, string) pnet_lib" where
  "mem_pnet wire = \<lparr>pn_interfaces = [mem_nic], pn_channel = (\<lambda>_. Inr (EthernetChannel [] wire)),
     pn_next = (\<lambda>rx. case rx of [] \<Rightarrow> ([], Inl ''closed'') | b # bs \<Rightarrow> (bs, Inr b)),
     pn_send_to = (\<lambda>tx b _. (tx @ [b], Some (Inr ())))\<rparr>"

interpretation mem_net: pnet_laws "mem_pnet wire" "\<lambda>tx. tx" "\<lambda>rx. rx" for wire
  by unfold_locales (auto simp: mem_pnet_def split: list.splits)

interpretation mem_net_sink: packet_sink "\<lambda>_ :: unit. PnetWriter_write (mem_pnet wire) env" env pnw_writer for wire env
  by (rule mem_net.pnet_sink)

interpretation mem_net_source: packet_source "PnetReader_read (mem_pnet wire) env"
  "\<lambda>r. map (frame_result env (pnr_packet_parser r)) (pnr_reader r)" for wire env
  by (rule mem_net.pnet_source)

section \<open>The two backends\<close>

definition as_pcap_reader :: "('c, 'rx) PnetReader \<Rightarrow> ('c, 'rx) PcapReader" where
  "as_pcap_reader r = \<lparr>pcr_packet_parser = pnr_packet_parser r, pcr_reader = pnr_reader r\<rparr>"

definition as_pcap_writer :: "'tx PnetWriter \<Rightarrow> 'tx PcapWriter" where
  "as_pcap_writer w = \<lparr>pcw_writer = pnw_writer w\<rparr>"

definition as_pcap_interface ::
    "(('c, 'rx) PnetReader, 'tx PnetWriter) Interface \<Rightarrow> (('c, 'rx) PcapReader, 'tx PcapWriter) Interface" where
  "as_pcap_interface i = \<lparr>if_reader = as_pcap_reader (if_reader i), if_writer = as_pcap_writer (if_writer i),
     if_metadata = if_metadata i\<rparr>"

lemma Pcap_init_simulates:
  "Pcap_init_with_parser lib name pp = omap as_pcap_interface (Pnet_init_with_parser lib name pp)"
  by (cases "find (\<lambda>iface. ni_name iface = name) (pn_interfaces lib)")
    (auto simp: Pcap_init_with_parser_def Pnet_init_with_parser_def as_pcap_interface_def as_pcap_reader_def
      as_pcap_writer_def split: sum.splits Channel.splits)

lemma PcapReader_read_simulates:
  "PcapReader_read lib env (as_pcap_reader r) = map_prod as_pcap_reader id (PnetReader_read lib env r)"
  by (auto simp: PcapReader_read_def PnetReader_read_def as_pcap_reader_def Let_def split: prod.splits sum.splits)

lemma PcapWriter_write_simulates:
  "PcapWriter_write lib env (as_pcap_writer w) p = map_prod as_pcap_writer id (PnetWriter_write lib env w p)"
  by (cases "Packet_to_bytes env p")
    (auto simp: PcapWriter_write_def PnetWriter_write_def as_pcap_writer_def Let_def split: prod.splits option.splits)

lemma as_pcap_cases:
  obtains v where "w = as_pcap_writer v" "pcw_writer w = pnw_writer v"
  by (cases w) (metis PcapWriter.select_convs(1) PnetWriter.select_convs(1) as_pcap_writer_def)

lemma as_pcap_reader_cases:
  obtains v where "r = as_pcap_reader v" "pcr_reader r = pnr_reader v" "pcr_packet_parser r = pnr_packet_parser v"
proof -
  let ?v = "\<lparr>pnr_packet_parser = pcr_packet_parser r, pnr_reader = pcr_reader r\<rparr>"
  have "r = as_pcap_reader ?v" by (simp add: as_pcap_reader_def)
  with that [of ?v] show thesis by simp
qed

context pnet_laws
begin

text \<open>So the libpcap backend is a sink and a source too.\<close>

lemma pcap_sink: "packet_sink (\<lambda>_ :: unit. PcapWriter_write lib env) env (\<lambda>w. sent (pcw_writer w))"
proof
  fix w p w'
  assume *: "PcapWriter_write lib env w p = (w', Ok ())"
  obtain v where v: "w = as_pcap_writer v" "pcw_writer w = pnw_writer v" by (rule as_pcap_cases)
  with * obtain v' where v': "PnetWriter_write lib env v p = (v', Ok ())" "w' = as_pcap_writer v'"
    by (cases "PnetWriter_write lib env v p") (auto simp: PcapWriter_write_simulates)
  from packet_sink.write_Ok [OF pnet_sink v'(1)] v v'(2)
  show "\<exists>data. Packet_to_bytes env p = Ok data \<and> sent (pcw_writer w') = sent (pcw_writer w) @ [data]"
    by (simp add: as_pcap_writer_def)
qed

lemma pcap_source:
  fixes env :: "'c env"
  shows "packet_source (PcapReader_read lib env) (\<lambda>r. map (frame_result env (pcr_packet_parser r)) (arriving (pcr_reader r)))"
proof
  fix r :: "('c, 'rx) PcapReader" and x :: "('io DataLinkError, 'c Packet) outcome" and xs
  assume *: "map (frame_result env (pcr_packet_parser r)) (arriving (pcr_reader r)) = x # xs"
  obtain v where v: "r = as_pcap_reader v" "pcr_reader r = pnr_reader v" "pcr_packet_parser r = pnr_packet_parser v"
    by (rule as_pcap_reader_cases)
  have "PcapReader_read lib env r = map_prod as_pcap_reader id (PnetReader_read lib env v)"
    unfolding v(1) by (rule PcapReader_read_simulates)
  with packet_source.read_next [OF pnet_source, of env v x xs] * v(2,3)
  show "snd (PcapReader_read lib env r) = x \<and>
      map (frame_result env (pcr_packet_parser (fst (PcapReader_read lib env r))))
        (arriving (pcr_reader (fst (PcapReader_read lib env r)))) = xs"
    by (cases "PnetReader_read lib env v") (simp add: as_pcap_reader_def)
qed

text \<open>A write succeeds when the library takes every frame.\<close>

lemma pcap_sends:
  assumes "\<And>tx b dst. \<exists>tx'. pn_send_to lib tx b dst = (tx', Some (Inr ()))" and "Packet_to_bytes env p = Ok bs"
  shows "\<exists>w'. PcapWriter_write lib env w p = (w', Ok ()) \<and> sent (pcw_writer w') = sent (pcw_writer w) @ [bs]"
proof -
  obtain tx where tx: "pn_send_to lib (pcw_writer w) bs None = (tx, Some (Inr ()))" using assms(1) by blast
  with assms(2) send_Ok [OF tx] show ?thesis by (simp add: PcapWriter_write_def Let_def)
qed

lemma ref_sends:
  assumes "\<And>tx b dst. \<exists>tx'. pn_send_to lib tx b dst = (tx', Some (Inr ()))" and "Packet_to_bytes env p = Ok bs"
  shows "\<exists>w'. InterfaceWriterRef_write (PcapWriter_write lib env) w p = (w', Ok ()) \<and>
    sent (pcw_writer (wr_writer w')) = sent (pcw_writer (wr_writer w)) @ [bs]"
  using pcap_sends [OF assms, of "wr_writer w"] by (auto simp: InterfaceWriterRef_write_def)

lemma owned_sends:
  assumes "\<And>tx b dst. \<exists>tx'. pn_send_to lib tx b dst = (tx', Some (Inr ()))" and "Packet_to_bytes env p = Ok bs"
  shows "\<exists>w'. InterfaceWriter_write (PcapWriter_write lib env) w p = (w', Ok ()) \<and>
    sent (pcw_writer (iw_writer w')) = sent (pcw_writer (iw_writer w)) @ [bs]"
  using pcap_sends [OF assms, of "iw_writer w"] by (auto simp: InterfaceWriter_write_def)

text \<open>What an interface that was just opened will give.\<close>

lemma opened_pending:
  assumes "Pcap_init lib env name = Ok i" and "arriving (pcr_reader (if_reader i)) = frames @ later"
    and parsed: "map (parse_packet env (Ether_t env) (PacketParser_new env)) frames = map (\<lambda>p. Some (Ok ([], p))) ps"
  shows "map (frame_result env (pcr_packet_parser (if_reader i))) (arriving (pcr_reader (if_reader i)))
    = map Ok ps @ map (frame_result env (PacketParser_new env)) later"
proof -
  have "pcr_packet_parser (if_reader i) = PacketParser_new env"
    using assms(1) by (auto simp: Pcap_init_def Pcap_init_with_parser_def outcome_simps Let_def)
  moreover have "map (frame_result env (PacketParser_new env)) frames = map Ok ps"
    by (rule map_retract [OF parsed [symmetric]], unfold frame_result_def, drule sym) simp
  ultimately show ?thesis using assms(2) by simp
qed

end

interpretation mem_pcap_sink: packet_sink "\<lambda>_ :: unit. PcapWriter_write (mem_pnet wire) env" env pcw_writer for wire env
  by (rule mem_net.pcap_sink)

interpretation mem_pcap_source: packet_source "PcapReader_read (mem_pnet wire) env"
  "\<lambda>r. map (frame_result env (pcr_packet_parser r)) (pcr_reader r)" for wire env
  by (rule mem_net.pcap_source)

interpretation mem_pcap_stream: packet_stream "InterfaceReader_next (PcapReader_read (mem_pnet wire) env)"
  "\<lambda>s. map (frame_result env (pcr_packet_parser (ir_reader s)) :: bytes \<Rightarrow> (string DataLinkError, 'c Packet) outcome)
     (pcr_reader (ir_reader s))" for wire and env :: "'c env"
  by (rule mem_pcap_source.reader_stream)

section \<open>Properties\<close>

text \<open>
  Opening an interface by name: the first interface of that name is used, its channel must be an Ethernet
  channel, and its MAC address becomes the interface's; no interface of the name, another kind of channel and
  a failure of the library are told apart by the error.
\<close>

lemma Pnet_init_finds_interface:
  "case Pnet_init_with_parser lib name pp of
     Ok i \<Rightarrow> \<exists>pre nic post tx rx. pn_interfaces lib = pre @ nic # post \<and> ni_name nic = name \<and>
       list_all (\<lambda>n. ni_name n \<noteq> name) pre \<and> pn_channel lib nic = Inr (EthernetChannel tx rx) \<and>
       if_reader i = \<lparr>pnr_packet_parser = pp, pnr_reader = rx\<rparr> \<and> if_writer i = \<lparr>pnw_writer = tx\<rparr> \<and>
       Interface_mac_address i = ni_mac nic
   | Err InterfaceNotFound \<Rightarrow> list_all (\<lambda>n. ni_name n \<noteq> name) (pn_interfaces lib)
   | Err UnhandledInterfaceType \<Rightarrow> \<exists>nic \<in> set (pn_interfaces lib). ni_name nic = name \<and> pn_channel lib nic = Inr OtherChannel
   | Err (IoError e) \<Rightarrow> \<exists>nic \<in> set (pn_interfaces lib). ni_name nic = name \<and> pn_channel lib nic = Inl e
   | _ \<Rightarrow> False"
proof (cases "find (\<lambda>iface. ni_name iface = name) (pn_interfaces lib)")
  case None
  then have "list_all (\<lambda>n. ni_name n \<noteq> name) (pn_interfaces lib)" by (simp add: find_None_iff list_all_iff)
  with None show ?thesis by (simp add: Pnet_init_with_parser_def)
next
  case (Some nic)
  note first = find_split [OF Some]
  then have nic: "nic \<in> set (pn_interfaces lib)" "ni_name nic = name" by auto
  show ?thesis
  proof (cases "pn_channel lib nic")
    case (Inl e)
    with Some nic show ?thesis by (auto simp: Pnet_init_with_parser_def)
  next
    case (Inr ch)
    with Some nic first show ?thesis
      by (cases ch) (auto simp: Pnet_init_with_parser_def Interface_mac_address_def)
  qed
qed

text \<open>
  The libpcap backend behaves like the libpnet backend: opening, reading and writing give the same
  results and corresponding states, with the same errors; its read-only and write-only interfaces are the
  halves of the full interface.
\<close>

lemma Pcap_behaves_like_Pnet:
  "Pcap_init lib env name = omap as_pcap_interface (Pnet_init lib env name) \<and>
   PcapReader_read lib env (as_pcap_reader r) = map_prod as_pcap_reader id (PnetReader_read lib env r) \<and>
   PcapWriter_write lib env (as_pcap_writer w) p = map_prod as_pcap_writer id (PnetWriter_write lib env w p) \<and>
   Pcap_read_init lib env name
     = omap (\<lambda>i. fst (Interface_into_split (as_pcap_interface i))) (Pnet_init lib env name) \<and>
   Pcap_write_init lib env name
     = omap (\<lambda>i. snd (Interface_into_split (as_pcap_interface i))) (Pnet_init lib env name)"
  by (simp add: PcapReader_read_simulates PcapWriter_write_simulates Pcap_init_simulates obind_omap_pair omap_omap
      Pcap_init_def Pnet_init_def Pcap_read_init_def Pcap_read_init_with_parser_def Pcap_write_init_def)

text \<open>
  Writing a packet to a network interface returns, without panicking.  On success exactly the packet's bytes
  were sent, as one frame; when the packet does not serialise the writer is untouched and the error is the
  packet's; when the library has no buffer for the frame nothing was sent and the error is \<open>BufferError\<close>;
  every other failure is the library's.
\<close>

lemma PnetWriter_write_effect:
  assumes "packet_env env" and "pnet_laws lib sent arriving"
  shows "case PnetWriter_write lib env w p of (w', r) \<Rightarrow> returns r \<and> (case r of
     Ok _ \<Rightarrow> (\<exists>data. Packet_to_bytes env p = Ok data \<and> sent (pnw_writer w') = sent (pnw_writer w) @ [data])
   | Err (PacketError e) \<Rightarrow> w' = w \<and> Packet_to_bytes env p = Err e
   | Err BufferError \<Rightarrow> sent (pnw_writer w') = sent (pnw_writer w)
   | Err (IoError e) \<Rightarrow> (\<exists>data. Packet_to_bytes env p = Ok data \<and>
       snd (pn_send_to lib (pnw_writer w) data None) = Some (Inl e))
   | _ \<Rightarrow> False)"
proof (cases "Packet_to_bytes env p")
  case (Ok data)
  obtain tx res where tx: "pn_send_to lib (pnw_writer w) data None = (tx, res)" by fastforce
  show ?thesis
  proof (cases res)
    case None
    with Ok tx pnet_laws.send_None [OF assms(2)] show ?thesis by (simp add: PnetWriter_write_def Let_def)
  next
    case (Some s)
    with Ok tx pnet_laws.send_Ok [OF assms(2), of "pnw_writer w" data None tx] show ?thesis
      by (cases s) (simp_all add: PnetWriter_write_def Let_def DataLinkError_from_io_def)
  qed
next
  case (Err e)
  then show ?thesis by (simp add: PnetWriter_write_def DataLinkError_from_packet_def)
qed (use Packet_to_bytes_returns [OF assms(1), of p] in simp_all)

text \<open>
  (C25) Two machines on a link: well-formed packets written to one network interface, all of them
  successfully, are the packets that iterating over the other interface yields, in order, when the frames
  arrive in the order they were sent.
\<close>

theorem link_transfers_packets:
  assumes env: "packet_env env" and laws: "pnet_laws lib sent arriving" "pnet_laws lib' sent' arriving'"
    and writes: "write_packets (\<lambda>_ :: unit. InterfaceWriter_write (PnetWriter_write lib env)) w ps = (w', Ok ())"
    and frames: "list_all (frame_wf env) (map snd ps)"
    and peer: "Pnet_init lib' env name = Ok i"
    and link: "sent (pnw_writer (iw_writer w')) @ later
      = sent (pnw_writer (iw_writer w)) @ arriving' (pnr_reader (if_reader i))"
  shows "\<exists>s'. collect_packets (InterfaceReader_next (PnetReader_read lib' env)) (length ps)
    (fst (Interface_into_split i)) = (s', Ok (map snd ps))"
proof -
  let ?r = "if_reader i"
  from packet_sink.interface_packets_Ok [OF pnet_laws.pnet_sink [OF laws(1)] writes] obtain datas where
      datas: "map (\<lambda>np. Packet_to_bytes env (snd np)) ps = map Ok datas"
        "arriving' (pnr_reader ?r) = datas @ later"
    using link by auto
  have parser: "pnr_packet_parser ?r = PacketParser_new env"
    using peer by (auto simp: Pnet_init_def Pnet_init_with_parser_def outcome_simps Let_def)
  have "frame_result env (PacketParser_new env) d = Ok p" if "frame_wf env p" "Packet_to_bytes env p = Ok d" for p d
    using frame_wf_reparse [OF env that(1)] that(2) by (auto simp: frame_result_def)
  with frames datas(1) have "map (frame_result env (PacketParser_new env)) datas = map (\<lambda>np. Ok (snd np)) ps"
    by (intro map_retract [where f = "\<lambda>np. Packet_to_bytes env (snd np)"]) (auto simp: list_all_iff)
  then have "map (frame_result env (pnr_packet_parser ?r)) (arriving' (pnr_reader ?r))
      = map Ok (map snd ps) @ map (frame_result env (PacketParser_new env)) later"
    using datas(2) by (simp add: parser comp_def)
  moreover have "ir_reader (fst (Interface_into_split i)) = ?r" by (simp add: Interface_into_split_def)
  ultimately show ?thesis
    using packet_source.collect_take [OF pnet_laws.pnet_source [OF laws(2), of env],
        where s = "fst (Interface_into_split i)" and ps = "map snd ps"] by auto
qed

theorem link_transfers_packets_witness:
  "\<exists>b i s' w'. Pnet_init (mem_pnet [b]) dev_env ''eth0'' = Ok i \<and>
    write_packets (\<lambda>_ :: unit. InterfaceWriter_write (PnetWriter_write (mem_pnet []) dev_env))
      \<lparr>iw_writer = \<lparr>pnw_writer = []\<rparr>, iw_metadata = InterfaceMetadata_default\<rparr> [((), ether_packet)] = (w', Ok ()) \<and>
    collect_packets (InterfaceReader_next (PnetReader_read (mem_pnet [b]) dev_env)) 1 (fst (Interface_into_split i))
      = (s', Ok [ether_packet])"
proof -
  let ?w = "\<lparr>iw_writer = \<lparr>pnw_writer = []\<rparr>, iw_metadata = InterfaceMetadata_default\<rparr> :: bytes list PnetWriter InterfaceWriter"
  obtain b where b: "Packet_to_bytes dev_env ether_packet = Ok b" using ether_packet_bytes by blast
  have i: "\<exists>i. Pnet_init (mem_pnet [b]) dev_env ''eth0'' = Ok i \<and> pnr_reader (if_reader i) = [b]"
    by (simp add: Pnet_init_def Pnet_init_with_parser_def mem_pnet_def mem_nic_def)
  then obtain i where i: "Pnet_init (mem_pnet [b]) dev_env ''eth0'' = Ok i" "pnr_reader (if_reader i) = [b]" by blast
  have w: "write_packets (\<lambda>_ :: unit. InterfaceWriter_write (PnetWriter_write (mem_pnet []) dev_env)) ?w [((), ether_packet)]
      = (?w\<lparr>iw_writer := \<lparr>pnw_writer = [b]\<rparr>\<rparr>, Ok ())"
    using b by (simp add: InterfaceWriter_write_def PnetWriter_write_def mem_pnet_def)
  have "list_all (frame_wf dev_env) (map snd [((), ether_packet)])" using ether_packet_wf by simp
  from link_transfers_packets [OF dev_packets.packet_env_axioms mem_net.pnet_laws_axioms mem_net.pnet_laws_axioms w this
      i(1), of "[]"] i w show ?thesis by auto
qed

end
