(* ===== verification/Ping.thy ===== *)
theory Ping
  imports Packet_Finalize Live_Capture Command_Line
begin

text \<open>
  \<open>examples/icmp_ping.rs\<close>: send one ICMP echo request and print the ICMP packets that arrive.  Printing a packet is
  listing it; the loop over the interface runs for a number of rounds.
\<close>

section \<open>The program\<close>

definition echo_request :: "MacAddress \<Rightarrow> u32 \<Rightarrow> u32 \<Rightarrow> 'c LayerOwned list" where
  "echo_request mac_addr src dst =
     [LEther \<lparr>ether_dst = MacAddress 0xEC 0x08 0x6B 0x50 0x7D 0x58, ether_src = mac_addr, ether_type = IPv4\<rparr>,
      LIpv4 (Ipv4_default\<lparr>ip4_src := src, ip4_dst := dst, ip4_ttl := 124, ip4_protocol := ICMP,
        ip4_identification := 0x3716, ip4_flags := 0b0100\<rparr>),
      LIcmp4 (Icmp4_default\<lparr>icmp_type := EchoRequest, icmp_data := [0xFF, 0xFF], icmp_message := 0xDFADBEFF\<rparr>)]"

text \<open>The packets printed: once for each ICMP layer.\<close>

definition icmp_lines :: "'c env \<Rightarrow> 'c Packet list \<Rightarrow> 'c Packet list" where
  "icmp_lines env pkts = concat (map (\<lambda>pkt. map (\<lambda>l. pkt) (filter (\<lambda>l. is_layer env l TIcmp4) (Packet_layers pkt))) pkts)"

definition icmp_ping ::
    "('tx, 'rx, 'io) pnet_lib \<Rightarrow> 'c env \<Rightarrow> nat \<Rightarrow> string list \<Rightarrow>
      (unit, ('c, 'rx, 'tx) Pcap \<times> 'c Packet list) outcome" where
  "icmp_ping lib env rounds args =
     (case args of
        program # interface # ip_addr # _ \<Rightarrow>
          obind (expect_ok unwrap_msg (Interface_init (Pcap_init lib env) interface)) (\<lambda>int.
          obind (expect_ok unwrap_msg (ok_or () (Interface_mac_address int))) (\<lambda>mac_addr.
          (case Interface_split int of (rx, tx) \<Rightarrow>
          obind (expect_ok unwrap_msg (ok_or () (Ipv4Addr_from_str ''192.168.1.106''))) (\<lambda>src.
          obind (expect_ok unwrap_msg (ok_or () (Ipv4Addr_from_str ip_addr))) (\<lambda>dst.
          (case Packet_finalize env (Packet_from_layers (echo_request mac_addr src dst)) of (request, finalized) \<Rightarrow>
          obind (expect_ok unwrap_msg finalized) (\<lambda>_.
          (case InterfaceWriterRef_write (PcapWriter_write lib env) tx request of (tx, written) \<Rightarrow>
          obind (expect_ok unwrap_msg written) (\<lambda>_.
          (case collect_packets (InterfaceReaderRef_next (PcapReader_read lib env)) rounds rx of (rx, pkts) \<Rightarrow>
          omap (\<lambda>pkts. (\<lparr>pcap_reader = rr_reader rx, pcap_writer = wr_writer tx\<rparr>, icmp_lines env pkts)) pkts))))))))))
      | [_, _] \<Rightarrow> Panic ''expected an ipv4 address as argument''
      | _ \<Rightarrow> Panic ''expected a network interface'')"

section \<open>ICMP frames\<close>

text \<open>One \<open>finalize\<close> makes a valid frame.\<close>

lemma icmp_frame_valid:
  assumes env: "packet_env env" and wf: "Ipv4_wf v" and hdr: "Ipv4_to_bytes (env_dk env) v = Ok hdr"
    and fits: "length hdr + (8 + length (icmp_data i)) \<le> 65535"
  shows "\<exists>n c c' v' i' hdr' msg. v' = v\<lparr>ip4_length := n, ip4_checksum := c\<rparr> \<and> i' = i\<lparr>icmp_checksum := c'\<rparr> \<and>
    Packet_finalize env (Packet_from_layers [LEther e, LIpv4 v, LIcmp4 i])
      = (Packet_from_layers [LEther e, LIpv4 v', LIcmp4 i'], Ok ()) \<and>
    Ipv4_to_bytes (env_dk env) v' = Ok hdr' \<and> Icmp4_to_bytes (env_dk env) i' = Ok msg \<and>
    unat (ip4_length v') = length hdr' + length msg \<and>
    checksum (env_pf env) hdr' = (Ok 0 :: (LayerError, u16) outcome) \<and>
    checksum (env_pf env) msg = (Ok 0 :: (LayerError, u16) outcome)"
proof -
  note deku = packet_env.env_deku [OF env]
  obtain body where body: "Icmp4_to_bytes (env_dk env) i = Ok body"
    using deku_laws.Icmp4_to_bytes_Ok [OF deku] by blast
  have payload: "layers_to_bytes env [LIcmp4 i] = Ok body" using body by (simp add: layers_to_bytes_eq)
  have len: "length body = 8 + length (icmp_data i)" using deku_laws.Icmp4_to_bytes_length [OF deku body] .
  with packet_env.Ipv4_finalize_fits [OF env hdr payload, of "[LEther e]"] fits obtain c hdr' v' where
      v': "v' = v\<lparr>ip4_length := word_of_nat (length hdr + length body), ip4_checksum := c\<rparr>"
        "Ipv4_finalize env v [LEther e] [LIcmp4 i] = (v', Ok ())" "Ipv4_to_bytes (env_dk env) v' = Ok hdr'"
        "length hdr' = length hdr" "checksum (env_pf env) hdr' = (Ok 0 :: (LayerError, u16) outcome)"
        "unat (ip4_length v') = length hdr + length body"
    by auto
  have "length (icmp_data i) \<le> 131066" using fits by simp
  from deku_laws.Icmp4_finalize_valid [OF deku this, of "env_pf env" "[LEther e, LIpv4 v']" "[] :: 'a LayerOwned list"]
  obtain c' msg where i': "Icmp4_finalize (env_pf env) (env_dk env) i [LEther e, LIpv4 v'] ([] :: 'a LayerOwned list)
        = (i\<lparr>icmp_checksum := c'\<rparr>, Ok ())"
      "Icmp4_to_bytes (env_dk env) (i\<lparr>icmp_checksum := c'\<rparr>) = Ok msg"
      "checksum (env_pf env) msg = (Ok 0 :: (LayerError, u16) outcome)"
    by blast
  have "length msg = length body" using deku_laws.Icmp4_to_bytes_length [OF deku i'(2)] len by simp
  moreover have "Packet_finalize env (Packet_from_layers [LEther e, LIpv4 v, LIcmp4 i])
      = (Packet_from_layers [LEther e, LIpv4 v', LIcmp4 (i\<lparr>icmp_checksum := c'\<rparr>)], Ok ())"
    using i'(1) by (intro Packet_finalize_frame [OF v'(2)]) simp_all
  ultimately show ?thesis using v' i'
    by (intro exI [where x = "ip4_length v'"] exI [where x = c] exI [where x = c'] exI [where x = v']
        exI [where x = "i\<lparr>icmp_checksum := c'\<rparr>"] exI [where x = hdr'] exI [where x = msg]) simp
qed

text \<open>A valid echo request to an address, with the bytes it is sent as.\<close>

definition valid_ping :: "'c env \<Rightarrow> MacAddress \<Rightarrow> u32 \<Rightarrow> bytes \<Rightarrow> bool" where
  "valid_ping env mac dst bs \<longleftrightarrow> (\<exists>p e v i hdr msg. pkt_layers p = [LEther e, LIpv4 v, LIcmp4 i] \<and>
     ether_src e = mac \<and> ip4_src v = 0xC0A8016A \<and> ip4_dst v = dst \<and> icmp_type i = EchoRequest \<and> icmp_data i = [0xFF, 0xFF] \<and>
     Ipv4_to_bytes (env_dk env) v = Ok hdr \<and> Icmp4_to_bytes (env_dk env) i = Ok msg \<and>
     unat (ip4_length v) = length hdr + length msg \<and>
     checksum (env_pf env) hdr = (Ok 0 :: (LayerError, u16) outcome) \<and>
     checksum (env_pf env) msg = (Ok 0 :: (LayerError, u16) outcome) \<and>
     Packet_to_bytes env p = Ok bs \<and> parse_packet env (Ether_t env) (PacketParser_new env) bs = Some (Ok ([], p)))"

lemma echo_request_finalize:
  fixes env :: "'c env"
  assumes env: "packet_env env"
  shows "\<exists>p bs. Packet_finalize env (Packet_from_layers (echo_request mac 0xC0A8016A dst)) = (p, Ok ()) \<and>
    Packet_to_bytes env p = Ok bs \<and> valid_ping env mac dst bs"
proof -
  define e where "e = \<lparr>ether_dst = MacAddress 0xEC 0x08 0x6B 0x50 0x7D 0x58, ether_src = mac, ether_type = IPv4\<rparr>"
  define v where "v = Ipv4_default\<lparr>ip4_src := 0xC0A8016A, ip4_dst := dst, ip4_ttl := 124, ip4_protocol := ICMP,
        ip4_identification := 0x3716, ip4_flags := 0b0100\<rparr>"
  define i where "i = Icmp4_default\<lparr>icmp_type := EchoRequest, icmp_data := [0xFF, 0xFF], icmp_message := 0xDFADBEFF\<rparr>"
  have request: "(echo_request mac 0xC0A8016A dst :: 'c LayerOwned list) = [LEther e, LIpv4 v, LIcmp4 i]"
    by (simp add: echo_request_def e_def v_def i_def)
  have wf: "Ipv4_wf v"
    by (simp add: v_def Ipv4_wf_def Ipv4_parsed_def Ipv4_default_def IpProtocol_wf_def)
  obtain hdr where hdr: "Ipv4_to_bytes (env_dk env) v = Ok hdr"
    using packet_env.wf_Ipv4_bytes [OF env wf] by blast
  have "length hdr = 20"
    using deku_laws.Ipv4_to_bytes_length [OF packet_env.env_deku [OF env] hdr]
    by (simp add: Ipv4_bits_def v_def Ipv4_default_def)
  then have "length hdr + (8 + length (icmp_data i)) \<le> 65535" by (simp add: i_def)
  from icmp_frame_valid [OF env wf hdr this, of e] obtain n c c' v' i' hdr' msg where
      v': "v' = v\<lparr>ip4_length := n, ip4_checksum := c\<rparr>" and i': "i' = i\<lparr>icmp_checksum := c'\<rparr>"
      and run: "Packet_finalize env (Packet_from_layers [LEther e, LIpv4 v, LIcmp4 i])
        = (Packet_from_layers [LEther e, LIpv4 v', LIcmp4 i'], Ok ())"
      and valid: "Ipv4_to_bytes (env_dk env) v' = Ok hdr'" "Icmp4_to_bytes (env_dk env) i' = Ok msg"
        "unat (ip4_length v') = length hdr' + length msg"
        "checksum (env_pf env) hdr' = (Ok 0 :: (LayerError, u16) outcome)"
        "checksum (env_pf env) msg = (Ok 0 :: (LayerError, u16) outcome)"
    by blast
  let ?p = "Packet_from_layers [LEther e, LIpv4 v', LIcmp4 i']"
  have "frame_wf env ?p"
    using wf by (auto simp: frame_wf_def Packet_from_layers_def e_def v' v_def i' i_def Ether_wf_def EtherType_wf_def
        Ipv4_wf_def Ipv4_parsed_def Icmp4_wf_def IcmpType_wf_def)
  from frame_wf_reparse [OF env this] obtain bs where
      bs: "Packet_to_bytes env ?p = Ok bs" "parse_packet env (Ether_t env) (PacketParser_new env) bs = Some (Ok ([], ?p))"
    by blast
  have fields: "ether_src e = mac" "ip4_src v' = 0xC0A8016A" "ip4_dst v' = dst" "icmp_type i' = EchoRequest"
      "icmp_data i' = [0xFF, 0xFF]"
    by (simp_all add: e_def v' v_def i' i_def)
  have "pkt_layers ?p = [LEther e, LIpv4 v', LIcmp4 i']" by (simp add: Packet_from_layers_def)
  with bs valid fields have "valid_ping env mac dst bs" unfolding valid_ping_def by blast
  with run request bs(1) show ?thesis by auto
qed

lemma set_icmp_lines: "set (icmp_lines env ps) = {p \<in> set ps. \<exists>i. LIcmp4 i \<in> set (pkt_layers p)}"
proof -
  have "is_layer env l TIcmp4 \<longleftrightarrow> (\<exists>i. l = LIcmp4 i)" for l by (cases l) (simp_all add: is_layer_def)
  then show ?thesis by (auto simp: icmp_lines_def Packet_layers_def filter_empty_conv)
qed

section \<open>Properties\<close>

text \<open>
  (C22) Pinging an address, over a network library that sends what it is given and delivers what arrives, sends exactly
  one frame: an Ethernet, IPv4 and ICMP echo request from the interface's MAC address to the address of the command
  line, with the right IPv4 length and valid checksums, which the default parser reads back.  The packets
  printed are the arriving packets with an ICMP layer.
\<close>

theorem icmp_ping_sends_request:
  assumes env: "packet_env env" and laws: "pnet_laws lib sent arriving"
    and sends: "\<And>tx b dst. \<exists>tx'. pn_send_to lib tx b dst = (tx', Some (Inr ()))"
    and ip: "a < 256" "b < 256" "c < 256" "d < 256"
    and start: "Pcap_init lib env name = Ok i" and mac: "Interface_mac_address i = Some mac"
    and frames: "arriving (pcr_reader (if_reader i)) = frames @ later"
      "map (parse_packet env (Ether_t env) (PacketParser_new env)) frames = map (\<lambda>p. Some (Ok ([], p))) ps"
  shows "\<exists>pc printed request. icmp_ping lib env (length ps) [program, name, dotted a b c d] = Ok (pc, printed) \<and>
    set printed = {p \<in> set ps. \<exists>i. LIcmp4 i \<in> set (pkt_layers p)} \<and>
    sent (pcw_writer (pcap_writer pc)) = sent (pcw_writer (if_writer i)) @ [request] \<and>
    valid_ping env mac (word_of_nat (((a * 256 + b) * 256 + c) * 256 + d)) request"
proof -
  let ?ip = "word_of_nat (((a * 256 + b) * 256 + c) * 256 + d)"
  have args: "Ipv4Addr_from_str (dotted a b c d) = Some ?ip" using ip Ipv4Addr_from_str_iff by blast
  have local: "Ipv4Addr_from_str ''192.168.1.106'' = Some 0xC0A8016A"
    by (simp add: Ipv4Addr_from_str_def read_octet_def is_digit_def decimal_def digit_value_def)
  obtain rx tx where split: "Interface_split i = (rx, tx)" "rr_reader rx = if_reader i" "wr_writer tx = if_writer i"
    by (simp add: Interface_split_def)
  from echo_request_finalize [OF env, of mac ?ip] obtain p bs where
      p: "Packet_finalize env (Packet_from_layers (echo_request mac 0xC0A8016A ?ip)) = (p, Ok ())"
        "Packet_to_bytes env p = Ok bs" "valid_ping env mac ?ip bs"
    by blast
  from pnet_laws.ref_sends [OF laws sends p(2), of tx] obtain tx' where
      tx': "InterfaceWriterRef_write (PcapWriter_write lib env) tx p = (tx', Ok ())"
        "sent (pcw_writer (wr_writer tx')) = sent (pcw_writer (wr_writer tx)) @ [bs]"
    by blast
  from pnet_laws.opened_pending [OF laws start frames] split(2) have
      "map (frame_result env (pcr_packet_parser (rr_reader rx))) (arriving (pcr_reader (rr_reader rx)))
        = map Ok ps @ map (frame_result env (PacketParser_new env)) later"
    by simp
  from packet_stream.collect_stream [OF packet_source.ref_stream [OF pnet_laws.pcap_source [OF laws, of env]] this]
  obtain rx' where "collect_packets (InterfaceReaderRef_next (PcapReader_read lib env)) (length ps) rx = (rx', Ok ps)"
    by blast
  with start mac split args local p tx' show ?thesis
    by (auto simp: icmp_ping_def Interface_init_def set_icmp_lines)
qed

theorem icmp_ping_sends_request_witness:
  "\<exists>arriving pc printed request. icmp_ping (mem_pnet [arriving]) dev_env 1 [''icmp_ping'', ''eth0'', dotted 8 8 8 8]
      = Ok (pc, printed) \<and> printed \<noteq> [] \<and> pcw_writer (pcap_writer pc) = [request] \<and>
    valid_ping dev_env (MacAddress 1 2 3 4 5 6) 0x08080808 request"
proof -
  let ?mac = "MacAddress 1 2 3 4 5 6"
  obtain bs where "valid_ping dev_env ?mac 0 bs"
    using echo_request_finalize [OF dev_packets.packet_env_axioms] by blast
  then obtain p j where p: "parse_packet dev_env (Ether_t dev_env) (PacketParser_new dev_env) bs = Some (Ok ([], p))"
      "LIcmp4 j \<in> set (pkt_layers p)"
    by (auto simp: valid_ping_def)
  have "\<exists>i. Pcap_init (mem_pnet [bs]) dev_env ''eth0'' = Ok i \<and> pcr_reader (if_reader i) = [bs] @ [] \<and>
      pcw_writer (if_writer i) = [] \<and> Interface_mac_address i = Some ?mac"
    by (simp add: Pcap_init_def Pcap_init_with_parser_def mem_pnet_def mem_nic_def Interface_mac_address_def)
  then obtain i where i: "Pcap_init (mem_pnet [bs]) dev_env ''eth0'' = Ok i" "pcr_reader (if_reader i) = [bs] @ []"
      "pcw_writer (if_writer i) = []" "Interface_mac_address i = Some ?mac" by blast
  have sends: "\<exists>tx'. pn_send_to (mem_pnet [bs]) tx b dst = (tx', Some (Inr ()))" for tx b dst
    by (simp add: mem_pnet_def)
  have frames: "map (parse_packet dev_env (Ether_t dev_env) (PacketParser_new dev_env)) [bs] = map (\<lambda>p. Some (Ok ([], p))) [p]"
    using p(1) by simp
  from icmp_ping_sends_request [where program = "''icmp_ping''" and a = 8 and b = 8 and c = 8 and d = 8,
      OF dev_packets.packet_env_axioms mem_net.pnet_laws_axioms sends _ _ _ _ i(1,4,2) frames]
  obtain pc printed request where
      run: "icmp_ping (mem_pnet [bs]) dev_env 1 [''icmp_ping'', ''eth0'', dotted 8 8 8 8] = Ok (pc, printed)"
        "pcw_writer (pcap_writer pc) = [request]" "valid_ping dev_env ?mac 0x08080808 request"
      and printed: "set printed = {q \<in> {p}. \<exists>i. LIcmp4 i \<in> set (pkt_layers q)}"
    using i(3) by auto
  have "p \<in> set printed" using p(2) unfolding printed by blast
  then have "printed \<noteq> []" by auto
  with run show ?thesis by blast
qed

end
