(* ===== verification/Hello_Loop.thy ===== *)
theory Hello_Loop
  imports Packet_Finalize Live_Capture Command_Line
begin

text \<open>
  \<open>examples/read_write_interface.rs\<close>: send a TCP segment that says hello for every packet that arrives.  Printing
  the packets is left out; the loop over the interface runs for a number of rounds.
\<close>

section \<open>The program\<close>

definition hello_packet :: "'c env \<Rightarrow> (unit, 'c Packet) outcome" where
  "hello_packet env =
     obind (expect_ok unwrap_msg (Raw_parse (env_pf env) (env_dk env) (ascii ''hello world''))) (\<lambda>(rest, raw).
     (case Packet_finalize env (Packet_from_layers
         [LEther Ether_default, LIpv4 Ipv4_default, LTcp Tcp_default, LRaw raw]) of (p, finalized) \<Rightarrow>
      omap (\<lambda>_. p) (expect_ok unwrap_msg finalized)))"

definition read_write_interface ::
    "('tx, 'rx, 'io) pnet_lib \<Rightarrow> 'c env \<Rightarrow> nat \<Rightarrow>
      (unit, ('c, 'rx) PcapReader InterfaceReader \<times> 'tx PcapWriter InterfaceWriter) outcome" where
  "read_write_interface lib env rounds =
     obind (expect_ok unwrap_msg (Interface_init (Pcap_init lib env) ''lo'')) (\<lambda>int.
     (case Interface_into_split int of (rx, tx) \<Rightarrow>
      (case serve_loop (InterfaceReader_next (PcapReader_read lib env)) (InterfaceWriter_write (PcapWriter_write lib env))
          (\<lambda>pkt. omap (\<lambda>p. Some (p, unwrap_msg)) (hello_packet env)) rounds rx tx of (rw, res) \<Rightarrow> omap (\<lambda>_. rw) res)))"

section \<open>The segment\<close>

text \<open>A valid segment with a payload, and the bytes it is sent as.\<close>

definition valid_segment :: "'c env \<Rightarrow> bytes \<Rightarrow> bytes \<Rightarrow> bool" where
  "valid_segment env payload bs \<longleftrightarrow> (\<exists>p e v t r hdr seg ph. pkt_layers p = [LEther e, LIpv4 v, LTcp t, LRaw r] \<and>
     raw_data r = payload \<and> Ipv4_to_bytes (env_dk env) v = Ok hdr \<and> Tcp_to_bytes (env_dk env) t = Ok seg \<and>
     unat (ip4_length v) = length hdr + length seg + length payload \<and>
     checksum (env_pf env) hdr = (Ok 0 :: (LayerError, u16) outcome) \<and>
     ip_pseudo_header ''tcp_length'' env (LIpv4 v) (length seg + length payload) = Ok (Some ph) \<and>
     checksum (env_pf env) (ph @ seg @ payload) = (Ok 0 :: (LayerError, u16) outcome) \<and>
     Packet_to_bytes env p = Ok bs \<and> parse_packet env (Ether_t env) (PacketParser_new env) bs = Some (Ok ([], p)))"

lemma hello_packet_ok:
  fixes env :: "'c env"
  assumes env: "packet_env env"
  shows "\<exists>p bs. hello_packet env = Ok p \<and> Packet_to_bytes env p = Ok bs \<and> valid_segment env (ascii ''hello world'') bs"
proof -
  note deku = packet_env.env_deku [OF env]
  define data where "data = ascii ''hello world''"
  let ?r = "\<lparr>raw_data = data, raw_bit_offset = 0\<rparr>"
  let ?rest = "[LRaw ?r] :: 'c LayerOwned list"
  have len: "length data = 11" by (simp add: data_def ascii_def)
  have wf: "Ipv4_wf Ipv4_default" "Tcp_wf Tcp_default"
    by (simp_all add: Ipv4_wf_def Ipv4_parsed_def Ipv4_default_def IpProtocol_wf_def IpProtocol_default_def Tcp_wf_def
        Tcp_parsed_def Tcp_default_def TcpFlags_wf_def TcpFlags_default_def)
  have rest: "list_all is_raw ?rest" "layers_to_bytes env ?rest = Ok data"
    by (simp_all add: is_raw_def layers_to_bytes_eq deku_laws.Raw_to_bytes_eq [OF deku])
  obtain hdr where hdr: "Ipv4_to_bytes (env_dk env) Ipv4_default = Ok hdr"
    using packet_env.wf_Ipv4_bytes [OF env wf(1)] by blast
  have "length hdr = 20"
    using deku_laws.Ipv4_to_bytes_length [OF deku hdr] by (simp add: Ipv4_bits_def Ipv4_default_def)
  then have "length hdr + 4 * unat (tcp_offset Tcp_default) + length data \<le> 65535"
    using len by (simp add: Tcp_default_def)
  from tcp_frame_valid [OF env wf rest hdr this, of Ether_default] obtain n c c' v t hdr' seg ph where
      v: "v = Ipv4_default\<lparr>ip4_length := n, ip4_checksum := c\<rparr>" and t: "t = Tcp_default\<lparr>tcp_checksum := c'\<rparr>"
      and run: "Packet_finalize env (Packet_from_layers (LEther Ether_default # LIpv4 Ipv4_default # LTcp Tcp_default # ?rest))
        = (Packet_from_layers (LEther Ether_default # LIpv4 v # LTcp t # ?rest), Ok ())"
      and valid: "Ipv4_to_bytes (env_dk env) v = Ok hdr'" "Tcp_to_bytes (env_dk env) t = Ok seg"
        "unat (ip4_length v) = length hdr' + length seg + length data"
        "checksum (env_pf env) hdr' = (Ok 0 :: (LayerError, u16) outcome)"
        "ip_pseudo_header ''tcp_length'' env (LIpv4 v) (length seg + length data) = Ok (Some ph)"
        "checksum (env_pf env) (ph @ seg @ data) = (Ok 0 :: (LayerError, u16) outcome)"
    by blast
  let ?p = "Packet_from_layers (LEther Ether_default # LIpv4 v # LTcp t # ?rest)"
  have "hello_packet env = Ok ?p"
    using run by (simp add: hello_packet_def deku_laws.Raw_parse_eq [OF deku] data_def)
  have "Ipv4_wf v" "Tcp_wf t" "ip4_protocol v = TCP"
    using wf by (simp_all add: v t Ipv4_wf_def Ipv4_parsed_def Tcp_wf_def Tcp_parsed_def Ipv4_default_def IpProtocol_default_def)
  then have "frame_wf env ?p"
    using len by (auto simp: frame_wf_def Packet_from_layers_def Ether_wf_def Ether_default_def EtherType_default_def
        EtherType_wf_def Raw_wf_def)
  from frame_wf_reparse [OF env this] obtain bs where
      bs: "Packet_to_bytes env ?p = Ok bs" "parse_packet env (Ether_t env) (PacketParser_new env) bs = Some (Ok ([], ?p))"
    by blast
  have "pkt_layers ?p = [LEther Ether_default, LIpv4 v, LTcp t, LRaw ?r]" by (simp add: Packet_from_layers_def)
  moreover have "raw_data ?r = data" by simp
  ultimately have "valid_segment env data bs" using bs valid unfolding valid_segment_def by blast
  with \<open>hello_packet env = Ok ?p\<close> bs(1) show ?thesis unfolding data_def by blast
qed

text \<open>The loop is a server that answers every packet.\<close>

lemma hello_server:
  fixes lib :: "('tx, 'rx, 'io) pnet_lib" and env :: "'c env"
  assumes env: "packet_env env" and laws: "pnet_laws lib sent arriving"
    and sends: "\<And>tx b dst. \<exists>tx'. pn_send_to lib tx b dst = (tx', Some (Inr ()))"
  shows "packet_server (InterfaceReader_next (PcapReader_read lib env))
    (\<lambda>r. map (frame_result env (pcr_packet_parser (ir_reader r)) :: bytes \<Rightarrow> ('io DataLinkError, 'c Packet) outcome)
      (arriving (pcr_reader (ir_reader r))))
    (InterfaceWriter_write (PcapWriter_write lib env)) env (\<lambda>w. sent (pcw_writer (iw_writer w)))
    (\<lambda>pkt. omap (\<lambda>p. Some (p, unwrap_msg)) (hello_packet env))"
proof (intro packet_server.intro packet_server_axioms.intro)
  show "packet_stream (InterfaceReader_next (PcapReader_read lib env))
      (\<lambda>r. map (frame_result env (pcr_packet_parser (ir_reader r)) :: bytes \<Rightarrow> ('io DataLinkError, 'c Packet) outcome)
        (arriving (pcr_reader (ir_reader r))))"
    using packet_source.reader_stream [OF pnet_laws.pcap_source [OF laws, of env]] .
qed (use hello_packet_ok [OF env] pnet_laws.owned_sends [OF laws sends] in fastforce)+

interpretation mem_hello: packet_server "InterfaceReader_next (PcapReader_read (mem_pnet wire) dev_env)"
  "\<lambda>r. map (frame_result dev_env (pcr_packet_parser (ir_reader r)) :: bytes \<Rightarrow> (string DataLinkError, unit Packet) outcome)
     (pcr_reader (ir_reader r))"
  "InterfaceWriter_write (PcapWriter_write (mem_pnet wire) dev_env)" dev_env "\<lambda>w. pcw_writer (iw_writer w)"
  "\<lambda>pkt. omap (\<lambda>p. Some (p, unwrap_msg)) (hello_packet dev_env)" for wire
  by (rule hello_server [OF dev_packets.packet_env_axioms mem_net.pnet_laws_axioms]) (simp add: mem_pnet_def)

section \<open>Properties\<close>

text \<open>
  Over a network library that sends what it is given and delivers what arrives, the program sends one frame for
  each arriving packet, all the same: a valid TCP segment in an IPv4 packet with the right length and checksums,
  whose payload is the greeting, and which the default parser reads back.
\<close>

lemma read_write_interface_greets:
  assumes env: "packet_env env" and laws: "pnet_laws lib sent arriving"
    and sends: "\<And>tx b dst. \<exists>tx'. pn_send_to lib tx b dst = (tx', Some (Inr ()))"
    and start: "Pcap_init lib env ''lo'' = Ok i"
    and frames: "arriving (pcr_reader (if_reader i)) = frames @ later"
      "map (parse_packet env (Ether_t env) (PacketParser_new env)) frames = map (\<lambda>p. Some (Ok ([], p))) ps"
  shows "\<exists>r w bs. read_write_interface lib env (length ps) = Ok (r, w) \<and> valid_segment env (ascii ''hello world'') bs \<and>
    sent (pcw_writer (iw_writer w)) = sent (pcw_writer (if_writer i)) @ replicate (length ps) bs"
proof -
  obtain p bs where p: "hello_packet env = Ok p" "Packet_to_bytes env p = Ok bs"
      "valid_segment env (ascii ''hello world'') bs"
    using hello_packet_ok [OF env] by blast
  have replies: "answers (\<lambda>pkt. omap (\<lambda>p. Some (p, unwrap_msg)) (hello_packet env)) ps = replicate (length ps) p"
    by (induction ps) (simp_all add: p(1))
  obtain rx tx where split: "Interface_into_split i = (rx, tx)" "ir_reader rx = if_reader i" "iw_writer tx = if_writer i"
    by (simp add: Interface_into_split_def)
  from pnet_laws.opened_pending [OF laws start frames] split(2) have
      "map (frame_result env (pcr_packet_parser (ir_reader rx))) (arriving (pcr_reader (ir_reader rx)))
        = map Ok ps @ map (frame_result env (PacketParser_new env)) later"
    by simp
  from packet_server.serve_stream [OF hello_server [OF env laws sends] this, of tx] obtain r w datas where
      "serve_loop (InterfaceReader_next (PcapReader_read lib env)) (InterfaceWriter_write (PcapWriter_write lib env))
        (\<lambda>pkt. omap (\<lambda>p. Some (p, unwrap_msg)) (hello_packet env)) (length ps) rx tx = ((r, w), Ok ())"
      "map (Packet_to_bytes env) (replicate (length ps) p) = map Ok datas"
      "sent (pcw_writer (iw_writer w)) = sent (pcw_writer (iw_writer tx)) @ datas"
    unfolding replies by blast
  note served = this
  from served(2) have "map Ok datas = (map Ok (replicate (length ps) bs) :: (PacketError, bytes) outcome list)"
    by (simp add: p(2))
  moreover have "inj (Ok :: bytes \<Rightarrow> (PacketError, bytes) outcome)" by (simp add: inj_def)
  ultimately have "datas = replicate (length ps) bs" using inj_map_eq_map by blast
  with served(1,3) start split p(3) show ?thesis
    by (auto simp: read_write_interface_def Interface_init_def)
qed

text \<open>A library whose interface is the loopback.\<close>

definition lo_pnet :: "bytes list \<Rightarrow> (bytes list, bytes list, string) pnet_lib" where
  "lo_pnet wire = (mem_pnet wire)\<lparr>pn_interfaces := [mem_nic\<lparr>ni_name := ''lo''\<rparr>]\<rparr>"

interpretation lo_net: pnet_laws "lo_pnet wire" "\<lambda>tx. tx" "\<lambda>rx. rx" for wire
  by unfold_locales (auto simp: lo_pnet_def mem_pnet_def split: list.splits)

end
