(* ===== verification/Pcap_Copy.thy ===== *)
theory Pcap_Copy
  imports Pcap_File Command_Line
begin

text \<open>
  \<open>examples/read_write_pcap.rs\<close>: decode every packet of a capture file and write it to another.  The messages
  printed are not modelled.  The loop over the reader has fuel; \<open>None\<close> means that it ran out of it.
\<close>

fun copy_loop ::
    "('s \<Rightarrow> 's \<times> (unit, 'c Packet option) outcome) \<Rightarrow> (nat \<Rightarrow> ('w, 'c, 'io) packet_write) \<Rightarrow> nat \<Rightarrow> 's \<Rightarrow> 'w \<Rightarrow> nat \<Rightarrow>
      (unit, 'w \<times> nat) outcome option" where
  "copy_loop nxt wr 0 reader writer packet_count = None"
| "copy_loop nxt wr (Suc fuel) reader writer packet_count =
     (case nxt reader of (reader, item) \<Rightarrow>
      (case item of
         Ok None \<Rightarrow> Some (Ok (writer, packet_count))
       | Ok (Some packet) \<Rightarrow>
           let packet_count = packet_count + 1 in
           (case wr packet_count writer packet of (writer, written) \<Rightarrow>
            (case expect_ok ''failed to write packet'' written of
               Ok _ \<Rightarrow> copy_loop nxt wr fuel reader writer packet_count
             | Err e \<Rightarrow> Some (Err e)
             | Panic m \<Rightarrow> Some (Panic m)
             | Diverge \<Rightarrow> Some Diverge))
       | Err e \<Rightarrow> Some (Err e)
       | Panic m \<Rightarrow> Some (Panic m)
       | Diverge \<Rightarrow> Some Diverge))"

text \<open>\<open>clock k\<close> is the time the \<open>k\<close>-th write reads.\<close>

definition read_write_pcap ::
    "('file, 'rd, 'wr, 'io) pcap_lib \<Rightarrow> 'c env \<Rightarrow> (string \<Rightarrow> 'io + string) \<Rightarrow> (nat \<Rightarrow> string + nat) \<Rightarrow> nat \<Rightarrow>
      string list \<Rightarrow> (unit, ('wr PcapFileWriter InterfaceWriter \<times> nat) exit) outcome option" where
  "read_write_pcap lib env canonicalize clock fuel args =
     (case args of
        [program, input, output] \<Rightarrow>
          (case expect_ok ''failed to resolve input PCAP path'' (of_result (canonicalize input)) of
             Ok input_path \<Rightarrow>
               if canonicalize output = Inr input_path then Some (Ok (Exit 2))
               else (case expect_ok ''failed to open input PCAP'' (InterfaceReader_init (PcapFile_read_init lib env) input) of
                  Ok reader \<Rightarrow>
                    (case expect_ok ''failed to create output PCAP'' (InterfaceWriter_init (PcapFile_write_init lib) output) of
                       Ok writer \<Rightarrow>
                         map_option (omap Done) (copy_loop (InterfaceReader_next (PcapFileReader_read lib))
                           (\<lambda>k. InterfaceWriter_write (PcapFileWriter_write lib env (clock k))) fuel reader writer 0)
                     | Err e \<Rightarrow> Some (Err e) | Panic m \<Rightarrow> Some (Panic m) | Diverge \<Rightarrow> Some Diverge)
                | Err e \<Rightarrow> Some (Err e) | Panic m \<Rightarrow> Some (Panic m) | Diverge \<Rightarrow> Some Diverge)
           | Err e \<Rightarrow> Some (Err e) | Panic m \<Rightarrow> Some (Panic m) | Diverge \<Rightarrow> Some Diverge)
      | _ \<Rightarrow> Some (Ok (Exit 2)))"

section \<open>Copying\<close>

text \<open>The records that the default parser takes as Ethernet frames.\<close>

definition decodes :: "'c env \<Rightarrow> bytes \<Rightarrow> bool" where
  "decodes env d \<longleftrightarrow> (case parse_packet env (Ether_t env) (PacketParser_new env) d of Some (Ok _) \<Rightarrow> True | _ \<Rightarrow> False)"

definition ether_reader :: "'c env \<Rightarrow> ('c, 'rd) PcapFileReader \<Rightarrow> bool" where
  "ether_reader env r \<longleftrightarrow> fr_packet_parser r = PacketParser_new env \<and>
     fr_parser_fn r = (\<lambda>pp i. of_run (parse_packet env (Ether_t env) pp i))"

lemma ether_reader_record:
  assumes "packet_env env" and "ether_reader env r"
  shows "if decodes env d then \<exists>p. parse_record r d = Ok p \<and> Packet_to_bytes env p = Ok d else \<exists>e. parse_record r d = Err e"
proof -
  from frame_parse_lossless [OF assms(1), of d] obtain res where
      res: "parse_packet env (Ether_t env) (PacketParser_new env) d = Some res"
      and sound: "case res of Ok (rest, pkt) \<Rightarrow> rest = [] \<and> Packet_to_bytes env pkt = Ok d \<and>
         (\<exists>e ls. pkt_layers pkt = LEther e # ls \<and> length ls \<le> 3 \<and> linked env (LEther e # ls))
       | Err e \<Rightarrow> True | _ \<Rightarrow> False"
    by blast
  then show ?thesis
    using assms(2) by (cases res) (auto simp: decodes_def parse_record_def ether_reader_def)
qed

text \<open>
  Why a write of the record \<open>d\<close> fails: it is too long for the length field, the clock is before 1970, or the library
  reports an error.
\<close>

definition write_fails ::
    "('file, 'rd, 'wr, 'io) pcap_lib \<Rightarrow> string + nat \<Rightarrow> 'wr \<Rightarrow> bytes \<Rightarrow> bool" where
  "write_fails lib now v d \<longleftrightarrow> 2 ^ 32 \<le> length d \<or> (\<exists>e. now = Inl e) \<or>
     (\<exists>t v' e. now = Inr t \<and> pl_write_packet lib v
        \<lparr>cap_timestamp = t, cap_orig_len = word_of_nat (length d), cap_data = d\<rparr> = (v', Inl e))"

text \<open>What copying the records \<open>ds\<close> to \<open>w\<close> comes to, after \<open>count\<close> packets.\<close>

definition copy_result ::
    "('file, 'rd, 'wr, 'io) pcap_lib \<Rightarrow> ('wr \<Rightarrow> bytes list) \<Rightarrow> (nat \<Rightarrow> string + nat) \<Rightarrow> 'wr PcapFileWriter InterfaceWriter \<Rightarrow>
      nat \<Rightarrow> bytes list \<Rightarrow> (unit, 'wr PcapFileWriter InterfaceWriter \<times> nat) outcome \<Rightarrow> bool" where
  "copy_result lib written clock w count ds r \<longleftrightarrow> (case r of
     Ok (w', n) \<Rightarrow> n = count + length ds \<and> written (fw_writer (iw_writer w')) = written (fw_writer (iw_writer w)) @ ds
   | Panic m \<Rightarrow> m = ''failed to write packet'' \<and> (\<exists>k v. k < length ds \<and>
       written v = written (fw_writer (iw_writer w)) @ take k ds \<and> write_fails lib (clock (count + k + 1)) v (ds ! k))
   | _ \<Rightarrow> False)"

lemma copy_result_failed:
  assumes "write_fails lib (clock (count + 1)) (fw_writer (iw_writer w)) d"
  shows "copy_result lib written clock w count (d # ds) (Panic ''failed to write packet'')"
  unfolding copy_result_def outcome.case using assms by (intro conjI refl exI [where x = 0] exI [where x = "fw_writer (iw_writer w)"]) simp_all

lemma copy_result_Cons:
  assumes "written (fw_writer (iw_writer w1)) = written (fw_writer (iw_writer w)) @ [d]"
    and "copy_result lib written clock w1 (count + 1) ds r"
  shows "copy_result lib written clock w count (d # ds) r"
proof (cases r)
  case (Panic m)
  with assms obtain k v where "k < length ds" "m = ''failed to write packet''"
      "written v = written (fw_writer (iw_writer w)) @ d # take k ds" "write_fails lib (clock (count + 1 + k + 1)) v (ds ! k)"
    by (auto simp: copy_result_def)
  then show ?thesis
    unfolding copy_result_def Panic outcome.case by (intro conjI exI [where x = "Suc k"] exI [where x = v]) simp_all
qed (use assms in \<open>auto simp: copy_result_def\<close>)

context pcap_file_laws
begin

text \<open>The iterator does not tell the end of the file from damage.\<close>

lemma next_at_end:
  assumes "unread (fr_reader (ir_reader s)) = []"
  shows "\<exists>s'. InterfaceReader_next (PcapFileReader_read lib) s = (s', Ok None)"
  using next_eof [OF assms] next_damage [OF assms]
  by (cases "damage (fr_reader (ir_reader s))") (auto simp: InterfaceReader_next_def PcapFileReader_read_def)

lemma next_at_record:
  fixes env :: "'c env"
  assumes "unread (fr_reader (ir_reader s)) = d # ds" and "ether_reader env (ir_reader s)"
  shows "\<exists>s'. InterfaceReader_next (PcapFileReader_read lib) s = (s', result_ok (parse_record (ir_reader s) d :: ('io DataLinkError, 'c Packet) outcome)) \<and>
    unread (fr_reader (ir_reader s')) = ds \<and> ether_reader env (ir_reader s')"
  using next_record [OF assms(1)] assms(2)
  by (auto simp: InterfaceReader_next_def PcapFileReader_read_def ether_reader_def parse_record_def)

text \<open>A write puts out the record, or fails for a reason.\<close>

lemma write_outcome:
  assumes "Packet_to_bytes env p = Ok d"
  shows "(\<exists>w'. InterfaceWriter_write (PcapFileWriter_write lib env now) w p = (w', Ok ()) \<and>
      written (fw_writer (iw_writer w')) = written (fw_writer (iw_writer w)) @ [d]) \<or>
    (\<exists>w' e. InterfaceWriter_write (PcapFileWriter_write lib env now) w p = (w', Err e) \<and> write_fails lib now (fw_writer (iw_writer w)) d)"
proof (cases "write_fails lib now (fw_writer (iw_writer w)) d")
  case True
  then show ?thesis
    using assms by (cases now)
      (auto simp: write_fails_def InterfaceWriter_write_def PcapFileWriter_write_def u32_try_from_def)
next
  case False
  then obtain t where t: "now = Inr t" and len: "length d < 2 ^ 32" by (cases now) (auto simp: write_fails_def)
  obtain v res where v: "pl_write_packet lib (fw_writer (iw_writer w))
      \<lparr>cap_timestamp = t, cap_orig_len = word_of_nat (length d), cap_data = d\<rparr> = (v, res)" by fastforce
  with False t have res: "res = Inr ()" by (cases res) (auto simp: write_fails_def)
  with assms t len v write_appends [OF v [unfolded res]] show ?thesis
    by (simp add: InterfaceWriter_write_def PcapFileWriter_write_def u32_try_from_def)
qed

lemma copy_loop_outcome:
  fixes env :: "'c env"
  assumes env: "packet_env env" and reader: "ether_reader env (ir_reader s)"
    and fuel: "length (unread (fr_reader (ir_reader s))) < fuel"
  shows "\<exists>r. copy_loop (InterfaceReader_next (PcapFileReader_read lib))
      (\<lambda>k. InterfaceWriter_write (PcapFileWriter_write lib env (clock k))) fuel s w count = Some r \<and>
    copy_result lib written clock w count (takeWhile (decodes env) (unread (fr_reader (ir_reader s)))) r"
  using reader fuel
proof (induction "unread (fr_reader (ir_reader s))" arbitrary: s w fuel count)
  case Nil
  then obtain n where fuel: "fuel = Suc n" by (cases fuel) auto
  obtain s' where "InterfaceReader_next (PcapFileReader_read lib) s = (s', Ok None)"
    using next_at_end [of s] Nil.hyps by auto
  with Nil.hyps [symmetric] show ?case by (simp add: fuel copy_result_def)
next
  case (Cons d ds)
  from Cons.prems(2) obtain n where fuel: "fuel = Suc n" by (cases fuel) auto
  from next_at_record [OF Cons.hyps(2) [symmetric] Cons.prems(1)] obtain s' where
      s': "InterfaceReader_next (PcapFileReader_read lib) s
          = (s', result_ok (parse_record (ir_reader s) d :: ('io DataLinkError, 'c Packet) outcome))"
        "unread (fr_reader (ir_reader s')) = ds" "ether_reader env (ir_reader s')"
    by blast
  have fuel': "length (unread (fr_reader (ir_reader s'))) < n"
    using Cons.prems(2) s'(2) fuel unfolding Cons.hyps(2) [symmetric] by simp
  show ?case
  proof (cases "decodes env d")
    case True
    then obtain p where p: "parse_record (ir_reader s) d = (Ok p :: ('io DataLinkError, 'c Packet) outcome)"
        "Packet_to_bytes env p = Ok d"
      using ether_reader_record [OF env Cons.prems(1), of d] by auto
    consider (written) w1 where
        "InterfaceWriter_write (PcapFileWriter_write lib env (clock (count + 1))) w p = (w1, Ok ())"
        "written (fw_writer (iw_writer w1)) = written (fw_writer (iw_writer w)) @ [d]"
      | (failed) w1 e where
        "InterfaceWriter_write (PcapFileWriter_write lib env (clock (count + 1))) w p = (w1, Err e)"
        "write_fails lib (clock (count + 1)) (fw_writer (iw_writer w)) d"
      using write_outcome [OF p(2), of "clock (count + 1)" w] by blast
    then show ?thesis
    proof cases
      case written
      from Cons.hyps(1) [OF s'(2) [symmetric] s'(3) fuel', of w1 "count + 1"] copy_result_Cons [OF written(2)] True p(1) written s'
      show ?thesis unfolding Cons.hyps(2) [symmetric] by (simp add: fuel) blast
    next
      case failed
      from failed(2) have "copy_result lib written clock w count (d # takeWhile (decodes env) ds) (Panic ''failed to write packet'')"
        by (rule copy_result_failed)
      with failed True p(1) s'(1) show ?thesis unfolding Cons.hyps(2) [symmetric] by (simp add: fuel)
    qed
  next
    case False
    then obtain e where "parse_record (ir_reader s) d = (Err e :: ('io DataLinkError, 'c Packet) outcome)"
      using ether_reader_record [OF env Cons.prems(1), of d] by auto
    with False s'(1) show ?thesis
      unfolding Cons.hyps(2) [symmetric] by (simp add: fuel copy_result_def)
  qed
qed

end

section \<open>Properties\<close>

text \<open>
  (C21) Once both capture files are open and the input holds Ethernet frames, copying ends, with as many rounds as the
  input has readable records and one more.  If the paths are the same the program exits with code 2 and writes
  nothing.  Otherwise the output holds exactly the records of the input up to the first one that does not decode
  (or the end, or where the file is damaged), byte for byte and in order, and the count reported is their number: the
  rest is dropped without an error.  The only other outcome is the panic of a failed write, and then the record it
  failed on is too long, the clock is before 1970 or the library reported an error, and all records before it
  were written.
\<close>

theorem read_write_pcap_copies:
  assumes env: "packet_env env" and laws: "pcap_file_laws lib stored written unread damage"
    and paths: "canonicalize input = Inr input_path"
    and reader: "pl_open lib input = Inr file" "pl_reader_new lib file = Inr r" "pl_datalink lib r = ETHERNET"
    and writer: "pl_create lib out_file = Inr file'" "pl_writer_new lib file' = Inr w"
    and fuel: "length (stored file) < fuel"
  shows "\<exists>res. read_write_pcap lib env canonicalize clock fuel [program, input, out_file] = Some res \<and>
    (let copied = takeWhile (decodes env) (stored file) in
     if canonicalize out_file = Inr input_path then res = Ok (Exit 2)
     else case res of
       Ok (Done (w', n)) \<Rightarrow> n = length copied \<and> written (fw_writer (iw_writer w')) = copied
     | Panic m \<Rightarrow> m = ''failed to write packet'' \<and> (\<exists>k v. k < length copied \<and> written v = take k copied \<and>
         (2 ^ 32 \<le> length (copied ! k) \<or> (\<exists>e. clock (k + 1) = Inl e) \<or>
          (\<exists>t v' e. clock (k + 1) = Inr t \<and> pl_write_packet lib v
            \<lparr>cap_timestamp = t, cap_orig_len = word_of_nat (length (copied ! k)), cap_data = copied ! k\<rparr> = (v', Inl e))))
     | _ \<Rightarrow> False)"
proof (cases "canonicalize out_file = Inr input_path")
  case False
  let ?s = "\<lparr>ir_reader = \<lparr>fr_packet_parser = PacketParser_new env, fr_reader = r,
      fr_parser_fn = (\<lambda>packet_parser i. of_run (parse_packet env (Ether_t env) packet_parser i))\<rparr>,
    ir_metadata = \<lparr>md_mac_address = None\<rparr>\<rparr>"
  let ?w = "\<lparr>iw_writer = \<lparr>fw_writer = w\<rparr>, iw_metadata = \<lparr>md_mac_address = None\<rparr>\<rparr>"
  let ?copied = "takeWhile (decodes env) (stored file)"
  have run: "read_write_pcap lib env canonicalize clock fuel [program, input, out_file]
      = map_option (omap Done) (copy_loop (InterfaceReader_next (PcapFileReader_read lib))
          (\<lambda>k. InterfaceWriter_write (PcapFileWriter_write lib env (clock k))) fuel ?s ?w 0)"
    using False paths reader writer
    by (simp add: read_write_pcap_def InterfaceReader_init_def InterfaceWriter_init_def PcapFile_read_init_def
        PcapFile_read_init_with_parser_def PcapFile_write_init_def)
  have start: "unread r = stored file" "written w = []"
    using pcap_file_laws.reader_start [OF laws reader(2)] pcap_file_laws.writer_empty [OF laws writer(2)] .
  have pre: "ether_reader env (ir_reader ?s)" "length (unread (fr_reader (ir_reader ?s))) < fuel"
    using start fuel by (simp_all add: ether_reader_def)
  from pcap_file_laws.copy_loop_outcome [OF laws env pre, of clock ?w 0] obtain q where
      q: "copy_loop (InterfaceReader_next (PcapFileReader_read lib))
          (\<lambda>k. InterfaceWriter_write (PcapFileWriter_write lib env (clock k))) fuel ?s ?w 0 = Some q"
      and "copy_result lib written clock ?w 0 (takeWhile (decodes env) (stored file)) q"
    unfolding InterfaceReader.simps PcapFileReader.simps start by blast
  with start(2) have "case q of
       Ok (w', n) \<Rightarrow> n = length ?copied \<and> written (fw_writer (iw_writer w')) = ?copied
     | Panic m \<Rightarrow> m = ''failed to write packet'' \<and> (\<exists>k v. k < length ?copied \<and> written v = take k ?copied \<and>
         write_fails lib (clock (k + 1)) v (?copied ! k))
     | _ \<Rightarrow> False"
    by (cases q) (auto simp: copy_result_def)
  with run q False show ?thesis
    unfolding Let_def unfolding write_fails_def [symmetric] by (cases q) auto
qed (use paths in \<open>simp add: read_write_pcap_def\<close>)

theorem read_write_pcap_copies_witness:
  "\<exists>b w'. decodes dev_env b \<and>
     read_write_pcap (mem_pcap [b, []]) dev_env (\<lambda>p. Inr p) (\<lambda>k. Inr k) 3 [''read_write_pcap'', ''in.pcap'', ''out.pcap''] = Some (Ok (Done (w', 1))) \<and>
     fw_writer (iw_writer w') = [b]"
proof -
  obtain b where b: "Packet_to_bytes dev_env ether_packet = Ok b" "length b = 14"
    using ether_packet_bytes by blast
  have dec: "decodes dev_env b"
    using frame_wf_reparse [OF dev_packets.packet_env_axioms ether_packet_wf] b(1) by (auto simp: decodes_def)
  have "\<not> decodes dev_env []"
    using frame_parse_lossless [OF dev_packets.packet_env_axioms, of "[]"] by (auto simp: decodes_def)
  with dec have records: "takeWhile (decodes dev_env) [b, []] = [b]" by simp
  have lib: "pl_open (mem_pcap [b, []]) ''in.pcap'' = Inr [b, []]" "pl_reader_new (mem_pcap [b, []]) [b, []] = Inr [b, []]"
      "pl_datalink (mem_pcap [b, []]) [b, []] = ETHERNET" "pl_create (mem_pcap [b, []]) ''out.pcap'' = Inr []"
      "pl_writer_new (mem_pcap [b, []]) [] = Inr []" "\<And>w rec w' e. pl_write_packet (mem_pcap [b, []]) w rec \<noteq> (w', Inl e)"
    by (simp_all add: mem_pcap_def)
  have sizes: "length b < 2 ^ 32" "length [b, []] < (3 :: nat)" using b(2) by simp_all
  from read_write_pcap_copies [where canonicalize = Inr and input = "''in.pcap''" and input_path = "''in.pcap''" and
      clock = Inr and out_file = "''out.pcap''" and fuel = 3 and program = "''read_write_pcap''",
      OF dev_packets.packet_env_axioms mem.pcap_file_laws_axioms refl lib(1-5) sizes(2), unfolded records Let_def] obtain res where
      run: "read_write_pcap (mem_pcap [b, []]) dev_env Inr Inr 3 [''read_write_pcap'', ''in.pcap'', ''out.pcap''] = Some res"
      and res: "case res of
         Ok (Done (w', n)) \<Rightarrow> n = length [b] \<and> fw_writer (iw_writer w') = [b]
       | Panic m \<Rightarrow> m = ''failed to write packet'' \<and> (\<exists>k v. k < length [b] \<and> v = take k [b] \<and>
           (2 ^ 32 \<le> length ([b] ! k) \<or> (\<exists>e. (Inr (k + 1) :: string + nat) = Inl e) \<or>
            (\<exists>t v' e. (Inr (k + 1) :: string + nat) = Inr t \<and> pl_write_packet (mem_pcap [b, []]) v
              \<lparr>cap_timestamp = t, cap_orig_len = word_of_nat (length ([b] ! k)), cap_data = [b] ! k\<rparr> = (v', Inl e))))
       | _ \<Rightarrow> False"
    by auto
  from res sizes(1) lib(6) have "\<exists>w'. res = Ok (Done (w', 1)) \<and> fw_writer (iw_writer w') = [b]"
    by (cases res) (auto split: exit.splits)
  with run dec show ?thesis by auto
qed

end
