(* ===== verification/Codec_Tests.thy ===== *)
theory Codec_Tests
  imports Layers Assertions
begin

text \<open>
  The unit tests of the parsers and serialisers at the end of the files of \<open>src/layer\<close>, on the byte strings of the
  tests, run on the model: a test passes when it is \<open>Ok ()\<close>.  They pass for every deku that keeps its laws.
\<close>

section \<open>Reading and writing a value\<close>

text \<open>
  \<open>TryFrom<&[u8]>\<close> is derived by deku and not part of the repository: a parameter of the tests, of which they need
  that it returns the value \<open>from_bytes\<close> reads when nothing is left over, and fails with its error.
\<close>

definition try_from_agrees :: "'a reader \<Rightarrow> (bytes \<Rightarrow> (DekuError, 'a) outcome) \<Rightarrow> bool" where
  "try_from_agrees from_bytes try_from \<longleftrightarrow> (\<forall>input.
     (\<forall>v. from_bytes (input, 0) = Ok (([], 0), v) \<longrightarrow> try_from input = Ok v) \<and>
     (\<forall>e. from_bytes (input, 0) = Err e \<longrightarrow> try_from input = Err e))"

definition rw_test ::
    "(bytes \<Rightarrow> (DekuError, 'a) outcome) \<Rightarrow> ('a \<Rightarrow> (LayerError, bytes) outcome) \<Rightarrow> bytes \<times> 'a \<Rightarrow> (unit, unit) outcome" where
  "rw_test try_from ser = (\<lambda>(input, expected).
     obind (unwrap (try_from input)) (\<lambda>ret_read.
     obind (assert_eq expected ret_read) (\<lambda>_.
     obind (unwrap (ser ret_read)) (\<lambda>ret_write.
     assert_eq input ret_write))))"

definition from_bytes_test :: "deku \<Rightarrow> 'a reader \<Rightarrow> 'a writer \<Rightarrow> bytes \<times> 'a \<Rightarrow> (unit, unit) outcome" where
  "from_bytes_test D from_bytes wr = (\<lambda>(input, expected).
     obind (unwrap (from_bytes (input, 0))) (\<lambda>(rest, ret_read).
     obind (assert_eq expected ret_read) (\<lambda>_.
     obind (unwrap (container_to_bytes D wr ret_read)) (\<lambda>ret_write.
     assert_eq input ret_write))))"

section \<open>The tests\<close>

subsection \<open>Ethernet\<close>

definition test_macaddress_rw :: "deku \<Rightarrow> (unit, unit) outcome" where
  "test_macaddress_rw D = for_each
     [([0xAA, 0xFF, 0xFF, 0xFF, 0xFF, 0xBB], MacAddress 0xAA 0xFF 0xFF 0xFF 0xFF 0xBB)]
     (from_bytes_test D (MacAddress_read D) (MacAddress_write D))"

definition test_macaddress_default :: "(unit, unit) outcome" where
  "test_macaddress_default = assert_eq (MacAddress 0 0 0 0 0 0) MacAddress_default"

definition test_ethertype_rw :: "deku \<Rightarrow> (unit, unit) outcome" where
  "test_ethertype_rw D = from_bytes_test D (EtherType_read D) (EtherType_write D) ([0x86, 0xDD], EtherType.IPv6)"

definition test_unknown_ethertype_rw :: "deku \<Rightarrow> (unit, unit) outcome" where
  "test_unknown_ethertype_rw D =
     from_bytes_test D (EtherType_read D) (EtherType_write D) ([0x90, 0x00], EtherType.Unknown 0x9000)"

definition test_ethertype_default :: "(unit, unit) outcome" where
  "test_ethertype_default = assert_eq EtherType.IPv4 EtherType_default"

definition test_ether_rw :: "deku \<Rightarrow> (bytes \<Rightarrow> (DekuError, Ether) outcome) \<Rightarrow> (unit, unit) outcome" where
  "test_ether_rw D try_from = for_each
     [([0xfe, 0xff, 0x20, 0x00, 0x01, 0x00, 0x00, 0x00, 0x01, 0x00, 0x00, 0x00, 0x08, 0x00],
       \<lparr>ether_dst = MacAddress 0xfe 0xff 0x20 0x00 0x01 0x00, ether_src = MacAddress 0x00 0x00 0x01 0x00 0x00 0x00,
        ether_type = EtherType.IPv4\<rparr>)]
     (rw_test try_from (Ether_to_bytes D))"

definition test_ether_default :: "(unit, unit) outcome" where
  "test_ether_default = assert_eq
     \<lparr>ether_dst = MacAddress 0 0 0 0 0 0, ether_src = MacAddress 0 0 0 0 0 0, ether_type = EtherType.IPv4\<rparr> Ether_default"

subsection \<open>IP\<close>

definition test_checksum :: "platform \<Rightarrow> (unit, unit) outcome" where
  "test_checksum pf = for_each
     [([0x45, 0x00, 0x00, 0x73, 0x00, 0x00, 0x40, 0x00, 0x40, 0x11, 0x00, 0x00, 0xc0, 0xa8, 0x00, 0x01, 0xc0,
       0xa8, 0x00, 0xc7], 0xB861),
      ([0x45, 0x00, 0x00, 0x73, 0x00, 0x00, 0x40, 0x00, 0x40, 0x11, 0xB8, 0x61, 0xc0, 0xa8, 0x00, 0x01, 0xc0,
       0xa8, 0x00, 0xc7], 0x0000),
      ([0x45, 0x00, 0x00, 0x73, 0x00, 0x00, 0x40, 0x00, 0x40, 0x11, 0x00, 0x00, 0xc0, 0xa8, 0x00, 0x01, 0xc0,
       0xa8, 0x00, 0xc7, 0xaa], 0x0E61),
      ([0x45, 0x00, 0x00, 0x73, 0x00, 0x00, 0x40, 0x00, 0x40, 0x11, 0x0E, 0x61, 0xc0, 0xa8, 0x00, 0x01, 0xc0,
       0xa8, 0x00, 0xc7, 0xaa], 0x0000)]
     (\<lambda>(input, expected). obind (checksum pf input) (\<lambda>chksum. assert_eq expected chksum))"

definition test_ipprotocol_rw :: "deku \<Rightarrow> (unit, unit) outcome" where
  "test_ipprotocol_rw D = from_bytes_test D (IpProtocol_read D) (IpProtocol_write D) ([0x06], TCP)"

definition test_ipprotocol_default :: "(unit, unit) outcome" where
  "test_ipprotocol_default = assert_eq TCP IpProtocol_default"

definition ipv4_rw_cases :: "(bytes \<times> Ipv4) list" where
  "ipv4_rw_cases =
     [([0x45, 0x00, 0x00, 0x4b, 0x0f, 0x49, 0x00, 0x00, 0x80, 0x11, 0x63, 0xa5, 0x91, 0xfe, 0xa0, 0xed, 0x91,
       0xfd, 0x02, 0xcb],
       \<lparr>ip4_version = 4, ip4_ihl = 5, ip4_dscp = 0, ip4_ecn = 0, ip4_length = 75, ip4_identification = 0x0f49,
        ip4_flags = 0, ip4_offset = 0, ip4_ttl = 128, ip4_protocol = UDP, ip4_checksum = 0x63a5,
        ip4_src = 0x91FEA0ED, ip4_dst = 0x91FD02CB, ip4_options = []\<rparr>),
      ([0x4f, 0x00, 0x00, 0x7c, 0x00, 0x00, 0x40, 0x00, 0x40, 0x01, 0xfd, 0x30, 0x7f, 0x00, 0x00, 0x01, 0x7f,
       0x00, 0x00, 0x01, 0x86, 0x28, 0x00, 0x00, 0x00, 0x01, 0x01, 0x22, 0x00, 0x01, 0xae, 0x00, 0x00, 0x00,
       0x00, 0x00, 0x00, 0x00, 0x00, 0x00, 0x00, 0x00, 0x00, 0x00, 0x00, 0x00, 0x00, 0x00, 0x00, 0x00, 0x00,
       0x00, 0x00, 0x00, 0x00, 0x00, 0x00, 0x00, 0x00, 0x01],
       \<lparr>ip4_version = 4, ip4_ihl = 15, ip4_dscp = 0, ip4_ecn = 0, ip4_length = 124, ip4_identification = 0,
        ip4_flags = 2, ip4_offset = 0, ip4_ttl = 64, ip4_protocol = ICMP, ip4_checksum = 0xfd30,
        ip4_src = 0x7F000001, ip4_dst = 0x7F000001,
        ip4_options = [\<lparr>opt_copied = 1, opt_class = Control, opt_option = Ipv4OptionType.Unknown 6 40
          [0, 0, 0, 1, 1, 34, 0, 1, 174, 0, 0, 0, 0, 0, 0, 0, 0, 0, 0, 0, 0, 0, 0, 0, 0, 0, 0, 0, 0, 0, 0, 0, 0, 0, 0, 0, 0, 1]\<rparr>]\<rparr>)]"

definition test_ipv4_rw :: "deku \<Rightarrow> (bytes \<Rightarrow> (DekuError, Ipv4) outcome) \<Rightarrow> (unit, unit) outcome" where
  "test_ipv4_rw D try_from = for_each ipv4_rw_cases (rw_test try_from (Ipv4_to_bytes D))"

definition test_ipv4_default :: "(unit, unit) outcome" where
  "test_ipv4_default = assert_eq
     \<lparr>ip4_version = 4, ip4_ihl = 5, ip4_dscp = 0, ip4_ecn = 0, ip4_length = 0, ip4_identification = 0,
      ip4_flags = 0, ip4_offset = 0, ip4_ttl = 0, ip4_protocol = TCP, ip4_checksum = 0x0000,
      ip4_src = 0x7F000001, ip4_dst = 0x7F000001, ip4_options = []\<rparr> Ipv4_default"

definition test_ipv6_rw :: "(bytes \<Rightarrow> (DekuError, Ipv6) outcome) \<Rightarrow> (unit, unit) outcome" where
  "test_ipv6_rw try_from = for_each
     [([0x60, 0x00, 0x00, 0x00, 0x01, 0x28, 0x67, 0x40, 0x3f, 0xfe, 0x80, 0x20, 0x00, 0x00, 0x00, 0x01, 0x02,
       0x60, 0x97, 0xff, 0xfe, 0x07, 0x69, 0xea, 0x3f, 0xfe, 0x05, 0x01, 0x00, 0x00, 0x1c, 0x01, 0x02, 0x00,
       0xf8, 0xff, 0xfe, 0x03, 0xd9, 0xc0],
       \<lparr>ip6_version = 6, ip6_ds = 0, ip6_ecn = 0, ip6_label = 0, ip6_length = 296, ip6_next_header = PIM,
        ip6_hop_limit = 64, ip6_src = 0x3ffe802000000001026097fffe0769ea,
        ip6_dst = 0x3ffe050100001c010200f8fffe03d9c0\<rparr>)]
     (\<lambda>(input, expected). obind (unwrap (try_from input)) (\<lambda>ipv6. assert_eq expected ipv6))"

definition test_ipv6_default :: "(unit, unit) outcome" where
  "test_ipv6_default = assert_eq
     \<lparr>ip6_version = 0, ip6_ds = 0, ip6_ecn = 0, ip6_label = 0, ip6_length = 0, ip6_next_header = IPV6NONXT,
      ip6_hop_limit = 0, ip6_src = 0xff000000000000000000000000000000,
      ip6_dst = 0xff000000000000000000000000000000\<rparr> Ipv6_default"

subsection \<open>ICMP, UDP and raw data\<close>

definition test_icmp_rw :: "deku \<Rightarrow> (bytes \<Rightarrow> (DekuError, Icmp4) outcome) \<Rightarrow> (unit, unit) outcome" where
  "test_icmp_rw D try_from = for_each
     [([0x08, 0x00, 0x15, 0x0d, 0x5f, 0x56, 0x00, 0x01, 0x02, 0x8e, 0x0a, 0x61, 0x00, 0x00, 0x00, 0x00, 0xac,
       0xd9, 0x0b, 0x00, 0x00, 0x00, 0x00, 0x00, 0x10, 0x11, 0x12, 0x13, 0x14, 0x15, 0x16, 0x17, 0x18, 0x19,
       0x1a, 0x1b, 0x1c, 0x1d, 0x1e, 0x1f, 0x20, 0x21, 0x22, 0x23, 0x24, 0x25, 0x26, 0x27, 0x28, 0x29, 0x2a,
       0x2b, 0x2c, 0x2d, 0x2e, 0x2f, 0x30, 0x31, 0x32, 0x33, 0x34, 0x35, 0x36, 0x37],
       \<lparr>icmp_type = EchoRequest, icmp_code = 0, icmp_checksum = 0x150d, icmp_message = 0x5f560001, icmp_data =
       [0x02, 0x8e, 0x0a, 0x61, 0x00, 0x00, 0x00, 0x00, 0xac, 0xd9, 0x0b, 0x00, 0x00, 0x00, 0x00, 0x00, 0x10,
       0x11, 0x12, 0x13, 0x14, 0x15, 0x16, 0x17, 0x18, 0x19, 0x1a, 0x1b, 0x1c, 0x1d, 0x1e, 0x1f, 0x20, 0x21,
       0x22, 0x23, 0x24, 0x25, 0x26, 0x27, 0x28, 0x29, 0x2a, 0x2b, 0x2c, 0x2d, 0x2e, 0x2f, 0x30, 0x31, 0x32,
       0x33, 0x34, 0x35, 0x36, 0x37]\<rparr>)]
     (rw_test try_from (Icmp4_to_bytes D))"

definition test_icmp_default :: "(unit, unit) outcome" where
  "test_icmp_default = assert_eq
     \<lparr>icmp_type = EchoReply, icmp_code = 0, icmp_checksum = 0, icmp_message = 0, icmp_data = []\<rparr> Icmp4_default"

definition test_udp_rw :: "deku \<Rightarrow> (bytes \<Rightarrow> (DekuError, Udp) outcome) \<Rightarrow> (unit, unit) outcome" where
  "test_udp_rw D try_from = for_each
     [([0xff, 0x02, 0xff, 0x35, 0x00, 0x29, 0x07, 0xa9],
       \<lparr>udp_sport = 65282, udp_dport = 65333, udp_length = 41, udp_checksum = 0x07a9\<rparr>)]
     (rw_test try_from (Udp_to_bytes D))"

definition test_udp_default :: "(unit, unit) outcome" where
  "test_udp_default = assert_eq \<lparr>udp_sport = 0, udp_dport = 0, udp_length = 0, udp_checksum = 0\<rparr> Udp_default"

definition test_raw_write :: "deku \<Rightarrow> (unit, unit) outcome" where
  "test_raw_write D =
     (let input = [0xAA, 0xBB]; layer = \<lparr>raw_data = input, raw_bit_offset = 0xFF\<rparr> in
      obind (unwrap (Raw_to_bytes D layer)) (\<lambda>ret_write. assert_eq input ret_write))"

definition test_raw_read :: "deku \<Rightarrow> (unit, unit) outcome" where
  "test_raw_read D =
     (let input = [0xAA, 0xBB] in
      obind (unwrap (Raw_read D (input, 0))) (\<lambda>(rest, layer).
      obind (assert_eq \<lparr>raw_data = input, raw_bit_offset = 0\<rparr> layer) (\<lambda>_.
      assert_eq (0, 0) (length (fst rest), snd rest))))"

definition test_raw_default :: "(unit, unit) outcome" where
  "test_raw_default = assert_eq \<lparr>raw_data = [], raw_bit_offset = 0\<rparr> Raw_default"

subsection \<open>TCP\<close>

definition tcp_option_cases :: "(bytes \<times> TcpOption) list" where
  "tcp_option_cases =
     [([0x00], TcpOption.EOL), ([0x01], TcpOption.NOP), ([0x02, 0x01, 0xBB, 0xAA], MSS 0x01 0xBBAA),
      ([0x03, 0x01, 0xAA], WScale 0x01 0xAA), ([0x04, 0x01], SAckOK 0x01),
      ([0x05, 0x0a, 0xe4, 0xd6, 0xc0, 0xf0, 0xe4, 0xd6, 0xcb, 0xa0], SAck 10 [\<lparr>sack_begin = 3839279344, sack_end = 3839282080\<rparr>]),
      ([0x08, 0x0a, 0xd3, 0x84, 0x58, 0x79, 0x40, 0x73, 0x37, 0xde], Timestamp 10 \<lparr>ts_start = 3548665977, ts_end = 1081292766\<rparr>)]"

definition tcp_option_test :: "deku \<Rightarrow> bytes \<times> TcpOption \<Rightarrow> (unit, unit) outcome" where
  "tcp_option_test D = (\<lambda>(input, expected).
     obind (unwrap (TcpOption_read D (input, 0))) (\<lambda>(rest, option). assert_eq expected option))"

text \<open>The message a test is to panic with is left out, as \<open>unwrap\<close> does not render the error.\<close>

definition test_tcp_option :: "deku \<Rightarrow> (unit, unit) outcome" where
  "test_tcp_option D =
     obind (for_each tcp_option_cases (tcp_option_test D)) (\<lambda>_.
     should_panic (tcp_option_test D ([0x05, 0x00, 0xe4, 0xd6, 0xc0, 0xf0, 0xe4, 0xd6, 0xcb, 0xa0], TcpOption.EOL)))"

definition sack_update_test :: "platform \<Rightarrow> deku \<Rightarrow> nat \<Rightarrow> (unit, unit) outcome" where
  "sack_update_test pf D sack_len =
     (let sack = SAck 0 (replicate sack_len \<lparr>sack_begin = 0, sack_end = 0\<rparr>) in
      case TcpOption_update pf D sack of (sack, updated) \<Rightarrow>
      obind (unwrap updated) (\<lambda>_.
      case sack of SAck len val \<Rightarrow> assert_eq (length val * 8 + 2) (unat len)
      | _ \<Rightarrow> Panic ''unreachable''))"

definition test_sack_update_overflow :: "platform \<Rightarrow> deku \<Rightarrow> (unit, unit) outcome" where
  "test_sack_update_overflow pf D =
     obind (sack_update_test pf D 31) (\<lambda>_. should_panic (sack_update_test pf D 32))"

definition tcp_rw_cases :: "(bytes \<times> Tcp) list" where
  "tcp_rw_cases =
     [([0x0d, 0x2c, 0x00, 0x50, 0x38, 0xaf, 0xfe, 0x14, 0x11, 0x4c, 0x61, 0x8c, 0x50, 0x18, 0x25, 0xbc, 0xa9,
       0x58, 0x00, 0x00],
       \<lparr>tcp_sport = 3372, tcp_dport = 80, tcp_seq = 951057940, tcp_ack = 290218380, tcp_offset = 5,
        tcp_flags = TcpFlags_default\<lparr>fl_ack := 1, fl_push := 1\<rparr>, tcp_window = 9660, tcp_checksum = 0xa958,
        tcp_urgptr = 0, tcp_options = []\<rparr>),
      ([0xc2, 0x13, 0x00, 0x50, 0x86, 0xee, 0xbc, 0x64, 0xe4, 0xd6, 0xbb, 0x98, 0xb0, 0x10, 0x00, 0xc4, 0x9a,
       0xfc, 0x00, 0x00, 0x01, 0x01, 0x08, 0x0a, 0xd3, 0x84, 0x58, 0x79, 0x40, 0x73, 0x37, 0xde, 0x01, 0x01,
       0x05, 0x0a, 0xe4, 0xd6, 0xc0, 0xf0, 0xe4, 0xd6, 0xcb, 0xa0],
       \<lparr>tcp_sport = 49683, tcp_dport = 80, tcp_seq = 2263792740, tcp_ack = 3839277976, tcp_offset = 11,
        tcp_flags = TcpFlags_default\<lparr>fl_ack := 1\<rparr>, tcp_window = 196, tcp_checksum = 0x9afc, tcp_urgptr = 0,
        tcp_options = [TcpOption.NOP, TcpOption.NOP,
          Timestamp 10 \<lparr>ts_start = 3548665977, ts_end = 1081292766\<rparr>, TcpOption.NOP, TcpOption.NOP,
          SAck 10 [\<lparr>sack_begin = 3839279344, sack_end = 3839282080\<rparr>]]\<rparr>)]"

definition tcp_bad_offset :: bytes where
  "tcp_bad_offset = [0x0d, 0x2c, 0x00, 0x50, 0x38, 0xaf, 0xfe, 0x14, 0x11, 0x4c, 0x61, 0x8c, 0x10, 0x18, 0x25, 0xbc, 0xa9,
       0x58, 0x00, 0x00]"

definition tcp_short_options :: bytes where
  "tcp_short_options = [0xff, 0xff, 0xff, 0xff, 0xff, 0xff, 0xff, 0xff, 0xff, 0xff, 0xff, 0xff, 0xff, 0xff, 0xff, 0xff, 0xff,
       0xff, 0xff, 0xff]"

text \<open>The errors whose rendering has the strings that the last two cases expect.\<close>

fun is_incomplete :: "DekuError \<Rightarrow> bool" where
  "is_incomplete (DIncomplete need) = True"
| "is_incomplete _ = False"

definition invalid_offset :: "DekuError \<Rightarrow> bool" where
  "invalid_offset e \<longleftrightarrow> e = DParse ''error: invalid tcp offset''"

definition test_tcp_rw :: "deku \<Rightarrow> (bytes \<Rightarrow> (DekuError, Tcp) outcome) \<Rightarrow> (unit, unit) outcome" where
  "test_tcp_rw D try_from =
     obind (for_each tcp_rw_cases (rw_test try_from (Tcp_to_bytes D))) (\<lambda>_.
     for_each [(tcp_bad_offset, Tcp_default, invalid_offset), (tcp_short_options, Tcp_default, is_incomplete)]
       (\<lambda>(input, expected, expected_error).
         obind (should_panic (rw_test try_from (Tcp_to_bytes D) (input, expected))) (\<lambda>_.
         fails_with expected_error (try_from input))))"

definition test_tcp_default :: "(unit, unit) outcome" where
  "test_tcp_default = assert_eq
     \<lparr>tcp_sport = 0, tcp_dport = 0, tcp_seq = 0, tcp_ack = 0, tcp_offset = 5, tcp_flags = TcpFlags_default,
      tcp_window = 0, tcp_checksum = 0, tcp_urgptr = 0, tcp_options = []\<rparr> Tcp_default"

subsection \<open>\<open>get_layer!\<close> and \<open>is_layer!\<close>\<close>

text \<open>Two types of layers declared by the tests of \<open>src/layer/mod.rs\<close>, numbered.\<close>

definition test_get_layer_macro :: "nat env \<Rightarrow> (unit, unit) outcome" where
  "test_get_layer_macro env =
     (let layer = LCustom 0 in
      obind (assert_that (get_custom env 0 layer \<noteq> None)) (\<lambda>_.
      assert_that (get_custom env 1 layer = None)))"

definition test_is_layer_macro :: "nat env \<Rightarrow> (unit, unit) outcome" where
  "test_is_layer_macro env =
     (let layer = LCustom 0 in
      obind (assert_that (is_layer env layer (TCustom 0))) (\<lambda>_.
      assert_that (\<not> is_layer env layer (TCustom 1))))"

section \<open>Evaluation\<close>

lemma bits_be_numeral [bits_simps]:
  "bits_be (numeral k) v = odd (v div 2 ^ pred_numeral k) # bits_be (pred_numeral k) v"
  by (simp add: numeral_eq_Suc)

lemmas eval_writers = wfield_def wdone_def write_uint_def bits_be_numeral byte_bits_def

context deku_laws
begin

lemma from_bytes_all:
  assumes "rereads S r w Q" and "S []" and "Q v" and "w v = Ok (bytes_bits input)"
  shows "r (input, 0) = Ok (([], 0), v)"
proof -
  from assms(1,3,4) have "r c = Ok (advance (8 * length input) c, v)"
    if "snd c < 8" "S t" "cbits c = bytes_bits input @ t" for c t
    using that unfolding rereads_def by (metis length_bytes_bits outcome.inject(1))
  from this [of "(input, 0)" "[]"] assms(2) show ?thesis
    by (simp add: advance_start)
qed

lemma to_bytes_all: "w v = Ok (bytes_bits input) \<Longrightarrow> to_bytes_with D w v = Ok input"
  using to_bytes_with_Ok [of w v "bytes_bits input"] by simp

lemma rw_test_Ok:
  assumes "rereads S r w Q" and "S []" and "try_from_agrees r try_from" and "Q v" and "w v = Ok (bytes_bits input)"
    and "\<And>v. ser v = to_bytes_with D w v"
  shows "rw_test try_from ser (input, v) = Ok ()"
  using from_bytes_all [OF assms(1,2,4,5)] to_bytes_all [of w v input] assms(3,5,6)
  by (simp add: rw_test_def try_from_agrees_def)

lemma from_bytes_test_Ok:
  assumes "rereads any_tail r w Q" and "Q v" and "w v = Ok (bytes_bits input)"
  shows "from_bytes_test D r w (input, v) = Ok ()"
  using from_bytes_all [OF assms(1) _ assms(2,3)] assms(3)
  by (simp add: from_bytes_test_def any_tail_def container_to_bytes_def finish_bytes)

lemma any_tail_Nil: "any_tail []" "no_tail []"
  by (simp_all add: any_tail_def no_tail_def)

lemma ether_tests_pass:
  assumes "try_from_agrees (Ether_read D) try_from"
  shows "test_macaddress_rw D = Ok ()" "test_ethertype_rw D = Ok ()" "test_unknown_ethertype_rw D = Ok ()"
    "test_ether_rw D try_from = Ok ()"
proof -
  show "test_macaddress_rw D = Ok ()"
    unfolding test_macaddress_rw_def for_each.simps
    by (subst from_bytes_test_Ok [OF rereads_MacAddress])
      (simp_all add: MacAddress_write_def eval_writers write_fits)
  show "test_ethertype_rw D = Ok ()"
    unfolding test_ethertype_rw_def
    by (rule from_bytes_test_Ok [OF rereads_EtherType])
      (simp_all add: EtherType_write_def EtherType_wf_def eval_writers write_fits)
  show "test_unknown_ethertype_rw D = Ok ()"
    unfolding test_unknown_ethertype_rw_def
    by (rule from_bytes_test_Ok [OF rereads_EtherType])
      (simp_all add: EtherType_write_def EtherType_wf_def EtherType_ids_def EtherType_ids1_def EtherType_ids2_def
        eval_writers write_fits)
  show "test_ether_rw D try_from = Ok ()"
    unfolding test_ether_rw_def for_each.simps
    by (subst rw_test_Ok [OF rereads_Ether any_tail_Nil(1) assms])
      (simp_all add: Ether_write_def MacAddress_write_def EtherType_write_def Ether_wf_def EtherType_wf_def
        eval_writers write_fits Ether_to_bytes_def)
qed

lemma ip_tests_pass:
  assumes "try_from_agrees (Ipv4_read D) try_from4" and "try_from_agrees (Ipv6_read D) try_from6"
  shows "test_ipprotocol_rw D = Ok ()" "test_ipv4_rw D try_from4 = Ok ()" "test_ipv6_rw try_from6 = Ok ()"
proof -
  show "test_ipprotocol_rw D = Ok ()"
    unfolding test_ipprotocol_rw_def
    by (rule from_bytes_test_Ok [OF rereads_IpProtocol])
      (simp_all add: IpProtocol_write_def IpProtocol_wf_def eval_writers write_fits)
  show "test_ipv4_rw D try_from4 = Ok ()"
    unfolding test_ipv4_rw_def for_each_Ok ipv4_rw_cases_def
    by (auto simp: Ipv4_write_def IpProtocol_write_def Ipv4_wf_def Ipv4_parsed_def IpProtocol_wf_def Ipv4Option_wf_def
        Ipv4Option_bits_def Ipv4Option_write_def Ipv4OptionClass_write_def Ipv4OptionType_write_def wapp_def
        eval_writers write_fits Ipv4_to_bytes_def intro!: rw_test_Ok [OF rereads_Ipv4 any_tail_Nil(1) assms(1)])
  let ?input = "[0x60, 0x00, 0x00, 0x00, 0x01, 0x28, 0x67, 0x40, 0x3f, 0xfe, 0x80, 0x20, 0x00, 0x00, 0x00, 0x01, 0x02,
       0x60, 0x97, 0xff, 0xfe, 0x07, 0x69, 0xea, 0x3f, 0xfe, 0x05, 0x01, 0x00, 0x00, 0x1c, 0x01, 0x02, 0x00,
       0xf8, 0xff, 0xfe, 0x03, 0xd9, 0xc0]" and
    ?v = "\<lparr>ip6_version = 6, ip6_ds = 0, ip6_ecn = 0, ip6_label = 0, ip6_length = 296, ip6_next_header = PIM,
        ip6_hop_limit = 64, ip6_src = 0x3ffe802000000001026097fffe0769ea,
        ip6_dst = 0x3ffe050100001c010200f8fffe03d9c0\<rparr>"
  have "Ipv6_read D (?input, 0) = Ok (([], 0), ?v)"
    by (rule from_bytes_all [OF rereads_Ipv6 any_tail_Nil(1)])
      (simp_all add: Ipv6_wf_def IpProtocol_wf_def Ipv6_write_def IpProtocol_write_def eval_writers write_fits)
  with assms(2) show "test_ipv6_rw try_from6 = Ok ()"
    by (simp add: test_ipv6_rw_def try_from_agrees_def)
qed

lemma icmp_udp_raw_tests_pass:
  assumes "try_from_agrees (Icmp4_read D) try_from1" and "try_from_agrees (Udp_read D) try_from2"
  shows "test_icmp_rw D try_from1 = Ok ()" "test_udp_rw D try_from2 = Ok ()"
    "test_raw_write D = Ok ()" "test_raw_read D = Ok ()"
proof -
  show "test_icmp_rw D try_from1 = Ok ()"
    unfolding test_icmp_rw_def for_each.simps
    by (subst rw_test_Ok [OF rereads_Icmp4 any_tail_Nil(2) assms(1)])
      (simp_all add: Icmp4_write_def IcmpType_write_def Icmp4_wf_def IcmpType_wf_def write_bytes eval_writers
        write_fits Icmp4_to_bytes_def)
  show "test_udp_rw D try_from2 = Ok ()"
    unfolding test_udp_rw_def for_each.simps
    by (subst rw_test_Ok [OF rereads_Udp any_tail_Nil(1) assms(2)])
      (simp_all add: Udp_write_def eval_writers write_fits Udp_to_bytes_def)
  show "test_raw_write D = Ok ()"
    by (simp add: test_raw_write_def Raw_to_bytes_eq)
  show "test_raw_read D = Ok ()"
    by (simp add: test_raw_read_def Raw_read_def rbind_def rret_def read_all_bytes)
qed

text \<open>A header whose options do not follow it is incomplete, and a selective acknowledgement shorter than 2 is rejected.\<close>

lemma Tcp_read_missing_options:
  assumes "length input = 20" and "5 < unat (input ! 12) div 16"
  shows "\<exists>need. Tcp_read D (input, 0) = Err (DIncomplete need)"
proof -
  let ?off = "word_of_nat (unat (input ! 12) div 16) :: u8"
  have "20 \<le> length input" using assms(1) by simp
  then obtain s d q a where hd: "Tcp_read D (input, 0) = Tcp_read_tail D s d q a ?off (advance 100 (input, 0))"
    using Tcp_read_head by blast
  have "unat (input ! 12) < 256" by simp
  then have less: "unat (input ! 12) div 16 < 16"
    by (simp add: less_mult_imp_div_less del: unat_less_width)
  then have off: "unat ?off = unat (input ! 12) div 16"
    by (intro unat_word_of_nat_small [where n = 4]) simp_all
  have five: "5 < unat ?off" and "unat ?off < 16"
    using off less assms(2) by simp_all
  then obtain n where n: "Tcp_options_bytes ?off = Some n" "unat n = 4 * (unat ?off - 5)"
    using Tcp_options_bytes_ex [of ?off] Tcp_options_bytes_Some [of ?off] by (meson less_imp_le)
  have opts: "rmin 8 (rbind (read_limit D (8 * unat n) (TcpOption_read D) 0) k)" for k :: "TcpOption list \<Rightarrow> Tcp reader"
    unfolding rmin_def
  proof (intro allI impI)
    fix c :: cursor assume c: "snd c < 8" "remaining c < 8"
    have "0 < 8 * unat n" using n(2) five by linarith
    then have "dk_limit D (8 * unat n) 0 = Continue" by (rule limit_below)
    moreover obtain need where "read_uint D 8 c = (Err (DIncomplete need) :: (DekuError, cursor \<times> u8) outcome)"
      using rfixed_short [OF rfixed_uint c] by blast
    then have "TcpOption_read D c = Err (DIncomplete need)"
      by (simp add: TcpOption_read_def rbind_def)
    ultimately show "\<exists>need. rbind (read_limit D (8 * unat n) (TcpOption_read D) 0) k c = Err (DIncomplete need)"
      by (subst rbind_def, subst read_limit.simps) simp
  qed
  have "rmin (12 + (16 + (16 + (16 + 8)))) (Tcp_read_tail D s d q a ?off)"
    unfolding Tcp_read_tail_def n(1) rtry_def option.case rbind_rret by (intro rfixed_intros opts)
  moreover have "remaining (advance 100 (input, 0)) < 12 + (16 + (16 + (16 + 8)))"
    using assms(1) by simp
  ultimately show ?thesis
    unfolding hd rmin_def using snd_advance by blast
qed

lemma parse_with_Err: "parse_with pf D r input = Err e \<Longrightarrow> \<exists>e. r (input, 0) = Err e"
  by (cases "r (input, 0)") (auto simp: parse_with_def debug_assert_def split: if_splits)

lemma TcpOption_read_short_sack:
  assumes "unat len < 2"
  shows "TcpOption_read D (5 # len # rest, 0) = Err (DParse ''overflow when parsing SAckData vec'')"
proof -
  have none: "sack_count len = None"
    using sack_count_ex [of len] assms by (cases "sack_count len") auto
  have "read_uint D 8 (5 # len # rest, 0) = Ok ((len # rest, 0), 5 :: u8)"
    "read_uint D 8 (len # rest, 0) = Ok ((rest, 0), len)"
    using advance_start [of 1] by (simp_all add: read_uint_enough byte_of_byte_bits)
  then show ?thesis
    by (simp add: TcpOption_read_def rbind_def none rtry_def rfail_def)
qed

lemma tcp_tests_pass:
  assumes "try_from_agrees (Tcp_read D) try_from" and "257 \<le> usize_max pf"
  shows "test_tcp_option D = Ok ()" "test_sack_update_overflow pf D = Ok ()" "test_tcp_rw D try_from = Ok ()"
proof -
  have "TcpOption_read D (input, 0) = Ok (([], 0), opt)" if "(input, opt) \<in> set tcp_option_cases" for input opt
    using that by (intro from_bytes_all [OF rereads_TcpOption any_tail_Nil(1)])
      (auto simp: tcp_option_cases_def TcpOption_write_def TcpOption_body_def SAckData_write_def TimestampData_write_def
        wapp_def eval_writers write_fits)
  then have "for_each tcp_option_cases (tcp_option_test D) = Ok ()"
    by (auto simp: for_each_Ok tcp_option_test_def)
  then show "test_tcp_option D = Ok ()"
    by (simp add: test_tcp_option_def tcp_option_test_def TcpOption_read_short_sack)
  show "test_sack_update_overflow pf D = Ok ()"
    using assms(2) by (simp add: test_sack_update_overflow_def sack_update_test_def TcpOption_update_def
        sack_update_length_def checked_add_usize_def u8_try_from_def)
  have rw: "rw_test try_from (Tcp_to_bytes D) c = Ok ()" if "c \<in> set tcp_rw_cases" for c
    using that unfolding tcp_rw_cases_def
    by (auto simp: Tcp_write_def TcpFlags_write_def TcpOption_write_def TcpOption_body_def SAckData_write_def
        TimestampData_write_def TcpFlags_default_def wapp_def Tcp_wf_def Tcp_parsed_def TcpFlags_wf_def
        eval_writers write_fits Tcp_to_bytes_def intro!: rw_test_Ok [OF rereads_Tcp any_tail_Nil(1) assms(1)])
  have "Tcp_read D (tcp_bad_offset, 0) = Err (DParse ''error: invalid tcp offset'')"
    by (rule Tcp_read_bad_offset) (simp_all add: tcp_bad_offset_def)
  moreover have "\<exists>need. Tcp_read D (tcp_short_options, 0) = Err (DIncomplete need)"
    by (rule Tcp_read_missing_options) (simp_all add: tcp_short_options_def)
  ultimately have "try_from tcp_bad_offset = Err (DParse ''error: invalid tcp offset'')"
      "\<exists>need. try_from tcp_short_options = Err (DIncomplete need)"
    using assms(1) unfolding try_from_agrees_def by blast+
  moreover have "for_each tcp_rw_cases (rw_test try_from (Tcp_to_bytes D)) = Ok ()"
    using rw by (simp add: for_each_Ok)
  ultimately show "test_tcp_rw D try_from = Ok ()"
    by (auto simp: test_tcp_rw_def invalid_offset_def) (simp_all add: rw_test_def)
qed

end

lemma codec_default_tests_pass:
  "test_macaddress_default = Ok ()" "test_ethertype_default = Ok ()" "test_ether_default = Ok ()"
  "test_ipprotocol_default = Ok ()" "test_ipv4_default = Ok ()" "test_ipv6_default = Ok ()" "test_icmp_default = Ok ()"
  "test_udp_default = Ok ()" "test_raw_default = Ok ()" "test_tcp_default = Ok ()"
  by (simp_all add: test_macaddress_default_def test_ethertype_default_def test_ether_default_def
      test_ipprotocol_default_def test_ipv4_default_def test_ipv6_default_def test_icmp_default_def test_udp_default_def
      test_raw_default_def test_tcp_default_def MacAddress_default_def EtherType_default_def Ether_default_def
      IpProtocol_default_def Ipv4_default_def Ipv6_default_def Icmp4_default_def Udp_default_def Raw_default_def
      Tcp_default_def)

lemma checksum_test_passes: "test_checksum pf = Ok ()"
  by (simp add: test_checksum_def checksum_eq ones_norm_def assert_simps word_uint_eq_iff)

lemma layer_macro_tests_pass:
  assumes "vt_type_id (env_vt env) = id"
  shows "test_get_layer_macro env = Ok ()" "test_is_layer_macro env = Ok ()"
  using assms by (simp_all add: test_get_layer_macro_def test_is_layer_macro_def get_custom_def is_layer_def)

end
