(* ===== verification/Finalize_Tests.thy ===== *)
theory Finalize_Tests
  imports Finalize Codec_Tests
begin

text \<open>
  The unit tests of \<open>finalize\<close> at the end of the files of \<open>src/layer\<close>, run on the model with the lengths and checksums
  the tests expect.  They pass for every deku that keeps its laws, in every build.
\<close>

section \<open>The declared layers\<close>

text \<open>\<open>declare_test_layer!(LayerN, N)\<close>: a layer of \<open>N\<close> zero bytes.\<close>

datatype sized_layer = Zeros nat

fun sized_id :: "sized_layer \<Rightarrow> nat" where
  "sized_id (Zeros n) = n"

fun sized_to_bytes :: "sized_layer \<Rightarrow> (LayerError, bytes) outcome" where
  "sized_to_bytes (Zeros n) = Ok (replicate n 0)"

definition sized_finalize ::
    "sized_layer \<Rightarrow> sized_layer LayerOwned list \<Rightarrow> sized_layer LayerOwned list \<Rightarrow>
      sized_layer \<times> (LayerError, unit) outcome" where
  "sized_finalize self prev next = (self, Panic ''not implemented'')"

definition sized_vtable :: "sized_layer vtable" where
  "sized_vtable = \<lparr>vt_type_id = sized_id, vt_finalize = sized_finalize, vt_to_bytes = sized_to_bytes,
     vt_length = (\<lambda>self. omap length (sized_to_bytes self))\<rparr>"

definition sized_env :: "deku \<Rightarrow> platform \<Rightarrow> sized_layer env" where
  "sized_env D pf = \<lparr>env_dk = D, env_pf = pf, env_vt = sized_vtable\<rparr>"

definition boxed :: "nat \<Rightarrow> sized_layer LayerOwned" where
  "boxed n = LCustom (Zeros n)"

interpretation sized: client_layers sized_vtable
proof
  fix c prev "next"
  show "vt_length sized_vtable c = omap length (vt_to_bytes sized_vtable c)"
    by (simp add: sized_vtable_def)
  show "returns (vt_to_bytes sized_vtable c)"
    by (cases c) (simp add: sized_vtable_def)
  show "vt_type_id sized_vtable (fst (vt_finalize sized_vtable c prev next)) = vt_type_id sized_vtable c"
    by (simp add: sized_vtable_def sized_finalize_def)
qed

text \<open>A method on \<open>&mut self\<close>, and \<open>unwrap\<close> of what it returns.\<close>

fun unwrap_mut :: "'s \<times> ('e, unit) outcome \<Rightarrow> ('d, 's) outcome" where
  "unwrap_mut (s, r) = omap (\<lambda>_. s) (unwrap r)"

section \<open>The tests\<close>

subsection \<open>IPv4\<close>

definition ipv4_input :: bytes where
  "ipv4_input = [0x45, 0x00, 0x02, 0x07, 0x0f, 0x45, 0x40, 0x00, 0x80, 0x06, 0xAA, 0xBB, 0x91, 0xfe, 0xa0, 0xed,
     0x41, 0xd0, 0xe4, 0xdf]"

definition test_ipv4_checksum_update ::
    "'c env \<Rightarrow> (bytes \<Rightarrow> (DekuError, Ipv4) outcome) \<Rightarrow> (unit, unit) outcome" where
  "test_ipv4_checksum_update env try_from =
     (let expected_checksum = 0x9010 in
      obind (unwrap (try_from ipv4_input)) (\<lambda>ipv4.
      obind (unwrap_mut (Ipv4_update_checksum (env_pf env) (env_dk env) ipv4)) (\<lambda>ipv4.
      assert_eq expected_checksum (ip4_checksum ipv4))))"

definition test_ipv4_finalize_checksum ::
    "'c env \<Rightarrow> (bytes \<Rightarrow> (DekuError, Ipv4) outcome) \<Rightarrow> (unit, unit) outcome" where
  "test_ipv4_finalize_checksum env try_from =
     (let expected_checksum = 0x9203 in
      obind (unwrap (try_from ipv4_input)) (\<lambda>ipv4.
      obind (unwrap_mut (Ipv4_finalize env ipv4 [] [])) (\<lambda>ipv4.
      assert_eq expected_checksum (ip4_checksum ipv4))))"

definition test_ipv4_finalize_length :: "sized_layer env \<Rightarrow> (unit, unit) outcome" where
  "test_ipv4_finalize_length env = for_each
     [(20, []), (20, [boxed 0]), (120, [boxed 100]), (220, [boxed 100, boxed 0, boxed 100])]
     (\<lambda>(expected_length, layers).
       obind (unwrap_mut (Ipv4_finalize env Ipv4_default [] layers)) (\<lambda>ipv4.
       obind (assert_ne 0 (ip4_length ipv4)) (\<lambda>_.
       assert_eq expected_length (ip4_length ipv4))))"

definition test_ipv4_finalize :: "sized_layer env \<Rightarrow> (unit, unit) outcome" where
  "test_ipv4_finalize env =
     (let ipv4 = Ipv4_default in
      obind (assert_eq 0 (ip4_checksum ipv4)) (\<lambda>_.
      obind (assert_eq 0 (ip4_length ipv4)) (\<lambda>_.
      obind (unwrap_mut (Ipv4_finalize env ipv4 [boxed 100] [boxed 100])) (\<lambda>ipv4.
      assert_eq (Ipv4_default\<lparr>ip4_checksum := 0xBC7E, ip4_length := 120\<rparr>) ipv4))))"

subsection \<open>IPv6\<close>

definition test_ipv6_finalize_length :: "sized_layer env \<Rightarrow> (unit, unit) outcome" where
  "test_ipv6_finalize_length env = for_each
     [(0, []), (0, [boxed 0]), (100, [boxed 100]), (200, [boxed 100, boxed 0, boxed 100])]
     (\<lambda>(expected_length, layers).
       obind (assert_eq 0 (ip6_length Ipv6_default)) (\<lambda>_.
       obind (unwrap_mut (Ipv6_finalize env Ipv6_default [] layers)) (\<lambda>ipv6.
       assert_eq expected_length (ip6_length ipv6))))"

definition test_ipv6_finalize :: "sized_layer env \<Rightarrow> (unit, unit) outcome" where
  "test_ipv6_finalize env =
     (let ipv6 = Ipv6_default in
      obind (assert_eq 0 (ip6_length ipv6)) (\<lambda>_.
      obind (unwrap_mut (Ipv6_finalize env ipv6 [boxed 100] [boxed 100])) (\<lambda>ipv6.
      assert_eq (Ipv6_default\<lparr>ip6_length := 100\<rparr>) ipv6)))"

subsection \<open>ICMP\<close>

definition no_layers :: "sized_layer LayerOwned list" where
  "no_layers = []"

definition test_icmp_finalize_checksum :: "sized_layer env \<Rightarrow> (unit, unit) outcome" where
  "test_icmp_finalize_checksum env =
     (let expected_checksum = 0xFFFF in
      obind (unwrap_mut (Icmp4_finalize (env_pf env) (env_dk env) Icmp4_default no_layers no_layers)) (\<lambda>icmp.
      assert_eq expected_checksum (icmp_checksum icmp)))"

definition test_icmp_finalize :: "sized_layer env \<Rightarrow> (unit, unit) outcome" where
  "test_icmp_finalize env =
     (let icmp = Icmp4_default in
      obind (assert_eq 0 (icmp_checksum icmp)) (\<lambda>_.
      obind (unwrap_mut (Icmp4_finalize (env_pf env) (env_dk env) icmp no_layers no_layers)) (\<lambda>icmp.
      assert_eq (Icmp4_default\<lparr>icmp_checksum := 0xFFFF\<rparr>) icmp)))"

subsection \<open>UDP\<close>

definition test_udp_finalize_checksum_v4 :: "sized_layer env \<Rightarrow> (unit, unit) outcome" where
  "test_udp_finalize_checksum_v4 env =
     (let expected_checksum = 0x0127; ipv4 = LIpv4 Ipv4_default in
      obind (unwrap_mut (Udp_finalize env Udp_default [ipv4] [boxed 100, boxed 0, boxed 100])) (\<lambda>udp.
      assert_eq expected_checksum (udp_checksum udp)))"

definition test_udp_finalize_checksum_v6 :: "sized_layer env \<Rightarrow> (unit, unit) outcome" where
  "test_udp_finalize_checksum_v6 env =
     (let expected_checksum = 0x00F3; ipv6 = LIpv6 Ipv6_default in
      obind (unwrap_mut (Udp_finalize env Udp_default [ipv6] [boxed 100, boxed 0, boxed 100])) (\<lambda>udp.
      assert_eq expected_checksum (udp_checksum udp)))"

definition test_udp_finalize_length :: "sized_layer env \<Rightarrow> (unit, unit) outcome" where
  "test_udp_finalize_length env = for_each
     [(8, []), (8, [boxed 0]), (108, [boxed 100]), (208, [boxed 100, boxed 0, boxed 100])]
     (\<lambda>(expected_length, layers).
       obind (unwrap_mut (Udp_finalize env Udp_default [] layers)) (\<lambda>udp.
       obind (assert_ne 0 (udp_length udp)) (\<lambda>_.
       assert_eq expected_length (udp_length udp))))"

definition test_udp_finalize :: "sized_layer env \<Rightarrow> (unit, unit) outcome" where
  "test_udp_finalize env =
     (let udp = Udp_default in
      obind (assert_eq 0 (udp_checksum udp)) (\<lambda>_.
      obind (assert_eq 0 (udp_length udp)) (\<lambda>_.
      let ipv4 = LIpv4 Ipv4_default in
      obind (unwrap_mut (Udp_finalize env udp [ipv4] [boxed 100])) (\<lambda>udp.
      assert_eq (Udp_default\<lparr>udp_checksum := 0x018B, udp_length := 108\<rparr>) udp))))"

subsection \<open>TCP\<close>

definition push_options :: "TcpOption list \<Rightarrow> Tcp \<Rightarrow> Tcp" where
  "push_options opts tcp = tcp\<lparr>tcp_options := tcp_options tcp @ opts\<rparr>"

definition test_tcp_finalize_offset :: "sized_layer env \<Rightarrow> (unit, unit) outcome" where
  "test_tcp_finalize_offset env =
     (let tcp = Tcp_default in
      obind (assert_eq 5 (tcp_offset tcp)) (\<lambda>_.
      obind (unwrap_mut (Tcp_finalize env tcp [] [])) (\<lambda>tcp.
      obind (assert_eq 5 (tcp_offset tcp)) (\<lambda>_.
      let tcp = push_options (replicate 4 TcpOption.NOP) tcp in
      obind (unwrap_mut (Tcp_finalize env tcp [] [])) (\<lambda>tcp.
      assert_eq 6 (tcp_offset tcp))))))"

definition test_tcp_finalize_offset_unaligned :: "sized_layer env \<Rightarrow> (unit, unit) outcome" where
  "test_tcp_finalize_offset_unaligned env =
     (let tcp = Tcp_default in
      obind (assert_that (tcp_options tcp = [])) (\<lambda>_.
      obind (unwrap_mut (Tcp_finalize env tcp [] [])) (\<lambda>tcp.
      obind (assert_that (tcp_options tcp = [])) (\<lambda>_.
      let tcp = push_options (replicate 2 TcpOption.NOP) tcp in
      obind (assert_eq (replicate 2 TcpOption.NOP) (tcp_options tcp)) (\<lambda>_.
      obind (unwrap_mut (Tcp_finalize env tcp [] [])) (\<lambda>tcp.
      assert_eq [TcpOption.NOP, TcpOption.NOP, TcpOption.EOL, TcpOption.EOL] (tcp_options tcp)))))))"

definition test_tcp_finalize_checksum_v4 :: "sized_layer env \<Rightarrow> (unit, unit) outcome" where
  "test_tcp_finalize_checksum_v4 env =
     (let expected_checksum = 0xB11A; ipv4 = LIpv4 Ipv4_default in
      obind (unwrap_mut (Tcp_finalize env Tcp_default [ipv4] [boxed 100, boxed 0, boxed 100])) (\<lambda>tcp.
      assert_eq expected_checksum (tcp_checksum tcp)))"

definition test_tcp_finalize_checksum_v6 :: "sized_layer env \<Rightarrow> (unit, unit) outcome" where
  "test_tcp_finalize_checksum_v6 env =
     (let expected_checksum = 0xB0E6; ipv6 = LIpv6 Ipv6_default in
      obind (unwrap_mut (Tcp_finalize env Tcp_default [ipv6] [boxed 100, boxed 0, boxed 100])) (\<lambda>tcp.
      assert_eq expected_checksum (tcp_checksum tcp)))"

definition test_tcp_finalize :: "sized_layer env \<Rightarrow> (unit, unit) outcome" where
  "test_tcp_finalize env =
     (let tcp = Tcp_default in
      obind (assert_eq 0 (tcp_checksum tcp)) (\<lambda>_.
      obind (assert_eq 5 (tcp_offset tcp)) (\<lambda>_.
      let tcp = push_options [TcpOption.NOP] tcp; ipv4 = LIpv4 Ipv4_default in
      obind (unwrap_mut (Tcp_finalize env tcp [ipv4] [boxed 100])) (\<lambda>tcp.
      assert_eq (Tcp_default\<lparr>tcp_checksum := 0xB07A, tcp_offset := 6,
        tcp_options := [TcpOption.NOP, TcpOption.EOL, TcpOption.EOL, TcpOption.EOL]\<rparr>) tcp))))"

section \<open>Evaluation\<close>

lemma sized_env_simps [simp]:
  "env_dk (sized_env D pf) = D" "env_pf (sized_env D pf) = pf" "env_vt (sized_env D pf) = sized_vtable"
  by (simp_all add: sized_env_def)

lemma boxed_bytes [simp]: "to_bytes (sized_env D pf) (boxed n) = Ok (replicate n 0)"
  by (simp add: boxed_def sized_vtable_def)

lemma sized_packets: "deku_laws D \<Longrightarrow> 65535 \<le> usize_max pf \<Longrightarrow> packet_env (sized_env D pf)"
  by (rule packet_env.intro) (simp_all add: sized.client_layers_axioms)

lemma replicate_rec: "replicate (numeral k) x = x # replicate (pred_numeral k) x"
  by (simp add: numeral_eq_Suc)

text \<open>The payload of zeros that the boxed layers are.\<close>

lemma boxed_layers: "layers_to_bytes (sized_env D pf) (map boxed ns) = Ok (replicate (sum_list ns) 0)"
  by (induction ns) (simp_all add: layers_to_bytes_eq replicate_add)

lemma boxed_length:
  assumes "sum_list ns \<le> usize_max pf"
  shows "length_of_layers (sized_env D pf) (map boxed ns) = Ok (sum_list ns)"
proof -
  have "length_fold (sized_env D pf) acc (map boxed ns) = Ok (acc + sum_list ns)"
    if "acc + sum_list ns \<le> usize_max pf" for acc
    using that by (induction ns arbitrary: acc)
      (simp_all add: layer_length_def boxed_def sized_vtable_def checked_add_usize_def add.assoc)
  from this [of 0] assms show ?thesis by (simp add: length_of_layers_def)
qed

lemma be_sum_zeros [simp]: "be_sum (replicate n 0) = 0"
  by (induction n rule: induct_nat_012) simp_all

lemma boxed_lists:
  "[] = map boxed []" "[boxed n] = map boxed [n]" "[boxed n, boxed m, boxed k] = map boxed [n, m, k]"
  by simp_all


text \<open>The header of the checksum tests.\<close>

definition ipv4_parsed :: Ipv4 where
  "ipv4_parsed = \<lparr>ip4_version = 4, ip4_ihl = 5, ip4_dscp = 0, ip4_ecn = 0, ip4_length = 0x207,
     ip4_identification = 0x0f45, ip4_flags = 2, ip4_offset = 0, ip4_ttl = 128, ip4_protocol = TCP,
     ip4_checksum = 0xAABB, ip4_src = 0x91fea0ed, ip4_dst = 0x41d0e4df, ip4_options = []\<rparr>"

lemma unwrap_mut_Ok: "unwrap_mut (s, Ok ()) = Ok s"
  by simp

context deku_laws
begin

lemma Ipv4_default_bytes:
  "Ipv4_to_bytes D (Ipv4_default\<lparr>ip4_length := 120\<rparr>) = Ok [0x45, 0, 0, 120, 0, 0, 0, 0, 0, 6, 0, 0, 0x7f, 0, 0, 1, 0x7f, 0, 0, 1]"
  "Ipv4_to_bytes D Ipv4_default = Ok [0x45, 0, 0, 0, 0, 0, 0, 0, 0, 6, 0, 0, 0x7f, 0, 0, 1, 0x7f, 0, 0, 1]"
  unfolding Ipv4_to_bytes_def
  by (rule to_bytes_all; simp add: Ipv4_write_def Ipv4_default_def IpProtocol_default_def IpProtocol_write_def
      eval_writers write_fits)+

lemma ipv4_parsed_write:
  "Ipv4_write D ipv4_parsed = Ok (bytes_bits ipv4_input)"
  "Ipv4_write D (ipv4_parsed\<lparr>ip4_length := 20\<rparr>)
    = Ok (bytes_bits [0x45, 0, 0, 20, 0x0f, 0x45, 0x40, 0, 0x80, 6, 0xAA, 0xBB, 0x91, 0xfe, 0xa0, 0xed, 0x41, 0xd0, 0xe4, 0xdf])"
  by (simp_all add: Ipv4_write_def ipv4_parsed_def ipv4_input_def IpProtocol_write_def eval_writers write_fits)

lemma ipv4_parsed_bytes:
  "Ipv4_to_bytes D ipv4_parsed = Ok ipv4_input"
  "Ipv4_to_bytes D (ipv4_parsed\<lparr>ip4_length := 20\<rparr>)
    = Ok [0x45, 0, 0, 20, 0x0f, 0x45, 0x40, 0, 0x80, 6, 0xAA, 0xBB, 0x91, 0xfe, 0xa0, 0xed, 0x41, 0xd0, 0xe4, 0xdf]"
  unfolding Ipv4_to_bytes_def by (rule to_bytes_all, rule ipv4_parsed_write)+

lemma ipv4_parsed_try:
  assumes "try_from_agrees (Ipv4_read D) try_from"
  shows "try_from ipv4_input = Ok ipv4_parsed"
proof -
  have "Ipv4_wf ipv4_parsed"
    by (simp add: ipv4_parsed_def Ipv4_wf_def Ipv4_parsed_def IpProtocol_wf_def)
  from from_bytes_all [OF rereads_Ipv4 any_tail_Nil(1) this ipv4_parsed_write(1)] assms show ?thesis
    by (simp add: try_from_agrees_def)
qed

lemma ipv4_finalize_tests_pass:
  assumes "try_from_agrees (Ipv4_read D) try_from" and "65535 \<le> usize_max pf"
  shows "test_ipv4_checksum_update (sized_env D pf) try_from = Ok ()" "test_ipv4_finalize_checksum (sized_env D pf) try_from = Ok ()"
    "test_ipv4_finalize_length (sized_env D pf) = Ok ()" "test_ipv4_finalize (sized_env D pf) = Ok ()"
proof -
  note parsed = ipv4_parsed_try [OF assms(1)]
  show "test_ipv4_checksum_update (sized_env D pf) try_from = Ok ()"
    by (simp add: test_ipv4_checksum_update_def parsed Ipv4_update_checksum_def ipv4_parsed_bytes)
      (simp add: set_byte_def ipv4_input_def checksum_eq ones_norm_def assert_simps word_uint_eq_iff)
  have len: "layer_length (sized_env D pf) (LIpv4 ipv4_parsed) = Ok 20"
    "layer_length (sized_env D pf) (LIpv4 Ipv4_default) = Ok 20"
    by (simp_all add: layer_length_def ipv4_parsed_bytes Ipv4_default_bytes ipv4_input_def)
  show "test_ipv4_finalize_checksum (sized_env D pf) try_from = Ok ()"
    using assms(2)
    by (simp add: test_ipv4_finalize_checksum_def parsed Ipv4_finalize_def len boxed_length [of "[]", simplified]
        checked_add_usize_def u16_try_from_def Ipv4_update_checksum_def ipv4_parsed_bytes set_byte_def
        checksum_eq ones_norm_def assert_simps word_uint_eq_iff)
  show "test_ipv4_finalize (sized_env D pf) = Ok ()"
    using assms(2) boxed_length [of "[100]" pf D]
    by (simp add: test_ipv4_finalize_def Ipv4_finalize_def len
        checked_add_usize_def u16_try_from_def Ipv4_update_checksum_def Ipv4_default_bytes set_byte_def
        checksum_eq ones_norm_def)
      (simp add: assert_simps Ipv4_default_def)
  have "\<exists>c. Ipv4_finalize (sized_env D pf) Ipv4_default [] (map boxed ns) =
      (Ipv4_default\<lparr>ip4_length := word_of_nat (20 + sum_list ns), ip4_checksum := c\<rparr>, Ok ())"
    if "20 + sum_list ns \<le> 65535" for ns
    using packet_env.Ipv4_finalize_spec [OF sized_packets [OF deku_laws_axioms assms(2)],
        of Ipv4_default "[]" "map boxed ns"] that
    by (auto simp: Ipv4_default_bytes boxed_layers)
  from this [of "[]"] this [of "[0]"] this [of "[100]"] this [of "[100, 0, 100]"]
  show "test_ipv4_finalize_length (sized_env D pf) = Ok ()"
    by (auto simp: test_ipv4_finalize_length_def assert_simps)
qed

lemma ipv6_finalize_tests_pass:
  assumes "65535 \<le> usize_max pf"
  shows "test_ipv6_finalize_length (sized_env D pf) = Ok ()" "test_ipv6_finalize (sized_env D pf) = Ok ()"
proof -
  have fin: "Ipv6_finalize (sized_env D pf) Ipv6_default prev (map boxed ns) = (Ipv6_default\<lparr>ip6_length := word_of_nat (sum_list ns)\<rparr>, Ok ())"
    if "sum_list ns \<le> 65535" for ns prev
    using that assms boxed_length [of ns pf D] by (simp add: Ipv6_finalize_def u16_try_from_def)
  show "test_ipv6_finalize_length (sized_env D pf) = Ok ()"
    using fin [of "[]" "[]"] fin [of "[0]" "[]"] fin [of "[100]" "[]"] fin [of "[100, 0, 100]" "[]"]
    by (simp add: test_ipv6_finalize_length_def assert_simps Ipv6_default_def)
  show "test_ipv6_finalize (sized_env D pf) = Ok ()"
    using fin [of "[100]" "[boxed 100]"] by (simp add: test_ipv6_finalize_def assert_simps Ipv6_default_def)
qed

lemma icmp_finalize_tests_pass:
  assumes "env_dk env = D"
  shows "test_icmp_finalize_checksum env = Ok ()" "test_icmp_finalize env = Ok ()"
proof -
  have bytes: "Icmp4_to_bytes D Icmp4_default = Ok [0, 0, 0, 0, 0, 0, 0, 0]"
    unfolding Icmp4_to_bytes_def
    by (rule to_bytes_all) (simp add: Icmp4_write_def Icmp4_default_def IcmpType_write_def eval_writers write_fits)
  have fin: "Icmp4_finalize (env_pf env) (env_dk env) Icmp4_default no_layers no_layers = (Icmp4_default\<lparr>icmp_checksum := 0xFFFF\<rparr>, Ok ())"
    by (simp add: assms Icmp4_finalize_def bytes set_byte_def checksum_eq ones_norm_def)
  show "test_icmp_finalize_checksum env = Ok ()" "test_icmp_finalize env = Ok ()"
    subgoal by (simp add: test_icmp_finalize_checksum_def fin)
    subgoal unfolding test_icmp_finalize_def Let_def fin by (simp add: Icmp4_default_def)
    done
qed

end


section \<open>UDP and TCP\<close>

text \<open>The options of the TCP tests are all one byte long.\<close>

definition one_byte_options :: "bool list \<Rightarrow> TcpOption list" where
  "one_byte_options bs = map (\<lambda>b. if b then TcpOption.NOP else TcpOption.EOL) bs"

definition tcp_with :: "bool list \<Rightarrow> Tcp" where
  "tcp_with bs = Tcp_default\<lparr>tcp_options := one_byte_options bs\<rparr>"

context deku_laws
begin

text \<open>The length is a variable of the pseudo header; the other fields are literals.\<close>

lemmas write_uint_literals = write_uint_def [where w = "numeral k" for k] write_uint_def [where w = 0] write_uint_def [where w = 1]

lemma write_u16: "write_uint D 16 c = Ok (bytes_bits (u16_to_be_bytes c))"
proof -
  have "pack (bits_be 16 (unat c)) = u16_to_be_bytes c"
    by (simp add: pack_bits_be_16 u16_to_be_bytes_def)
  then show ?thesis
    using bytes_bits_pack [of "bits_be 16 (unat c)"] by (simp add: write_uint_def write_fits)
qed

lemma write_u32_small:
  assumes "n < 65536"
  shows "write_uint D 32 (word_of_nat n :: u32) = Ok (bytes_bits ([0, 0] @ u16_to_be_bytes (word_of_nat n)))"
proof -
  have n: "unat (word_of_nat n :: u16) = n" "unat (word_of_nat n :: u32) = n"
    using assms by (auto intro: unat_word_of_nat_small [where n = 16])
  have "bits_be 32 n = bits_be 16 0 @ bits_be 16 n"
    using bits_be_append [of 16 16 n] assms by simp
  moreover have "bits_be 16 n = bytes_bits (u16_to_be_bytes (word_of_nat n))"
    using write_u16 [of "word_of_nat n"] n(1) assms by (simp add: write_uint_def write_fits)
  moreover have "bits_be 16 0 = bytes_bits [0, 0]"
    by (simp add: byte_bits_def bits_be_numeral)
  ultimately show ?thesis
    using n(2) assms by (simp add: write_uint_def write_fits)
qed

text \<open>The pseudo headers of the default IP headers.\<close>

lemma default_pseudo_headers:
  assumes "n < 65536"
  shows "ip_pseudo_header what (sized_env D pf) (LIpv4 Ipv4_default) n
      = Ok (Some ([0x7f, 0, 0, 1, 0x7f, 0, 0, 1, 0, 6] @ u16_to_be_bytes (word_of_nat n)))"
    "ip_pseudo_header what (sized_env D pf) (LIpv6 Ipv6_default) n
      = Ok (Some (0xff # replicate 15 0 @ 0xff # replicate 17 0 @ u16_to_be_bytes (word_of_nat n) @ [0, 0, 0, 59]))"
proof -
  have "Ipv4PseudoHeader_write D (Ipv4PseudoHeader_new Ipv4_default (word_of_nat n))
      = Ok (bytes_bits ([0x7f, 0, 0, 1, 0x7f, 0, 0, 1, 0, 6] @ u16_to_be_bytes (word_of_nat n)))"
    by (simp add: Ipv4PseudoHeader_write_def Ipv4PseudoHeader_new_def Ipv4_default_def IpProtocol_default_def
        IpProtocol_write_def wfield_def wdone_def wapp_def write_u16 write_uint_literals write_fits
        bits_be_numeral byte_bits_def)
  from to_bytes_all [of "Ipv4PseudoHeader_write D", OF this] show "ip_pseudo_header what (sized_env D pf) (LIpv4 Ipv4_default) n
      = Ok (Some ([0x7f, 0, 0, 1, 0x7f, 0, 0, 1, 0, 6] @ u16_to_be_bytes (word_of_nat n)))"
    using assms by (simp add: ip_pseudo_header_def u16_try_from_def)
  have "Ipv6PseudoHeader_write D (Ipv6PseudoHeader_new Ipv6_default (word_of_nat n)) = Ok (bytes_bits
      (0xff # replicate 15 0 @ 0xff # replicate 17 0 @ u16_to_be_bytes (word_of_nat n) @ [0, 0, 0, 59]))"
    using write_u32_small [OF assms]
    by (simp add: Ipv6PseudoHeader_write_def Ipv6PseudoHeader_new_def Ipv6_default_def
        IpProtocol_write_def wfield_def wdone_def wapp_def write_uint_literals write_fits
        bits_be_numeral byte_bits_def replicate_rec)
  from to_bytes_all [of "Ipv6PseudoHeader_write D", OF this] show "ip_pseudo_header what (sized_env D pf) (LIpv6 Ipv6_default) n
      = Ok (Some (0xff # replicate 15 0 @ 0xff # replicate 17 0 @ u16_to_be_bytes (word_of_nat n) @ [0, 0, 0, 59]))"
    using assms by (simp add: ip_pseudo_header_def u32_try_from_def)
qed

lemma udp_finalize_tests_pass:
  assumes "65535 \<le> usize_max pf"
  shows "test_udp_finalize_checksum_v4 (sized_env D pf) = Ok ()" "test_udp_finalize_checksum_v6 (sized_env D pf) = Ok ()"
    "test_udp_finalize_length (sized_env D pf) = Ok ()" "test_udp_finalize (sized_env D pf) = Ok ()"
proof -
  have fin: "Udp_finalize (sized_env D pf) Udp_default prev (map boxed ns) =
      (let u = Udp_default\<lparr>udp_length := word_of_nat (8 + sum_list ns)\<rparr> in
       if prev = [] then (u, Ok ())
       else try_in u (ip_pseudo_header ''udp_length'' (sized_env D pf) (last prev) (8 + sum_list ns)) (\<lambda>ph.
         case ph of None \<Rightarrow> (u, Ok ())
         | Some data \<Rightarrow> try_in u (checksum pf (data @ replicate 8 0 @ replicate (sum_list ns) 0)) (\<lambda>c.
             (u\<lparr>udp_checksum := c\<rparr>, Ok ()))))"
    if "8 + sum_list ns \<le> 65535" for ns prev
  proof -
    have "Udp_bytes Udp_default = replicate 8 0"
      by (simp add: Udp_bytes_def Udp_default_def u16_to_be_bytes_0 replicate_rec)
    then have "obind (set_byte (Udp_bytes Udp_default) 6 0) (\<lambda>data. set_byte data 7 0)
        = (Ok (replicate 8 0) :: (LayerError, bytes) outcome)"
      by (simp add: set_byte_def replicate_rec)
    with that assms show ?thesis
      by (simp add: Udp_finalize_def Udp_to_bytes_eq boxed_layers checked_add_usize_def u16_try_from_def Let_def)
  qed
  show "test_udp_finalize_checksum_v4 (sized_env D pf) = Ok ()"
    using fin [of "[100, 0, 100]" "[LIpv4 Ipv4_default]"]
    by (simp add: test_udp_finalize_checksum_v4_def Let_def default_pseudo_headers checksum_eq ones_norm_def be_sum_append
        replicate_rec u16_to_be_bytes_def assert_simps word_uint_eq_iff)
  show "test_udp_finalize_checksum_v6 (sized_env D pf) = Ok ()"
    using fin [of "[100, 0, 100]" "[LIpv6 Ipv6_default]"]
    by (simp add: test_udp_finalize_checksum_v6_def Let_def default_pseudo_headers checksum_eq ones_norm_def be_sum_append
        replicate_rec u16_to_be_bytes_def assert_simps word_uint_eq_iff)
  show "test_udp_finalize_length (sized_env D pf) = Ok ()"
    using fin [of "[]" "[]"] fin [of "[0]" "[]"] fin [of "[100]" "[]"] fin [of "[100, 0, 100]" "[]"]
    by (simp add: test_udp_finalize_length_def assert_simps)
  show "test_udp_finalize (sized_env D pf) = Ok ()"
    using fin [of "[100]" "[LIpv4 Ipv4_default]"]
    by (simp add: test_udp_finalize_def Let_def default_pseudo_headers checksum_eq ones_norm_def be_sum_append
        replicate_rec u16_to_be_bytes_def)
     (simp add: assert_simps Udp_default_def)
qed

lemma tcp_with_bytes:
  "Tcp_to_bytes D (tcp_with bs) = Ok (replicate 12 0 @ 0x50 # replicate 7 0 @ map of_bool bs)"
proof -
  have opts: "write_list (TcpOption_write D) (one_byte_options bs) = Ok (bytes_bits (map of_bool bs))"
    by (induction bs) (simp_all add: one_byte_options_def TcpOption_write_def TcpOption_body_def wapp_def
        write_uint_literals write_fits wfield_def byte_bits_def)
  have "Tcp_write D (tcp_with bs) = Ok (bytes_bits (replicate 12 0 @ 0x50 # replicate 7 0 @ map of_bool bs))"
    by (simp add: Tcp_write_def TcpFlags_write_def tcp_with_def Tcp_default_def TcpFlags_default_def opts wapp_def
        wfield_def wdone_def write_uint_literals write_fits bits_be_numeral byte_bits_def replicate_rec)
  from to_bytes_all [of "Tcp_write D", OF this] show ?thesis
    by (simp add: Tcp_to_bytes_def)
qed

lemma tcp_with_finalize:
  assumes "bs' = bs @ replicate (4 * ((length bs + 3) div 4) - length bs) False" and "length bs \<le> 40"
  shows "Tcp_finalize (sized_env D pf) (tcp_with bs) prev next =
    (case Tcp_update_checksum (sized_env D pf) (tcp_with bs') prev next (replicate 12 0 @ 0x50 # replicate 7 0 @ map of_bool bs') of
      (self, updated) \<Rightarrow> try_in self updated (\<lambda>_. (self\<lparr>tcp_offset := word_of_nat (5 + length bs' div 4)\<rparr>, Ok ())))"
proof -
  let ?pad = "4 * ((length bs + 3) div 4) - length bs"
  have pad: "4 * ((23 + length bs) div 4) - (20 + length bs) = ?pad" "4 * ((length bs + 23) div 4) - (length bs + 20) = ?pad"
    by presburger+
  have len: "length bs' = 4 * ((length bs + 3) div 4)"
    using assms(1) by simp
  have opts: "tcp_with bs\<lparr>tcp_options := tcp_options (tcp_with bs) @ replicate ?pad TcpOption.EOL\<rparr> = tcp_with bs'"
    by (simp add: tcp_with_def assms(1) one_byte_options_def map_replicate)
  have small: "(20 + length bs') div 4 = 5 + length bs' div 4" "(20 + length bs') mod 4 = 0" "5 + length bs' div 4 < 256"
    using assms(2) unfolding len by presburger+
  have clear: "obind (set_byte (replicate 12 0 @ 0x50 # replicate 7 0 @ map of_bool bs') 16 0) (\<lambda>data. set_byte data 17 0)
      = (Ok (replicate 12 0 @ 0x50 # replicate 7 0 @ map of_bool bs') :: (LayerError, bytes) outcome)"
    by (simp add: set_byte_def replicate_rec)
  show ?thesis
    unfolding Tcp_finalize_def sized_env_simps tcp_with_bytes try_in.simps Let_def length_append length_Cons length_replicate length_map
    using small by (simp add: pad opts tcp_with_bytes clear debug_assert_def u8_try_from_def split: prod.split)
qed

lemma tcp_finalize_tests_pass:
  assumes "65535 \<le> usize_max pf"
  shows "test_tcp_finalize_offset (sized_env D pf) = Ok ()" "test_tcp_finalize_offset_unaligned (sized_env D pf) = Ok ()"
    "test_tcp_finalize_checksum_v4 (sized_env D pf) = Ok ()" "test_tcp_finalize_checksum_v6 (sized_env D pf) = Ok ()"
    "test_tcp_finalize (sized_env D pf) = Ok ()"
proof -
  have start: "Tcp_default = tcp_with []"
    by (simp add: tcp_with_def one_byte_options_def Tcp_default_def)
  have offset: "tcp_with []\<lparr>tcp_offset := 5\<rparr> = tcp_with []"
    by (simp add: tcp_with_def Tcp_default_def)
  have fin: "Tcp_finalize (sized_env D pf) (tcp_with bs) [] [] = (tcp_with bs'\<lparr>tcp_offset := word_of_nat (5 + length bs' div 4)\<rparr>, Ok ())"
    if "bs' = bs @ replicate (4 * ((length bs + 3) div 4) - length bs) False" "length bs \<le> 40" for bs bs'
    using tcp_with_finalize [OF that] by (simp add: Tcp_update_checksum_def)
  have push: "push_options (one_byte_options cs) (tcp_with []) = tcp_with cs" for cs
    by (simp add: push_options_def tcp_with_def one_byte_options_def)
  have nops: "replicate 4 TcpOption.NOP = one_byte_options (replicate 4 True)"
      "replicate 2 TcpOption.NOP = one_byte_options (replicate 2 True)" "[TcpOption.NOP] = one_byte_options [True]"
    by (simp_all add: one_byte_options_def)
  show "test_tcp_finalize_offset (sized_env D pf) = Ok ()"
    using fin [of "[]" "[]"] fin [of "replicate 4 True" "replicate 4 True"]
    by (simp add: test_tcp_finalize_offset_def start offset nops push) (simp add: tcp_with_def Tcp_default_def assert_simps)
  show "test_tcp_finalize_offset_unaligned (sized_env D pf) = Ok ()"
    using fin [of "[]" "[]"] fin [of "replicate 2 True @ replicate 2 False" "replicate 2 True"]
    by (simp add: test_tcp_finalize_offset_unaligned_def start offset nops push)
      (simp add: tcp_with_def Tcp_default_def one_byte_options_def replicate_rec assert_simps)
  have run: "Tcp_finalize (sized_env D pf) (tcp_with bs) [ip] (map boxed ns) =
      (let t = tcp_with bs' in
       case checksum pf (ph @ replicate 12 0 @ 0x50 # replicate 7 0 @ map of_bool bs' @ replicate (sum_list ns) 0) of
         Ok c \<Rightarrow> (t\<lparr>tcp_checksum := c, tcp_offset := word_of_nat (5 + length bs' div 4)\<rparr>, Ok ())
       | Err e \<Rightarrow> (t, Err e) | Panic m \<Rightarrow> (t, Panic m) | Diverge \<Rightarrow> (t, Diverge))"
    if "bs' = bs @ replicate (4 * ((length bs + 3) div 4) - length bs) False" "length bs \<le> 40"
      "20 + length bs' + sum_list ns \<le> 65535"
      "ip_pseudo_header ''tcp_length'' (sized_env D pf) ip (20 + length bs' + sum_list ns) = Ok (Some ph)"
    for bs bs' ns ip ph
    using tcp_with_finalize [OF that(1,2), of pf "[ip]" "map boxed ns"] that(3,4) assms
    by (simp add: Tcp_update_checksum_def boxed_layers checked_add_usize_def Let_def split: outcome.split)
  show "test_tcp_finalize_checksum_v4 (sized_env D pf) = Ok ()"
    using run [of "[]" "[]" "[100, 0, 100]" "LIpv4 Ipv4_default", OF _ _ _ default_pseudo_headers(1)]
    by (simp add: test_tcp_finalize_checksum_v4_def start checksum_eq ones_norm_def be_sum_append replicate_rec
        u16_to_be_bytes_def assert_simps word_uint_eq_iff)
  show "test_tcp_finalize_checksum_v6 (sized_env D pf) = Ok ()"
    using run [of "[]" "[]" "[100, 0, 100]" "LIpv6 Ipv6_default", OF _ _ _ default_pseudo_headers(2)]
    by (simp add: test_tcp_finalize_checksum_v6_def start checksum_eq ones_norm_def be_sum_append replicate_rec
        u16_to_be_bytes_def assert_simps word_uint_eq_iff)
  show "test_tcp_finalize (sized_env D pf) = Ok ()"
    using run [of "[True, False, False, False]" "[True]" "[100]" "LIpv4 Ipv4_default", OF _ _ _ default_pseudo_headers(1)]
    by (simp add: test_tcp_finalize_def start nops push checksum_eq ones_norm_def be_sum_append replicate_rec
        u16_to_be_bytes_def)
      (simp add: assert_simps tcp_with_def one_byte_options_def Tcp_default_def)
qed

end

end
