(* ===== verification/Datalink_Tests.thy ===== *)
theory Datalink_Tests
  imports Pcap_Copy Finalize_Tests
begin

text \<open>
  The tests of the data link layer: the unit tests at the end of \<open>src/datalink/mod.rs\<close> over a dummy interface, and the
  read-write tests over capture files of \<open>tests/test_pcaps.rs\<close>, for capture files of any content.
\<close>

section \<open>The dummy interface\<close>

record 'c DummyReader =
  dr_packet_parser :: "'c PacketParser"

record DummyWriter =
  dw_write_count :: nat

definition Dummy_init_with_parser ::
    "string \<Rightarrow> 'c PacketParser \<Rightarrow> (unit DataLinkError, ('c DummyReader, DummyWriter) Interface) outcome" where
  "Dummy_init_with_parser name packet_parser = Ok
     \<lparr>if_reader = \<lparr>dr_packet_parser = packet_parser\<rparr>, if_writer = \<lparr>dw_write_count = 0\<rparr>,
      if_metadata = \<lparr>md_mac_address = None\<rparr>\<rparr>"

definition Dummy_init ::
    "'c env \<Rightarrow> string \<Rightarrow> (unit DataLinkError, ('c DummyReader, DummyWriter) Interface) outcome" where
  "Dummy_init env name = Dummy_init_with_parser name (PacketParser_new env)"

definition Dummy_read_init_with_parser ::
    "string \<Rightarrow> 'c PacketParser \<Rightarrow> (unit DataLinkError, 'c DummyReader InterfaceReader) outcome" where
  "Dummy_read_init_with_parser name packet_parser =
     obind (omap Interface_into_split (Dummy_init_with_parser name packet_parser)) (\<lambda>(reader, writer). Ok reader)"

definition Dummy_read_init :: "'c env \<Rightarrow> string \<Rightarrow> (unit DataLinkError, 'c DummyReader InterfaceReader) outcome" where
  "Dummy_read_init env name = Dummy_read_init_with_parser name (PacketParser_new env)"

definition Dummy_write_init :: "'c env \<Rightarrow> string \<Rightarrow> (unit DataLinkError, DummyWriter InterfaceWriter) outcome" where
  "Dummy_write_init env name =
     obind (omap Interface_into_split (Dummy_init env name)) (\<lambda>(reader, writer). Ok writer)"

definition DummyReader_read :: "('c DummyReader, 'c, unit) packet_read" where
  "DummyReader_read self = (self, Ok Packet_new)"

text \<open>The dummy interface does no I/O: its type of I/O errors is \<open>unit\<close>.  The count is a \<open>usize\<close>; no test comes near its maximum.\<close>

definition DummyWriter_write :: "(DummyWriter, 'c, unit) packet_write" where
  "DummyWriter_write self packet = (self\<lparr>dw_write_count := dw_write_count self + 1\<rparr>, Ok ())"

section \<open>The unit tests\<close>

definition test_interface_default :: "'c env \<Rightarrow> (unit, unit) outcome" where
  "test_interface_default env =
     obind (unwrap (Interface_init (Dummy_init env) ''test'')) (\<lambda>interface.
     (case Interface_read DummyReader_read interface of (interface, res) \<Rightarrow>
      obind (unwrap res) (\<lambda>pkt.
      (case Interface_write DummyWriter_write interface pkt of (interface, res) \<Rightarrow>
       obind (unwrap res) (\<lambda>_.
       assert_eq 1 (dw_write_count (if_writer interface)))))))"

definition test_interface_reader :: "'c env \<Rightarrow> (unit, unit) outcome" where
  "test_interface_reader env =
     obind (unwrap (InterfaceReader_init (Dummy_read_init env) ''test'')) (\<lambda>interface.
     obind (unwrap (snd (InterfaceReader_read DummyReader_read interface))) (\<lambda>pkt. Ok ()))"

definition test_interface_writer :: "'c env \<Rightarrow> (unit, unit) outcome" where
  "test_interface_writer env =
     obind (unwrap (InterfaceWriter_init (Dummy_write_init env) ''test'')) (\<lambda>interface.
     let pkt = Packet_new :: 'c Packet in
     (case InterfaceWriter_write DummyWriter_write interface pkt of (interface, res) \<Rightarrow>
      obind (unwrap res) (\<lambda>_.
      assert_eq 1 (dw_write_count (iw_writer interface)))))"

definition test_interface_split_ref :: "'c env \<Rightarrow> (unit, unit) outcome" where
  "test_interface_split_ref env =
     obind (unwrap (Interface_init (Dummy_init env) ''test'')) (\<lambda>interface.
     (case Interface_split interface of (reader, writer) \<Rightarrow>
     (case InterfaceReaderRef_read DummyReader_read reader of (reader, res) \<Rightarrow>
      obind (unwrap res) (\<lambda>pkt.
      (case InterfaceWriterRef_write DummyWriter_write writer pkt of (writer, res) \<Rightarrow>
       obind (unwrap res) (\<lambda>_.
       assert_eq 1 (dw_write_count (wr_writer writer))))))))"

definition test_interface_split_owned :: "'c env \<Rightarrow> (unit, unit) outcome" where
  "test_interface_split_owned env =
     obind (unwrap (Interface_init (Dummy_init env) ''test'')) (\<lambda>interface.
     (case Interface_into_split interface of (reader, writer) \<Rightarrow>
     (case InterfaceReader_read DummyReader_read reader of (reader, res) \<Rightarrow>
      obind (unwrap res) (\<lambda>pkt.
      (case InterfaceWriter_write DummyWriter_write writer pkt of (writer, res) \<Rightarrow>
       obind (unwrap res) (\<lambda>_.
       assert_eq 1 (dw_write_count (iw_writer writer))))))))"

text \<open>\<open>assert!(x.next().is_some())\<close>.\<close>

definition assert_some :: "(unit, 'a option) outcome \<Rightarrow> (unit, unit) outcome" where
  "assert_some r = obind r (\<lambda>item. assert_that (item \<noteq> None))"

definition test_interface_iter :: "'c env \<Rightarrow> (unit, unit) outcome" where
  "test_interface_iter env =
     obind (unwrap (Interface_init (Dummy_init env) ''test'')) (\<lambda>interface.
     assert_some (snd (Interface_next DummyReader_read interface)))"

definition test_interface_reader_iter :: "'c env \<Rightarrow> (unit, unit) outcome" where
  "test_interface_reader_iter env =
     obind (unwrap (InterfaceReader_init (Dummy_read_init env) ''test'')) (\<lambda>interface.
     assert_some (snd (InterfaceReader_next DummyReader_read interface)))"

definition test_interface_reader_ref_iter :: "'c env \<Rightarrow> (unit, unit) outcome" where
  "test_interface_reader_ref_iter env =
     obind (unwrap (Interface_init (Dummy_init env) ''test'')) (\<lambda>interface.
     (case Interface_split interface of (reader, writer) \<Rightarrow>
      assert_some (snd (InterfaceReaderRef_next DummyReader_read reader))))"

text \<open>Every test of the dummy interface passes.\<close>

lemma interface_tests_pass:
  "test_interface_default env = Ok ()" "test_interface_reader env = Ok ()" "test_interface_writer env = Ok ()"
  "test_interface_split_ref env = Ok ()" "test_interface_split_owned env = Ok ()" "test_interface_iter env = Ok ()"
  "test_interface_reader_iter env = Ok ()" "test_interface_reader_ref_iter env = Ok ()"
  by (simp_all add: test_interface_default_def test_interface_reader_def test_interface_writer_def
      test_interface_split_ref_def test_interface_split_owned_def test_interface_iter_def
      test_interface_reader_iter_def test_interface_reader_ref_iter_def assert_some_def assert_simps
      Interface_init_def InterfaceReader_init_def InterfaceWriter_init_def Dummy_init_def Dummy_read_init_def
      Dummy_write_init_def Dummy_init_with_parser_def Dummy_read_init_with_parser_def DummyReader_read_def
      DummyWriter_write_def Interface_read_def Interface_write_def Interface_next_def InterfaceReader_read_def
      InterfaceReader_next_def InterfaceReaderRef_read_def InterfaceReaderRef_next_def InterfaceWriter_write_def
      InterfaceWriterRef_write_def Interface_split_def Interface_into_split_def)

section \<open>The read-write tests over capture files\<close>

text \<open>The body of the loop: what the test does with one packet.\<close>

definition rw_packet :: "'c env \<Rightarrow> ('c Packet \<Rightarrow> (unit, unit) outcome) \<Rightarrow> 'c Packet \<Rightarrow> (unit, unit) outcome" where
  "rw_packet env body pkt =
     obind (body pkt) (\<lambda>_.
     obind (unwrap (Packet_to_bytes env pkt)) (\<lambda>bytes1.
     let pkt2 = pkt in
     (case Packet_finalize env pkt2 of (pkt2, finalized) \<Rightarrow>
      obind (unwrap finalized) (\<lambda>_.
      obind (unwrap (Packet_to_bytes env pkt)) (\<lambda>bytes2.
      assert_eq bytes1 bytes2)))))"

text \<open>The loop over the reader, which has fuel; \<open>None\<close> means that it ran out of it.\<close>

fun rw_loop ::
    "('s \<Rightarrow> 's \<times> (unit, 'p option) outcome) \<Rightarrow> ('p \<Rightarrow> (unit, unit) outcome) \<Rightarrow> nat \<Rightarrow> 's \<Rightarrow> nat \<Rightarrow>
      (unit, nat) outcome option" where
  "rw_loop nxt check 0 interface count = None"
| "rw_loop nxt check (Suc fuel) interface count =
     (case nxt interface of (interface, item) \<Rightarrow>
      (case item of
         Ok None \<Rightarrow> Some (Ok count)
       | Ok (Some pkt) \<Rightarrow>
           (case check pkt of
              Ok _ \<Rightarrow> rw_loop nxt check fuel interface (count + 1)
            | Err e \<Rightarrow> Some (Err e) | Panic m \<Rightarrow> Some (Panic m) | Diverge \<Rightarrow> Some Diverge)
       | Err e \<Rightarrow> Some (Err e) | Panic m \<Rightarrow> Some (Panic m) | Diverge \<Rightarrow> Some Diverge))"

definition pcap_rw_test ::
    "('file, 'rd, 'wr, 'io) pcap_lib \<Rightarrow> 'c env \<Rightarrow> nat \<Rightarrow> string \<Rightarrow> nat \<Rightarrow> ('c Packet \<Rightarrow> (unit, unit) outcome) \<Rightarrow>
      (unit, unit) outcome option" where
  "pcap_rw_test lib env fuel path expected_count body =
     (case unwrap (InterfaceReader_init (PcapFile_read_init lib env) path) of
        Ok interface \<Rightarrow>
          map_option (\<lambda>r. obind r (\<lambda>count. assert_eq expected_count count))
            (rw_loop (InterfaceReader_next (PcapFileReader_read lib)) (rw_packet env body) fuel interface 0)
      | Err e \<Rightarrow> Some (Err e) | Panic m \<Rightarrow> Some (Panic m) | Diverge \<Rightarrow> Some Diverge)"

definition starts_with :: "'c env \<Rightarrow> TypeId \<Rightarrow> 'c Packet \<Rightarrow> (unit, unit) outcome" where
  "starts_with env t pkt =
     obind (unwrap_some (case Packet_layers pkt of [] \<Rightarrow> None | l # _ \<Rightarrow> Some l)) (\<lambda>first_layer.
     assert_that (is_layer env first_layer t))"

definition test_pcap_read_write ::
    "('file, 'rd, 'wr, 'io) pcap_lib \<Rightarrow> 'c env \<Rightarrow> nat \<Rightarrow> (unit, unit) outcome option" where
  "test_pcap_read_write lib env fuel =
     pcap_rw_test lib env fuel ''./tests/pcaps/test_pcap_read_write.pcap'' 14 (starts_with env TEther)"

definition test_pcap_unhandled_read_write ::
    "('file, 'rd, 'wr, 'io) pcap_lib \<Rightarrow> 'c env \<Rightarrow> nat \<Rightarrow> (unit, unit) outcome option" where
  "test_pcap_unhandled_read_write lib env fuel =
     pcap_rw_test lib env fuel ''./tests/pcaps/test_pcap_unhandled_read_write.pcap'' 1 (\<lambda>pkt.
       obind (assert_eq 1 (length (Packet_layers pkt))) (\<lambda>_. starts_with env TRaw pkt))"

text \<open>The comparison of the two serialisations is between two of the same packet: it cannot fail.\<close>

lemma rw_packet_eq:
  "rw_packet env body pkt =
     obind (body pkt) (\<lambda>_. obind (unwrap (Packet_to_bytes env pkt)) (\<lambda>_. unwrap (snd (Packet_finalize env pkt))))"
proof (cases "Packet_finalize env pkt")
  case (Pair pkt2 r)
  then show ?thesis
    by (cases "body pkt"; cases "Packet_to_bytes env pkt"; cases r) (simp_all add: rw_packet_def)
qed

text \<open>What the default parser makes of an Ethernet record passes everything but \<open>finalize\<close>.\<close>

lemma rw_packet_ether:
  assumes "packet_env env" and "parse_packet env (Ether_t env) (PacketParser_new env) d = Some (Ok (rest, pkt))"
  shows "rw_packet env (starts_with env TEther) pkt = unwrap (snd (Packet_finalize env pkt))"
proof -
  from frame_parse_lossless [OF assms(1), of d] assms(2) obtain e ls where
      "Packet_to_bytes env pkt = Ok d" "pkt_layers pkt = LEther e # ls"
    by auto
  then show ?thesis
    by (simp add: rw_packet_eq starts_with_def Packet_layers_def is_layer_def)
qed

text \<open>The records whose packet \<open>finalize\<close> accepts.\<close>

definition finalizes :: "'c env \<Rightarrow> bytes \<Rightarrow> bool" where
  "finalizes env d \<longleftrightarrow> (case parse_packet env (Ether_t env) (PacketParser_new env) d of
     Some (Ok (rest, p)) \<Rightarrow> snd (Packet_finalize env p) = Ok () | _ \<Rightarrow> False)"

lemma unwrap_Ok_iff: "unwrap r = Ok a \<longleftrightarrow> r = Ok a"
  by (cases r) auto

lemma ether_record_check:
  assumes "packet_env env" and "ether_reader env r" and "decodes env d"
  shows "\<exists>p. parse_record r d = Ok p \<and> (rw_packet env (starts_with env TEther) p = Ok () \<longleftrightarrow> finalizes env d)"
proof -
  from assms(3) obtain rest p where p: "parse_packet env (Ether_t env) (PacketParser_new env) d = Some (Ok (rest, p))"
    by (auto simp: decodes_def split: option.splits outcome.splits)
  then have "parse_record r d = Ok p"
    using assms(2) by (simp add: parse_record_def ether_reader_def)
  moreover have "rw_packet env (starts_with env TEther) p = Ok () \<longleftrightarrow> finalizes env d"
    using rw_packet_ether [OF assms(1) p] p by (simp add: finalizes_def unwrap_Ok_iff)
  ultimately show ?thesis by blast
qed

context pcap_file_laws
begin

lemma rw_loop_run:
  fixes env :: "'c env" and s :: "('c, 'rd) PcapFileReader InterfaceReader"
  assumes env: "packet_env env" and reader: "ether_reader env (ir_reader s)"
    and fuel: "length (unread (fr_reader (ir_reader s))) < fuel"
  shows "\<exists>r. rw_loop (InterfaceReader_next (PcapFileReader_read lib)) (rw_packet env (starts_with env TEther)) fuel s count = Some r \<and>
    (let ds = takeWhile (decodes env) (unread (fr_reader (ir_reader s))) in
     if list_all (finalizes env) ds then r = Ok (count + length ds) else \<forall>n. r \<noteq> Ok n)"
  using reader fuel
proof (induction "unread (fr_reader (ir_reader s))" arbitrary: s fuel count)
  case Nil
  then obtain n where fuel: "fuel = Suc n" by (cases fuel) auto
  obtain s' :: "('c, 'rd) PcapFileReader InterfaceReader" where
      "InterfaceReader_next (PcapFileReader_read lib) s = (s', Ok None)"
    using next_at_end [of s] Nil.hyps by auto
  with Nil.hyps [symmetric] show ?case by (simp add: fuel Let_def)
next
  case (Cons d ds)
  from Cons.prems(2) obtain n where fuel: "fuel = Suc n" by (cases fuel) auto
  from next_at_record [OF Cons.hyps(2) [symmetric] Cons.prems(1)] obtain s' where
      s': "InterfaceReader_next (PcapFileReader_read lib) s
          = (s', result_ok (parse_record (ir_reader s) d :: ('io DataLinkError, 'c Packet) outcome))"
        "unread (fr_reader (ir_reader s')) = ds" "ether_reader env (ir_reader s')"
    by blast
  have fuel': "length (unread (fr_reader (ir_reader s'))) < n"
    using Cons.prems(2) s'(2) fuel unfolding Cons.hyps(2) [symmetric] by simp
  note IH = Cons.hyps(1) [OF s'(2) [symmetric] s'(3) fuel', of "count + 1"]
  show ?case
  proof (cases "decodes env d")
    case True
    then obtain p where p: "parse_record (ir_reader s) d = (Ok p :: ('io DataLinkError, 'c Packet) outcome)"
        "rw_packet env (starts_with env TEther) p = Ok () \<longleftrightarrow> finalizes env d"
      using ether_record_check [OF env Cons.prems(1), of d] by blast
    show ?thesis
    proof (cases "finalizes env d")
      case fin: True
      with IH True p s' show ?thesis
        unfolding Cons.hyps(2) [symmetric]
        by (cases "list_all (finalizes env) (takeWhile (decodes env) ds)") (simp_all add: fuel Let_def)
    next
      case False
      with True p s' show ?thesis
        unfolding Cons.hyps(2) [symmetric]
        by (cases "rw_packet env (starts_with env TEther) p") (simp_all add: fuel Let_def)
    qed
  next
    case False
    then obtain e where "parse_record (ir_reader s) d = (Err e :: ('io DataLinkError, 'c Packet) outcome)"
      using ether_reader_record [OF env Cons.prems(1), of d] by auto
    with False s'(1) show ?thesis
      unfolding Cons.hyps(2) [symmetric] by (simp add: fuel Let_def)
  qed
qed

end

text \<open>The capture file of the second test has one record, of a link type other than Ethernet: the test passes.\<close>

lemma test_pcap_unhandled_passes:
  assumes env: "packet_env env" and laws: "pcap_file_laws lib stored written unread damage"
    and reader: "pl_open lib ''./tests/pcaps/test_pcap_unhandled_read_write.pcap'' = Inr file" "pl_reader_new lib file = Inr r"
      "pl_datalink lib r = OTHER_LINK 249"
    and stored: "stored file = [0x1b # replicate 26 0]"
  shows "test_pcap_unhandled_read_write lib env 2 = Some (Ok ())"
proof -
  let ?s = "\<lparr>ir_reader = \<lparr>fr_packet_parser = PacketParser_new env, fr_reader = r,
      fr_parser_fn = (\<lambda>packet_parser i. of_run (parse_packet env (Raw_t env) packet_parser i))\<rparr>,
    ir_metadata = \<lparr>md_mac_address = None\<rparr>\<rparr>"
  let ?d = "0x1b # replicate 26 0 :: bytes"
  let ?p = "Packet_from_layers [LRaw \<lparr>raw_data = ?d, raw_bit_offset = 0\<rparr>]"
  have init: "unwrap (InterfaceReader_init (PcapFile_read_init lib env) path) = (Ok ?s :: (unit, _) outcome)"
    if "path = ''./tests/pcaps/test_pcap_unhandled_read_write.pcap''" for path
    using reader that by (simp add: InterfaceReader_init_def PcapFile_read_init_def PcapFile_read_init_with_parser_def)
  have "unread r = [?d]"
    using pcap_file_laws.reader_start [OF laws reader(2)] stored by simp
  with pcap_file_laws.next_record [OF laws] obtain r' where r': "pl_next_packet lib r = (r', Some (Inr ?d))" "unread r' = []"
    by blast
  obtain r'' ended where r'': "pl_next_packet lib r' = (r'', ended)" "ended = None \<or> (\<exists>e. ended = Some (Inl e))"
    using pcap_file_laws.next_eof [OF laws r'(2)] pcap_file_laws.next_damage [OF laws r'(2)] by (cases "damage r'") auto
  have parse: "parse_packet env (Raw_t env) pp ?d = Some (Ok ([], ?p))" for pp
    using deku_laws.Raw_parse_eq [OF packet_env.env_deku [OF env], of "env_pf env" ?d]
    by (simp add: parse_packet_def Raw_t_def parse_loop.simps)
  have check: "rw_packet env (\<lambda>pkt. obind (assert_eq 1 (length (Packet_layers pkt))) (\<lambda>_. starts_with env TRaw pkt)) ?p = Ok ()"
    using deku_laws.Raw_to_bytes_eq [OF packet_env.env_deku [OF env]]
    by (simp add: rw_packet_eq Packet_layers_def Packet_from_layers_def starts_with_def is_layer_def assert_simps
        Packet_to_bytes_def layers_to_bytes_def Packet_finalize_from Raw_finalize_def)
  show ?thesis
    unfolding test_pcap_unhandled_read_write_def pcap_rw_test_def init [OF refl] numeral_2_eq_2
    using r' r'' check parse
    by (auto simp: InterfaceReader_next_def PcapFileReader_read_def parse_record_def assert_simps)
qed

section \<open>Properties\<close>

text \<open>
  What the read-write test over an Ethernet capture file checks: it ends, and passes exactly when as many records as
  expected decode before the first that does not, and \<open>finalize\<close> accepts the packet of each of them.  That packets
  start with Ethernet and serialise never fails, and neither does the comparison of the serialisations before and
  after \<open>finalize\<close>: it compares the packet with itself, so what \<open>finalize\<close> does to the bytes is not tested.
\<close>

lemma pcap_rw_test_passes_iff:
  assumes env: "packet_env env" and laws: "pcap_file_laws lib stored written unread damage"
    and reader: "pl_open lib path = Inr file" "pl_reader_new lib file = Inr r" "pl_datalink lib r = ETHERNET"
    and fuel: "length (stored file) < fuel"
  shows "\<exists>res. pcap_rw_test lib env fuel path expected_count (starts_with env TEther) = Some res \<and>
    (res = Ok () \<longleftrightarrow> length (takeWhile (decodes env) (stored file)) = expected_count \<and>
       list_all (finalizes env) (takeWhile (decodes env) (stored file)))"
proof -
  let ?s = "\<lparr>ir_reader = \<lparr>fr_packet_parser = PacketParser_new env, fr_reader = r,
      fr_parser_fn = (\<lambda>packet_parser i. of_run (parse_packet env (Ether_t env) packet_parser i))\<rparr>,
    ir_metadata = \<lparr>md_mac_address = None\<rparr>\<rparr>"
  have start: "unread r = stored file"
    using pcap_file_laws.reader_start [OF laws reader(2)] .
  then have pre: "ether_reader env (ir_reader ?s)" "length (unread (fr_reader (ir_reader ?s))) < fuel"
    using fuel by (simp_all add: ether_reader_def)
  have init: "unwrap (InterfaceReader_init (PcapFile_read_init lib env) path) = (Ok ?s :: (unit, _) outcome)"
    using reader by (simp add: InterfaceReader_init_def PcapFile_read_init_def PcapFile_read_init_with_parser_def)
  from pcap_file_laws.rw_loop_run [OF laws env pre, of 0] obtain res where
      "rw_loop (InterfaceReader_next (PcapFileReader_read lib)) (rw_packet env (starts_with env TEther)) fuel ?s 0 = Some res"
      "if list_all (finalizes env) (takeWhile (decodes env) (stored file))
       then res = Ok (length (takeWhile (decodes env) (stored file))) else \<forall>n. res \<noteq> Ok n"
    by (auto simp: start Let_def)
  then show ?thesis
    by (cases res) (auto simp: pcap_rw_test_def init assert_simps split: if_splits)
qed

text \<open>A capture file of one Ethernet and IPv4 frame without length and checksum.\<close>

definition stale_packet :: "unit Packet" where
  "stale_packet = Packet_from_layers [LEther Ether_default, LIpv4 Ipv4_default]"

lemma stale_packet_parses:
  "\<exists>b. Packet_to_bytes dev_env stale_packet = Ok b \<and>
     parse_packet dev_env (Ether_t dev_env) (PacketParser_new dev_env) b = Some (Ok ([], stale_packet))"
  by (rule frame_wf_reparse [OF dev_packets.packet_env_axioms])
    (simp add: frame_wf_def stale_packet_def Packet_from_layers_def Ether_default_def EtherType_default_def Ether_wf_def
      EtherType_wf_def Ipv4_wf_def Ipv4_parsed_def Ipv4_default_def IpProtocol_wf_def IpProtocol_default_def)

lemma stale_packet_finalize:
  "\<exists>v. Packet_finalize dev_env stale_packet = (Packet_from_layers [LEther Ether_default, LIpv4 v], Ok ()) \<and> ip4_length v = 20"
proof -
  have "\<exists>c. Ipv4_finalize dev_env Ipv4_default [LEther Ether_default] []
      = (Ipv4_default\<lparr>ip4_length := 20, ip4_checksum := c\<rparr>, Ok ())"
    using dev_packets.Ipv4_finalize_spec [of Ipv4_default "[LEther Ether_default]" "[]"]
    by (auto simp: ref.Ipv4_default_bytes layers_to_bytes_def)
  then show ?thesis
    by (auto simp: stale_packet_def Packet_finalize_from Packet_from_layers_def Ether_finalize_def)
qed

text \<open>It passes on a packet that \<open>finalize\<close> changes.\<close>

lemma pcap_rw_test_misses_finalize:
  "\<exists>b p. Packet_to_bytes dev_env stale_packet = Ok b \<and> Packet_finalize dev_env stale_packet = (p, Ok ()) \<and> p \<noteq> stale_packet \<and>
     pcap_rw_test (mem_pcap [b]) dev_env 2 ''in.pcap'' 1 (starts_with dev_env TEther) = Some (Ok ())"
proof -
  obtain b where b: "Packet_to_bytes dev_env stale_packet = Ok b"
      "parse_packet dev_env (Ether_t dev_env) (PacketParser_new dev_env) b = Some (Ok ([], stale_packet))"
    using stale_packet_parses by blast
  obtain v where v: "Packet_finalize dev_env stale_packet = (Packet_from_layers [LEther Ether_default, LIpv4 v], Ok ())"
      "ip4_length v = 20"
    using stale_packet_finalize by blast
  have "decodes dev_env b" "finalizes dev_env b"
    using b(2) v(1) by (simp_all add: decodes_def finalizes_def)
  moreover have "pl_open (mem_pcap [b]) ''in.pcap'' = Inr [b]" "pl_reader_new (mem_pcap [b]) [b] = Inr [b]"
      "pl_datalink (mem_pcap [b]) [b] = ETHERNET" "length [b] < (2 :: nat)"
    by (simp_all add: mem_pcap_def)
  ultimately have "pcap_rw_test (mem_pcap [b]) dev_env 2 ''in.pcap'' 1 (starts_with dev_env TEther) = Some (Ok ())"
    using pcap_rw_test_passes_iff [OF dev_packets.packet_env_axioms mem.pcap_file_laws_axioms, of "[b]" "''in.pcap''" "[b]" "[b]" 2 1]
    by auto
  moreover have "Packet_from_layers [LEther Ether_default, LIpv4 v] \<noteq> stale_packet"
    using v(2) by (auto simp: stale_packet_def Packet_from_layers_def Ipv4_default_def)
  ultimately show ?thesis using b(1) v(1) by blast
qed

end
