(* ===== verification/Packet_Tests.thy ===== *)
theory Packet_Tests
  imports Packet Assertions
begin

text \<open>
  The unit tests at the end of \<open>src/packet/mod.rs\<close>, with the layers they declare.  The tests are run on the model: a
  test passes when it is \<open>Ok ()\<close>.  The test of \<open>Packet::finalize\<close> counts the calls on packets of three layers; the
  property of this theory is its statement for every packet.
\<close>

section \<open>The declared layers\<close>

text \<open>\<open>declare_test_layer!\<close> declares a type; the three types of the tests are the values of \<open>named_layer\<close>.\<close>

datatype named_layer = Layer0 | Layer1 | Layer2

fun named_bytes :: "named_layer \<Rightarrow> bytes" where
  "named_bytes Layer0 = ascii ''layer0''"
| "named_bytes Layer1 = ascii ''layer1''"
| "named_bytes Layer2 = ascii ''layer2''"

declare named_bytes.simps [simp del]

fun named_id :: "named_layer \<Rightarrow> nat" where
  "named_id Layer0 = 0"
| "named_id Layer1 = 1"
| "named_id Layer2 = 2"

definition named_finalize ::
    "named_layer \<Rightarrow> named_layer LayerOwned list \<Rightarrow> named_layer LayerOwned list \<Rightarrow>
      named_layer \<times> (LayerError, unit) outcome" where
  "named_finalize self prev next = (self, Ok ())"

definition named_parse :: "named_layer \<Rightarrow> bytes \<Rightarrow> (LayerError, bytes \<times> named_layer) outcome" where
  "named_parse l input =
     obind (split_at input (length (named_bytes l))) (\<lambda>(val, rest).
     obind (assert_eq val (named_bytes l)) (\<lambda>_.
     Ok (rest, l)))"

definition named_to_bytes :: "named_layer \<Rightarrow> (LayerError, bytes) outcome" where
  "named_to_bytes self = Ok (named_bytes self)"

definition named_vtable :: "named_layer vtable" where
  "named_vtable = \<lparr>vt_type_id = named_id, vt_finalize = named_finalize, vt_to_bytes = named_to_bytes,
     vt_length = (\<lambda>self. omap length (named_to_bytes self))\<rparr>"

definition named_env :: "deku \<Rightarrow> platform \<Rightarrow> named_layer env" where
  "named_env D pf = \<lparr>env_dk = D, env_pf = pf, env_vt = named_vtable\<rparr>"

definition named_t :: "named_layer \<Rightarrow> (named_layer, named_layer) layer_type" where
  "named_t l = \<lparr>lt_id = TCustom (named_id l), lt_cast = (\<lambda>x. if x = LCustom l then Some l else None),
     lt_box = LCustom, lt_parse = named_parse l\<rparr>"

lemma named_id_eq [simp]: "named_id k = named_id l \<longleftrightarrow> k = l"
  by (cases k; cases l) simp_all

interpretation named: client_layers named_vtable
  by unfold_locales (simp_all add: named_vtable_def named_to_bytes_def named_finalize_def)

interpretation named_k: layer_kind "named_env D pf" "named_t l" for D pf l
  by unfold_locales
    (auto simp: named_t_def named_env_def named_vtable_def named_parse_def outcome_simps
      elim: type_id.elims split: if_splits)

interpretation named_packets: packet_env "named_env ref_deku dev_profile"
  by (rule packet_env.intro) (simp_all add: named_env_def dev_profile_def ref.deku_laws_axioms named.client_layers_axioms)

section \<open>Packets\<close>

definition test_packet_view_from_layers :: "(unit, unit) outcome" where
  "test_packet_view_from_layers =
     (let layers = [LCustom Layer0, LCustom Layer1]; packet = PacketView_from_layers layers in
      assert_eq 2 (length (view_layers packet)))"

text \<open>\<open>layers_mut\<close> gives the same slice as \<open>layers\<close>.\<close>

definition test_packet_owned_from_layers :: "(unit, unit) outcome" where
  "test_packet_owned_from_layers =
     (let layers = [LCustom Layer0, LCustom Layer1]; packet = Packet_from_layers layers in
      obind (assert_eq 2 (length (Packet_layers packet))) (\<lambda>_.
      assert_eq 2 (length (pkt_layers packet))))"

definition test_packet_to_bytes :: "named_layer env \<Rightarrow> (unit, unit) outcome" where
  "test_packet_to_bytes env =
     (let layers = [LCustom Layer0, LCustom Layer1, LCustom Layer2]; packet = Packet_from_layers layers in
      obind (unwrap (Packet_to_bytes env packet)) (\<lambda>bytes.
      assert_eq (ascii ''layer0layer1layer2'') bytes))"

definition test_packet_finalize_lengths :: "named_layer env \<Rightarrow> (unit, unit) outcome" where
  "test_packet_finalize_lengths env = for_each [0..<5] (\<lambda>i.
     let layers = map (\<lambda>_. LCustom Layer0) [0..<i]; packet = Packet_from_layers layers in
     unwrap (snd (Packet_finalize env packet)))"

section \<open>Counting the calls of \<open>finalize\<close>\<close>

record TestLayer =
  tl_count :: u8
  tl_expected_num_prev :: nat
  tl_expected_num_next :: nat

definition TestLayer_new :: "nat \<Rightarrow> nat \<Rightarrow> TestLayer" where
  "TestLayer_new expected_num_prev expected_num_next =
     \<lparr>tl_count = 0, tl_expected_num_prev = expected_num_prev, tl_expected_num_next = expected_num_next\<rparr>"

definition unimplemented :: "('e, 'a) outcome" where
  "unimplemented = Panic ''not implemented''"

definition add_u8 :: "platform \<Rightarrow> u8 \<Rightarrow> u8 \<Rightarrow> ('e, u8) outcome" where
  "add_u8 pf a b = (if overflow_checks pf \<and> 2 ^ 8 \<le> unat a + unat b then Panic overflow_msg else Ok (a + b))"

definition TestLayer_finalize ::
    "platform \<Rightarrow> TestLayer \<Rightarrow> TestLayer LayerOwned list \<Rightarrow> TestLayer LayerOwned list \<Rightarrow>
      TestLayer \<times> (LayerError, unit) outcome" where
  "TestLayer_finalize pf self prev next =
     try_in self (assert_eq (tl_expected_num_prev self) (length prev)) (\<lambda>_.
     try_in self (assert_eq (tl_expected_num_next self) (length next)) (\<lambda>_.
     try_in self (add_u8 pf (tl_count self) 1) (\<lambda>count.
     (self\<lparr>tl_count := count\<rparr>, Ok ()))))"

definition TestLayer_to_bytes :: "TestLayer \<Rightarrow> (LayerError, bytes) outcome" where
  "TestLayer_to_bytes self = unimplemented"

definition TestLayer_vtable :: "platform \<Rightarrow> TestLayer vtable" where
  "TestLayer_vtable pf = \<lparr>vt_type_id = (\<lambda>_. 0), vt_finalize = TestLayer_finalize pf, vt_to_bytes = TestLayer_to_bytes,
     vt_length = (\<lambda>self. omap length (TestLayer_to_bytes self))\<rparr>"

definition counting_env :: "deku \<Rightarrow> platform \<Rightarrow> TestLayer env" where
  "counting_env D pf = \<lparr>env_dk = D, env_pf = pf, env_vt = TestLayer_vtable pf\<rparr>"

text \<open>\<open>unwrap\<close> in \<open>map\<close>, and \<open>collect\<close>.\<close>

fun get_all :: "('l \<Rightarrow> 'a option) \<Rightarrow> 'l list \<Rightarrow> ('e, 'a list) outcome" where
  "get_all f [] = Ok []"
| "get_all f (l # ls) = obind (unwrap_some (f l)) (\<lambda>a. omap (\<lambda>rest. a # rest) (get_all f ls))"

definition test_packet_finalize :: "TestLayer env \<Rightarrow> (unit, unit) outcome" where
  "test_packet_finalize env =
     (let layers = [LCustom (TestLayer_new 0 2), LCustom (TestLayer_new 1 1), LCustom (TestLayer_new 2 0)];
          packet = Packet_from_layers layers in
      case Packet_finalize env packet of (packet, finalized) \<Rightarrow>
      obind (unwrap finalized) (\<lambda>_.
      obind (get_all (get_custom env 0) (pkt_layers packet)) (\<lambda>test_layers.
      obind (assert_eq 3 (length test_layers)) (\<lambda>_.
      for_each test_layers (\<lambda>layer. assert_eq 1 (tl_count layer))))))"

section \<open>Bindings\<close>

text \<open>\<open>bind_layer\<close> with a closure that may panic; a closure that cannot is the \<open>bind_layer\<close> of theory \<open>Packet\<close>.\<close>

definition bind_closure ::
    "('l, 'c) layer_type \<Rightarrow> ('l \<Rightarrow> bytes \<Rightarrow> (PacketError, 'c layer_parser option) outcome) \<Rightarrow>
      'c PacketParser \<Rightarrow> 'c PacketParser" where
  "bind_closure T f self =
     (let bindings = (case layer_bindings self (lt_id T) of None \<Rightarrow> [] | Some bs \<Rightarrow> bs);
          binding = (\<lambda>current_layer rest. case lt_cast T current_layer of
            None \<Rightarrow> Panic ''dev error: This is always Some'' | Some l \<Rightarrow> f l rest) in
      self\<lparr>layer_bindings := (layer_bindings self)(lt_id T \<mapsto> bindings @ [binding])\<rparr>)"

lemma bind_closure_total: "bind_closure T (\<lambda>l rest. Ok (f l rest)) pp = bind_layer T f pp"
  by (simp add: bind_closure_def bind_layer_def binding_of_def [abs_def] Let_def)

definition binding_types :: "'c PacketParser \<Rightarrow> nat" where
  "binding_types pb = card (dom (layer_bindings pb))"

definition bindings_of :: "'c PacketParser \<Rightarrow> TypeId \<Rightarrow> ('e, nat) outcome" where
  "bindings_of pb t = omap length (unwrap_some (layer_bindings pb t))"

definition test_packet_parser_bind_layer :: "(unit, unit) outcome" where
  "test_packet_parser_bind_layer =
     (let pb = without_bindings in
      obind (assert_eq 0 (binding_types pb)) (\<lambda>_.
      let pb = bind_layer (named_t Layer0) (\<lambda>_ _. Some (parse_layer (named_t Layer1))) pb in
      obind (assert_eq 1 (binding_types pb)) (\<lambda>_.
      obind (bindings_of pb (lt_id (named_t Layer0))) (\<lambda>n.
      obind (assert_eq 1 n) (\<lambda>_.
      let pb = bind_layer (named_t Layer0) (\<lambda>_ _. Some (parse_layer (named_t Layer1))) pb in
      obind (assert_eq 1 (binding_types pb)) (\<lambda>_.
      obind (bindings_of pb (lt_id (named_t Layer0))) (\<lambda>n.
      assert_eq 2 n)))))))"

text \<open>The length that the closure asserts is a parameter: 8 in the test.\<close>

definition test_packet_parser_bind_layer_rest :: "nat \<Rightarrow> named_layer env \<Rightarrow> (unit, unit) outcome" where
  "test_packet_parser_bind_layer_rest expected_len env =
     (let pb = without_bindings in
      obind (assert_eq 0 (binding_types pb)) (\<lambda>_.
      let pb = bind_closure (named_t Layer0) (\<lambda>_ rest.
            obind (assert_eq expected_len (length rest)) (\<lambda>_. Ok (Some (parse_layer (named_t Layer1))))) pb in
      obind (assert_eq 1 (binding_types pb)) (\<lambda>_.
      obind (unwrap (of_run (parse_packet env (named_t Layer0) pb (ascii ''layer0'')))) (\<lambda>_.
      Ok ()))))"

text \<open>\<open>get_layer!(packet.layers[i], T).is_some()\<close>.\<close>

definition assert_named :: "named_layer env \<Rightarrow> named_layer Packet \<Rightarrow> nat \<Rightarrow> named_layer \<Rightarrow> (unit, unit) outcome" where
  "assert_named env packet i l =
     obind (index_list (pkt_layers packet) i) (\<lambda>layer. assert_that (get_custom env (named_id l) layer \<noteq> None))"

definition assert_parses ::
    "named_layer env \<Rightarrow> named_layer PacketParser \<Rightarrow> bytes \<Rightarrow> named_layer list \<Rightarrow> (unit, unit) outcome" where
  "assert_parses env pb input expected =
     obind (unwrap (of_run (parse_packet env (named_t Layer0) pb input))) (\<lambda>(rest, packet).
     obind (assert_eq (length expected) (length (pkt_layers packet))) (\<lambda>_.
     obind (assert_that (rest = [])) (\<lambda>_.
     for_each (enumerate 0 expected) (\<lambda>(i, l). assert_named env packet i l))))"

definition test_packet_parser_none :: "named_layer env \<Rightarrow> (unit, unit) outcome" where
  "test_packet_parser_none env =
     (let pb = without_bindings in
      obind (assert_eq 0 (binding_types pb)) (\<lambda>_.
      let pb = bind_layer (named_t Layer0) (\<lambda>_ _. None) pb in
      obind (assert_parses env pb (ascii ''layer0'') [Layer0]) (\<lambda>_.
      let pb = bind_layer (named_t Layer0) (\<lambda>_ _. Some (parse_layer (named_t Layer1))) pb in
      assert_parses env pb (ascii ''layer0layer1'') [Layer0, Layer1])))"

definition test_packet_parse_packet_binding_order :: "named_layer env \<Rightarrow> (unit, unit) outcome" where
  "test_packet_parse_packet_binding_order env =
     (let pb = without_bindings in
      obind (assert_eq 0 (binding_types pb)) (\<lambda>_.
      let pb = bind_layer (named_t Layer0) (\<lambda>_ _. Some (parse_layer (named_t Layer1))) pb in
      obind (assert_parses env pb (ascii ''layer0layer1'') [Layer0, Layer1]) (\<lambda>_.
      let pb = bind_layer (named_t Layer0) (\<lambda>_ _. Some (parse_layer (named_t Layer2))) pb in
      assert_parses env pb (ascii ''layer0layer2'') [Layer0, Layer2])))"

section \<open>The tests pass\<close>

lemma named_env_simps [simp]: "env_vt (named_env D pf) = named_vtable" "env_vt (counting_env D pf) = TestLayer_vtable pf"
  by (simp_all add: named_env_def counting_env_def)

lemma named_type_id [simp]: "type_id (named_env D pf) (LCustom l) = TCustom (named_id l)"
  by (simp add: named_vtable_def)

lemma binding_types_simps [simp]:
  "binding_types without_bindings = 0"
  "binding_types (bind_layer T f without_bindings) = 1"
  "binding_types (bind_layer T f (bind_layer T g without_bindings)) = 1"
  "binding_types (bind_closure T h without_bindings) = 1"
  by (simp_all add: binding_types_def without_bindings_def bind_layer_def bind_closure_def)

lemma packet_tests_pass:
  "test_packet_view_from_layers = Ok ()" "test_packet_owned_from_layers = Ok ()"
  "test_packet_to_bytes (named_env D pf) = Ok ()" "test_packet_finalize_lengths (named_env D pf) = Ok ()"
  subgoal by (simp add: test_packet_view_from_layers_def PacketView_from_layers_def assert_simps)
  subgoal by (simp add: test_packet_owned_from_layers_def Packet_from_layers_def Packet_layers_def assert_simps)
  subgoal by (simp add: test_packet_to_bytes_def Packet_to_bytes_def Packet_from_layers_def layers_to_bytes_def
        named_vtable_def named_to_bytes_def named_bytes.simps ascii_def)
  subgoal by (simp add: test_packet_finalize_lengths_def Packet_finalize_from Packet_from_layers_def upt_rec
        named_vtable_def named_finalize_def)
  done


lemma named_parse_simps [simp]:
  "lt_parse (named_t l) = named_parse l" "lt_box (named_t l) = LCustom" "lt_id (named_t l) = TCustom (named_id l)"
  "lt_cast (named_t l) x = (if x = LCustom l then Some l else None)"
  by (simp_all add: named_t_def)

lemma named_parse_own [simp]:
  "named_parse l (named_bytes l @ rest) = Ok (rest, l)" "named_parse l (named_bytes l) = Ok ([], l)"
  by (simp_all add: named_parse_def split_at_def)

lemma ascii_append: "ascii (xs @ ys) = ascii xs @ ascii ys"
  by (simp add: ascii_def)

text \<open>What the parser with one, or two, bindings for \<open>Layer0\<close> does with the two inputs of the tests.\<close>

lemma parse_one: "parse_packet (named_env D pf) (named_t Layer0) pb (named_bytes Layer0)
    = Some (Ok ([], Packet_from_layers [LCustom Layer0]))"
  by (simp add: parse_packet_def parse_loop.simps)

lemma parse_two:
  assumes "layer_bindings pb (TCustom 0) = Some (bs @ [binding_of (named_t Layer0) (\<lambda>_ _. Some (parse_layer (named_t l)))])"
  shows "parse_packet (named_env D pf) (named_t Layer0) pb (named_bytes Layer0 @ named_bytes l)
    = Some (Ok ([], Packet_from_layers [LCustom Layer0, LCustom l]))"
proof -
  have "next_layer_parser (named_env D pf) pb (LCustom Layer0) rest = Ok (Some (parse_layer (named_t l)))" for rest
    using assms by (simp add: next_layer_parser_def binding_of_def named_vtable_def)
  moreover have "named_bytes l \<noteq> []"
    by (cases l) (simp_all add: named_bytes.simps ascii_def)
  ultimately show ?thesis
    by (simp add: parse_packet_def parse_loop.simps parse_layer_def)
qed

lemma bind_layer_last: "layer_bindings (bind_layer (named_t l) f pb) (TCustom (named_id l))
    = Some ((case layer_bindings pb (TCustom (named_id l)) of None \<Rightarrow> [] | Some bs \<Rightarrow> bs) @ [binding_of (named_t l) f])"
  by (simp add: bind_layer_def Let_def)

lemma assert_parses_Ok:
  assumes "parse_packet (named_env D pf) (named_t Layer0) pb input = Some (Ok ([], Packet_from_layers (map LCustom ls)))"
  shows "assert_parses (named_env D pf) pb input ls = Ok ()"
  using assms
  by (auto simp: assert_parses_def Packet_from_layers_def for_each_Ok in_set_enumerate_eq assert_named_def index_list_def
      get_custom_def named_vtable_def)

lemma binding_tests_pass:
  "test_packet_parser_bind_layer = Ok ()" "test_packet_parser_none (named_env D pf) = Ok ()"
  "test_packet_parse_packet_binding_order (named_env D pf) = Ok ()"
proof -
  show "test_packet_parser_bind_layer = Ok ()"
    by (simp add: test_packet_parser_bind_layer_def bindings_of_def bind_layer_def without_bindings_def Let_def
        binding_types_def assert_simps)
  have bytes: "ascii ''layer0'' = named_bytes Layer0" "ascii ''layer0layer1'' = named_bytes Layer0 @ named_bytes Layer1"
      "ascii ''layer0layer2'' = named_bytes Layer0 @ named_bytes Layer2"
    using ascii_append [of "''layer0''" "''layer1''"] ascii_append [of "''layer0''" "''layer2''"]
    by (simp_all add: named_bytes.simps)
  have last: "\<exists>bs. layer_bindings (bind_layer (named_t Layer0) f pb) (TCustom 0) = Some (bs @ [binding_of (named_t Layer0) f])"
    for f and pb :: "named_layer PacketParser"
    using bind_layer_last [of Layer0 f pb] by auto
  have one: "assert_parses (named_env D pf) pb (ascii ''layer0'') [Layer0] = Ok ()" for pb
    using assert_parses_Ok [where ls = "[Layer0]"] parse_one by (simp add: bytes)
  have two: "assert_parses (named_env D pf) (bind_layer (named_t Layer0) (\<lambda>_ _. Some (parse_layer (named_t l))) pb)
      (named_bytes Layer0 @ named_bytes l) [Layer0, l] = Ok ()" for l pb
  proof -
    from last [of "\<lambda>_ _. Some (parse_layer (named_t l))" pb] obtain bs where
      "layer_bindings (bind_layer (named_t Layer0) (\<lambda>_ _. Some (parse_layer (named_t l))) pb) (TCustom 0)
        = Some (bs @ [binding_of (named_t Layer0) (\<lambda>_ _. Some (parse_layer (named_t l)))])" by blast
    from parse_two [OF this] show ?thesis by (intro assert_parses_Ok) simp
  qed
  show "test_packet_parser_none (named_env D pf) = Ok ()"
    "test_packet_parse_packet_binding_order (named_env D pf) = Ok ()"
    using one two [where l = Layer1] two [where l = Layer2]
    by (simp_all add: test_packet_parser_none_def test_packet_parse_packet_binding_order_def bytes(2,3))
qed

text \<open>
  The closure of \<open>test_packet_parser_bind_layer_rest\<close> is never called, because nothing follows the first layer of the
  input: the test passes whatever length the closure asserts.
\<close>

lemma bind_layer_rest_vacuous: "test_packet_parser_bind_layer_rest n (named_env D pf) = Ok ()"
  using parse_one [of D pf] by (simp add: test_packet_parser_bind_layer_rest_def named_bytes.simps(1) [symmetric])

section \<open>Properties\<close>

text \<open>The expectations of the test for packets of any length: layer \<open>i\<close> has \<open>i\<close> layers before it and the others after it.\<close>

definition counts_expected :: "nat \<Rightarrow> TestLayer list \<Rightarrow> bool" where
  "counts_expected i ts \<longleftrightarrow> (\<forall>j < length ts. tl_expected_num_prev (ts ! j) = i + j \<and>
     tl_expected_num_next (ts ! j) = length ts - Suc j)"

lemma counts_expected_simps [simp]:
  "counts_expected i []"
  "counts_expected i (t # ts) \<longleftrightarrow> tl_expected_num_prev t = i \<and> tl_expected_num_next t = length ts \<and> counts_expected (Suc i) ts"
  by (auto simp: counts_expected_def nth_Cons' less_Suc_eq_0_disj all_conj_distrib Suc_diff_Suc)

lemma add_u8_1: "unat c < 255 \<Longrightarrow> add_u8 pf c 1 = Ok (c + 1)"
  by (simp add: add_u8_def)

lemma finalize_from_counting:
  assumes "\<forall>t \<in> set ts. unat (tl_count t) < 255"
  shows "if counts_expected (length prev) ts
    then finalize_from (counting_env D pf) prev (map LCustom ts)
      = (prev @ map (\<lambda>t. LCustom (t\<lparr>tl_count := tl_count t + 1\<rparr>)) ts, Ok ())
    else \<exists>ls m. finalize_from (counting_env D pf) prev (map LCustom ts) = (ls, Panic m)"
  using assms
proof (induction ts arbitrary: prev)
  case (Cons t ts)
  let ?t = "LCustom (t\<lparr>tl_count := tl_count t + 1\<rparr>)"
  have fin: "layer_finalize (counting_env D pf) (LCustom t) prev (map LCustom ts) =
      (if tl_expected_num_prev t = length prev \<and> tl_expected_num_next t = length ts then (?t, Ok ())
       else (LCustom t, Panic ''assertion failed''))"
    using Cons.prems by (simp add: TestLayer_vtable_def TestLayer_finalize_def add_u8_1 assert_simps)
  show ?case
    using Cons.IH [of "prev @ [?t]"] Cons.prems by (simp add: fin del: layer_finalize.simps)
qed simp

text \<open>
  On a packet of layers that count their calls and assert the numbers of layers before and after them, as the test of
  \<open>finalize\<close> has, \<open>finalize\<close> returns and has added one to every count exactly when layer \<open>i\<close> expects \<open>i\<close> layers before it
  and all the others after it; otherwise it panics.
\<close>

lemma finalize_counts_layers:
  assumes "\<forall>t \<in> set ts. unat (tl_count t) < 255"
  shows "if \<forall>i < length ts. tl_expected_num_prev (ts ! i) = i \<and> tl_expected_num_next (ts ! i) = length ts - Suc i
    then Packet_finalize (counting_env D pf) (Packet_from_layers (map LCustom ts))
      = (Packet_from_layers (map (\<lambda>t. LCustom (t\<lparr>tl_count := tl_count t + 1\<rparr>)) ts), Ok ())
    else \<exists>p m. Packet_finalize (counting_env D pf) (Packet_from_layers (map LCustom ts)) = (p, Panic m)"
  using finalize_from_counting [OF assms, of "[]" D pf]
  by (auto simp: Packet_finalize_from Packet_from_layers_def counts_expected_def split: if_splits)

lemma test_packet_finalize_passes: "test_packet_finalize (counting_env ref_deku dev_profile) = Ok ()"
proof -
  have "Packet_finalize (counting_env ref_deku dev_profile)
      (Packet_from_layers (map LCustom [TestLayer_new 0 2, TestLayer_new 1 1, TestLayer_new 2 0]))
    = (Packet_from_layers (map LCustom [(TestLayer_new 0 2)\<lparr>tl_count := 1\<rparr>, (TestLayer_new 1 1)\<lparr>tl_count := 1\<rparr>,
        (TestLayer_new 2 0)\<lparr>tl_count := 1\<rparr>]), Ok ())"
    using finalize_counts_layers [of "[TestLayer_new 0 2, TestLayer_new 1 1, TestLayer_new 2 0]" ref_deku dev_profile]
    by (simp add: TestLayer_new_def All_less_Suc nth_Cons')
  then show ?thesis
    by (simp add: test_packet_finalize_def Packet_from_layers_def get_custom_def TestLayer_vtable_def assert_simps)
qed

end
