(* ===== verification/Custom_Layer.thy ===== *)
theory Custom_Layer
  imports Bindings
begin

text \<open>
  \<open>examples/custom_layer.rs\<close>: a client that defines a layer of its own, \<open>Http\<close>, and binds it to TCP port 80.  It is
  an instance of what the library asks of a client's layers.  A \<open>String\<close> is the bytes of its UTF-8 encoding;
  \<open>String::from_utf8_lossy\<close> of the standard library replaces each maximal ill-formed sequence by U+FFFD.
\<close>

section \<open>UTF-8\<close>

text \<open>The byte at an index, or zero behind the end.\<close>

definition safe_get :: "bytes \<Rightarrow> nat \<Rightarrow> u8" where
  "safe_get xs i = (if i < length xs then xs ! i else 0)"

definition in_range :: "u8 \<Rightarrow> u8 \<Rightarrow> u8 \<Rightarrow> bool" where
  "in_range lo hi b \<longleftrightarrow> lo \<le> b \<and> b \<le> hi"

definition second_of_three :: "u8 \<Rightarrow> u8 \<Rightarrow> bool" where
  "second_of_three a b \<longleftrightarrow> a = 0xE0 \<and> in_range 0xA0 0xBF b \<or> in_range 0xE1 0xEC a \<and> in_range 0x80 0xBF b \<or>
     a = 0xED \<and> in_range 0x80 0x9F b \<or> in_range 0xEE 0xEF a \<and> in_range 0x80 0xBF b"

definition second_of_four :: "u8 \<Rightarrow> u8 \<Rightarrow> bool" where
  "second_of_four a b \<longleftrightarrow> a = 0xF0 \<and> in_range 0x90 0xBF b \<or> in_range 0xF1 0xF3 a \<and> in_range 0x80 0xBF b \<or>
     a = 0xF4 \<and> in_range 0x80 0x8F b"

abbreviation continuation :: "u8 \<Rightarrow> bool" where
  "continuation \<equiv> in_range 0x80 0xBF"

text \<open>The length of the character at the front, or of the ill-formed sequence there.\<close>

definition utf8_chunk :: "bytes \<Rightarrow> nat \<times> bool" where
  "utf8_chunk xs = (let a = safe_get xs 0 in
     if a < 0x80 then (1, True)
     else if in_range 0xC2 0xDF a then (if continuation (safe_get xs 1) then (2, True) else (1, False))
     else if in_range 0xE0 0xEF a then
       (if second_of_three a (safe_get xs 1)
        then (if continuation (safe_get xs 2) then (3, True) else (2, False)) else (1, False))
     else if in_range 0xF0 0xF4 a then
       (if second_of_four a (safe_get xs 1)
        then (if continuation (safe_get xs 2)
              then (if continuation (safe_get xs 3) then (4, True) else (3, False)) else (2, False)) else (1, False))
     else (1, False))"

lemma utf8_chunk_pos: "(n, valid) = utf8_chunk xs \<Longrightarrow> 0 < n"
  by (simp add: utf8_chunk_def Let_def split: if_splits)

definition replacement :: bytes where
  "replacement = [0xEF, 0xBF, 0xBD]"

function from_utf8_lossy :: "bytes \<Rightarrow> bytes" where
  "from_utf8_lossy xs = (if xs = [] then []
     else (case utf8_chunk xs of (n, valid) \<Rightarrow>
       (if valid then take n xs else replacement) @ from_utf8_lossy (drop n xs)))"
  by pat_completeness auto
termination by (relation "measure length") (auto dest!: utf8_chunk_pos)

declare from_utf8_lossy.simps [simp del]

text \<open>Well-formed UTF-8.\<close>

function utf8 :: "bytes \<Rightarrow> bool" where
  "utf8 xs = (if xs = [] then True else (case utf8_chunk xs of (n, valid) \<Rightarrow> valid \<and> utf8 (drop n xs)))"
  by pat_completeness auto
termination by (relation "measure length") (auto dest!: utf8_chunk_pos)

declare utf8.simps [simp del]

lemma in_range_safe_get: "in_range lo hi (safe_get xs i) \<Longrightarrow> 0 < lo \<Longrightarrow> i < length xs"
  by (auto simp: in_range_def safe_get_def split: if_splits)

lemma safe_get_take: "i < n \<Longrightarrow> n \<le> length xs \<Longrightarrow> safe_get (take n xs @ ys) i = safe_get xs i"
  by (simp add: safe_get_def nth_append)

lemma utf8_chunk_length: "utf8_chunk xs = (n, True) \<Longrightarrow> xs \<noteq> [] \<Longrightarrow> n \<le> length xs"
  by (auto simp: utf8_chunk_def Let_def Suc_le_eq split: if_splits dest!: in_range_safe_get)

lemma utf8_chunk_take:
  assumes "utf8_chunk xs = (n, True)" and "xs \<noteq> []"
  shows "utf8_chunk (take n xs @ ys) = (n, True)"
proof -
  have "n \<le> length xs" using utf8_chunk_length [OF assms] .
  then show ?thesis
    using assms(1) by (auto simp: utf8_chunk_def Let_def safe_get_take split: if_splits)
qed

lemma utf8_chunk_replacement: "utf8_chunk (replacement @ ys) = (3, True)"
  by (simp add: utf8_chunk_def replacement_def safe_get_def second_of_three_def in_range_def)

text \<open>The result is well-formed, and well-formed text is kept.\<close>

lemma utf8_append_chunk:
  assumes "utf8_chunk (c @ ys) = (length c, True)"
  shows "utf8 (c @ ys) \<longleftrightarrow> utf8 ys"
proof (cases "c @ ys = []")
  case False
  with assms show ?thesis by (subst utf8.simps) auto
qed simp

lemma utf8_lossy: "utf8 (from_utf8_lossy xs)"
proof (induction xs rule: from_utf8_lossy.induct)
  case (1 xs)
  show ?case
  proof (cases "xs = []")
    case False
    obtain n valid where chunk: "utf8_chunk xs = (n, valid)" by fastforce
    with 1 False have IH: "utf8 (from_utf8_lossy (drop n xs))" by simp
    show ?thesis
    proof (cases valid)
      case True
      with chunk False have "utf8_chunk (take n xs @ from_utf8_lossy (drop n xs)) = (length (take n xs), True)"
        using utf8_chunk_take utf8_chunk_length by auto
      with utf8_append_chunk [OF this] IH chunk True False show ?thesis
        by (subst from_utf8_lossy.simps) simp
    next
      case False': False
      have "utf8_chunk (replacement @ from_utf8_lossy (drop n xs)) = (length replacement, True)"
        using utf8_chunk_replacement by (simp add: replacement_def)
      with utf8_append_chunk [OF this] IH chunk False' False show ?thesis
        by (subst from_utf8_lossy.simps) simp
    qed
  qed (simp add: from_utf8_lossy.simps [of "[]"] utf8.simps [of "[]"])
qed

lemma lossy_utf8: "utf8 xs \<Longrightarrow> from_utf8_lossy xs = xs"
proof (induction xs rule: from_utf8_lossy.induct)
  case (1 xs)
  show ?case
  proof (cases "xs = []")
    case False
    obtain n valid where chunk: "utf8_chunk xs = (n, valid)" by fastforce
    with "1.prems" False have "valid" "utf8 (drop n xs)" by (subst (asm) utf8.simps; simp)+
    with 1 False chunk show ?thesis by (subst from_utf8_lossy.simps) simp
  qed (simp add: from_utf8_lossy.simps [of "[]"])
qed

lemma lossy_eq_iff: "from_utf8_lossy xs = xs \<longleftrightarrow> utf8 xs"
  using utf8_lossy [of xs] lossy_utf8 [of xs] by auto

section \<open>The layer\<close>

record Http =
  http_data :: bytes

definition Http_finalize :: "Http \<Rightarrow> Http LayerOwned list \<Rightarrow> Http LayerOwned list \<Rightarrow> Http \<times> (LayerError, unit) outcome" where
  "Http_finalize self prev next = (self, Ok ())"

definition Http_parse :: "bytes \<Rightarrow> (LayerError, bytes \<times> Http) outcome" where
  "Http_parse input = Ok ([], \<lparr>http_data = from_utf8_lossy input\<rparr>)"

definition Http_to_bytes :: "Http \<Rightarrow> (LayerError, bytes) outcome" where
  "Http_to_bytes self = Ok (http_data self)"

text \<open>The client's methods; \<open>length\<close> is the default of the trait.\<close>

definition http_vtable :: "Http vtable" where
  "http_vtable = \<lparr>vt_type_id = (\<lambda>_. 0), vt_finalize = Http_finalize, vt_to_bytes = Http_to_bytes,
     vt_length = (\<lambda>self. omap length (Http_to_bytes self))\<rparr>"

interpretation http: client_layers http_vtable
  by unfold_locales (simp_all add: http_vtable_def Http_to_bytes_def Http_finalize_def)

definition Http_t :: "(Http, Http) layer_type" where
  "Http_t = \<lparr>lt_id = TCustom 0, lt_cast = (\<lambda>x. case x of LCustom h \<Rightarrow> Some h | _ \<Rightarrow> None), lt_box = LCustom,
     lt_parse = Http_parse\<rparr>"

definition http_env :: "deku \<Rightarrow> platform \<Rightarrow> Http env" where
  "http_env D pf = \<lparr>env_dk = D, env_pf = pf, env_vt = http_vtable\<rparr>"

interpretation http_k: layer_kind "http_env D pf" Http_t for D pf
  by unfold_locales (auto simp: Http_t_def http_env_def http_vtable_def elim: type_id.elims split: LayerOwned.splits)

interpretation http_packets: packet_env "http_env ref_deku dev_profile"
  by (rule packet_env.intro) (simp_all add: http_env_def dev_profile_def ref.deku_laws_axioms http.client_layers_axioms)

definition custom_parser :: "Http env \<Rightarrow> Http PacketParser" where
  "custom_parser env =
     (let pb = PacketParser_new env;
          pb = bind_layer (Ether_t env) (\<lambda>_ _. Some (parse_layer (Ipv4_t env))) pb;
          pb = bind_layer (Ipv4_t env) (\<lambda>_ _. Some (parse_layer (Tcp_t env))) pb;
          pb = bind_layer (Tcp_t env) (\<lambda>tcp _. if tcp_dport tcp = 80 then Some (parse_layer Http_t) else None) pb
      in pb)"

text \<open>The bindings of the client go before the default ones.\<close>

fun custom_policy :: "Http env \<Rightarrow> Http policy" where
  "custom_policy env (LEther e) rest = Some (parse_layer (Ipv4_t env))"
| "custom_policy env (LIpv4 v) rest = Some (parse_layer (Tcp_t env))"
| "custom_policy env (LTcp t) rest = Some (if tcp_dport t = 80 then parse_layer Http_t else parse_layer (Raw_t env))"
| "custom_policy env x rest = default_policy env x rest"

lemma custom_parser_resolves: "resolves env (custom_parser env) (custom_policy env)"
proof -
  let ?pol = "override (Tcp_t env) (\<lambda>tcp _. if tcp_dport tcp = 80 then Some (parse_layer Http_t) else None)
    (override (Ipv4_t env) (\<lambda>_ _. Some (parse_layer (Tcp_t env)))
    (override (Ether_t env) (\<lambda>_ _. Some (parse_layer (Ipv4_t env))) (default_policy env)))"
  have "resolves env (custom_parser env) ?pol"
    unfolding custom_parser_def Let_def PacketParser_new_def PacketParser_default_def
    by (intro resolves_bind [OF tcp_k.layer_kind_axioms] resolves_bind [OF ipv4_k.layer_kind_axioms]
        resolves_bind [OF ether_k.layer_kind_axioms] create_packetparser_resolves)
  moreover have "?pol x rest = custom_policy env x rest" for x rest
    by (cases x) (simp_all add: override_def default_policy_def layer_type_defs)
  ultimately show ?thesis by (simp add: resolves_def)
qed

lemma resolved_step:
  assumes "resolves env self pol" and "pol cur rest = Some p" and "p rest = Ok (rest', l)" and "rest \<noteq> []"
  shows "parse_loop env self layers cur rest = parse_loop env self (layers @ [cur]) l rest'"
  using assms by (subst parse_loop.simps) (simp add: resolves_def)

lemma loop_end: "parse_loop env self layers cur [] = Some (Ok ([], Packet_from_layers (layers @ [cur])))"
  by (subst parse_loop.simps) simp

lemma Http_parse_layer: "parse_layer Http_t input = Ok ([], LCustom \<lparr>http_data = from_utf8_lossy input\<rparr>)"
  by (simp add: parse_layer_def Http_t_def Http_parse_def)

lemma http_env_client: "packet_env (http_env D pf) \<Longrightarrow> to_bytes (http_env D pf) (LCustom h) = Ok (http_data h)"
  by (simp add: http_env_def http_vtable_def Http_to_bytes_def)

lemma layers_wf_bytes:
  assumes "packet_env env" and "list_all layer_wf ls"
  shows "\<exists>bs. layers_to_bytes env ls = Ok bs"
  using assms(2)
proof (induction ls)
  case (Cons l ls)
  with packet_env.layer_wf_bytes [OF assms(1), of l] show ?case by (auto simp: layers_to_bytes_eq)
qed (simp add: layers_to_bytes_eq)

lemma custom_request:
  assumes env: "packet_env (http_env D pf)" and wf: "list_all layer_wf [LEther e, LIpv4 v, LTcp t]"
    and dport: "tcp_dport t = 80" and payload: "payload \<noteq> []"
    and hdr: "layers_to_bytes (http_env D pf) [LEther e, LIpv4 v, LTcp t] = Ok hdr"
  shows "parse_packet (http_env D pf) (Ether_t (http_env D pf)) (custom_parser (http_env D pf)) (hdr @ payload)
    = Some (Ok ([], Packet_from_layers [LEther e, LIpv4 v, LTcp t, LCustom \<lparr>http_data = from_utf8_lossy payload\<rparr>]))"
proof -
  let ?env = "http_env D pf"
  obtain be bv bt where b: "to_bytes ?env (LEther e) = Ok be" "to_bytes ?env (LIpv4 v) = Ok bv" "bv \<noteq> []"
      "to_bytes ?env (LTcp t) = Ok bt" "bt \<noteq> []"
    using wf packet_env.layer_wf_bytes [OF env, of "LEther e"] packet_env.layer_wf_bytes [OF env, of "LIpv4 v"]
      packet_env.layer_wf_bytes [OF env, of "LTcp t"] by auto
  with hdr have bytes: "hdr = be @ bv @ bt" by (simp add: layers_to_bytes_eq)
  note reparse = packet_env.kind_reparse [OF env]
  have "kind_parser ?env TEther (be @ bv @ bt @ payload) = Ok (bv @ bt @ payload, LEther e)"
    using reparse [OF _ b(1)] wf by simp
  then have first: "lt_parse (Ether_t ?env) (hdr @ payload) = Ok (bv @ bt @ payload, e)"
    by (simp add: parse_layer_def bytes Ether_t_def outcome_simps)
  have ip: "parse_layer (Ipv4_t ?env) (bv @ bt @ payload) = Ok (bt @ payload, LIpv4 v)"
    using reparse [OF _ b(2)] wf by simp
  have tcp: "parse_layer (Tcp_t ?env) (bt @ payload) = Ok (payload, LTcp t)"
    using reparse [OF _ b(4)] wf by simp
  note step = resolved_step [OF custom_parser_resolves]
  have "parse_loop ?env (custom_parser ?env) [] (LEther e) (bv @ bt @ payload)
      = parse_loop ?env (custom_parser ?env) [LEther e] (LIpv4 v) (bt @ payload)"
    using step [where p = "parse_layer (Ipv4_t ?env)", OF _ ip] payload by simp
  also have "\<dots> = parse_loop ?env (custom_parser ?env) [LEther e, LIpv4 v] (LTcp t) payload"
    using step [where p = "parse_layer (Tcp_t ?env)", OF _ tcp] payload by simp
  also have "\<dots> = parse_loop ?env (custom_parser ?env) [LEther e, LIpv4 v, LTcp t]
      (LCustom \<lparr>http_data = from_utf8_lossy payload\<rparr>) []"
    using step [where p = "parse_layer Http_t", OF _ Http_parse_layer, of ?env "LTcp t" payload] payload dport by simp
  finally show ?thesis
    using first by (simp add: parse_packet_def loop_end Ether_t_def)
qed

section \<open>Properties\<close>

text \<open>
  The client's bindings go before the default ones: Ethernet is always followed by IPv4 and IPv4 by TCP, whatever
  their type and protocol say, TCP to port 80 is followed by the client's layer and other TCP falls back to the
  default binding, raw data; every other layer is followed as in the default table.
\<close>

lemma custom_parser_table:
  "next_layer_parser env (custom_parser env) x rest = Ok (case x of
     LEther e \<Rightarrow> Some (parse_layer (Ipv4_t env))
   | LIpv4 v \<Rightarrow> Some (parse_layer (Tcp_t env))
   | LTcp t \<Rightarrow> Some (if tcp_dport t = 80 then parse_layer Http_t else parse_layer (Raw_t env))
   | _ \<Rightarrow> map_option (kind_parser env) (next_kind x))"
  using custom_parser_resolves [of env] by (cases x) (simp_all add: resolves_def default_policy_def)

text \<open>
  (C24) A frame of well-formed Ethernet, IPv4 and TCP layers to port 80 with a payload is parsed by the client's parser
  into these layers and its own \<open>Http\<close> layer, with nothing left over.  The packet serialises to the frame
  exactly when the payload is well-formed UTF-8; any other payload is changed, and the text the layer holds
  is well-formed in every case.
\<close>

theorem custom_parse_request:
  assumes "packet_env (http_env D pf)" and "list_all layer_wf [LEther e, LIpv4 v, LTcp t]"
    and "tcp_dport t = 80" and "payload \<noteq> []"
    and "layers_to_bytes (http_env D pf) [LEther e, LIpv4 v, LTcp t] = Ok hdr"
  shows "\<exists>h p. parse_packet (http_env D pf) (Ether_t (http_env D pf)) (custom_parser (http_env D pf)) (hdr @ payload)
      = Some (Ok ([], p)) \<and> pkt_layers p = [LEther e, LIpv4 v, LTcp t, LCustom h] \<and> utf8 (http_data h) \<and>
    (Packet_to_bytes (http_env D pf) p = Ok (hdr @ payload) \<longleftrightarrow> utf8 payload)"
proof -
  let ?h = "\<lparr>http_data = from_utf8_lossy payload\<rparr>"
  have "layers_to_bytes (http_env D pf) [LEther e, LIpv4 v, LTcp t, LCustom ?h] = Ok (hdr @ from_utf8_lossy payload)"
    using assms(5) http_env_client [OF assms(1), of ?h] by (auto simp: layers_to_bytes_eq outcome_simps)
  then have "Packet_to_bytes (http_env D pf) (Packet_from_layers [LEther e, LIpv4 v, LTcp t, LCustom ?h])
      = Ok (hdr @ from_utf8_lossy payload)"
    by (simp add: Packet_to_bytes_def Packet_from_layers_def)
  then show ?thesis
    using custom_request [OF assms] utf8_lossy [of payload] lossy_eq_iff [of payload]
    by (intro exI [where x = ?h] exI [where x = "Packet_from_layers [LEther e, LIpv4 v, LTcp t, LCustom ?h]"])
      (simp add: Packet_from_layers_def)
qed

theorem custom_parse_request_witness:
  "\<exists>hdr h p. parse_packet (http_env ref_deku dev_profile) (Ether_t (http_env ref_deku dev_profile))
      (custom_parser (http_env ref_deku dev_profile)) (hdr @ [0x47, 0x45, 0x54, 0xFF]) = Some (Ok ([], p)) \<and>
    pkt_layers p = [LEther Ether_default, LIpv4 Ipv4_default, LTcp (Tcp_default\<lparr>tcp_dport := 80\<rparr>), LCustom h] \<and>
    \<not> utf8 [0x47, 0x45, 0x54, 0xFF] \<and>
    Packet_to_bytes (http_env ref_deku dev_profile) p \<noteq> Ok (hdr @ [0x47, 0x45, 0x54, 0xFF])"
proof -
  let ?env = "http_env ref_deku dev_profile"
  let ?ls = "[LEther Ether_default, LIpv4 Ipv4_default, LTcp (Tcp_default\<lparr>tcp_dport := 80\<rparr>)]"
  have wf: "list_all layer_wf ?ls"
    by (simp add: Ether_wf_def Ether_default_def EtherType_default_def EtherType_wf_def Ipv4_wf_def
        Ipv4_parsed_def Ipv4_default_def IpProtocol_wf_def IpProtocol_default_def Tcp_wf_def Tcp_parsed_def
        Tcp_default_def TcpFlags_wf_def TcpFlags_default_def)
  then obtain hdr where hdr: "layers_to_bytes ?env ?ls = Ok hdr"
    using layers_wf_bytes [OF http_packets.packet_env_axioms] by blast
  have "\<not> utf8 [0x47, 0x45, 0x54, 0xFF]"
    by (simp add: utf8.simps utf8_chunk_def safe_get_def in_range_def)
  then show ?thesis
    using custom_parse_request [OF http_packets.packet_env_axioms wf _ _ hdr, of "[0x47, 0x45, 0x54, 0xFF]"] by auto
qed

end
