(* ===== verification/Custom_Main.thy ===== *)
theory Custom_Main
  imports Custom_Layer Codec_Tests
begin

text \<open>
  \<open>main\<close> of \<open>examples/custom_layer.rs\<close>: the parse of its fixed frame.  The packet that \<open>dbg!\<close> prints is the result.
\<close>

definition test_data :: bytes where
  "test_data =
     [0xff, 0xff, 0xff, 0xff, 0xff, 0xff, 0x00, 0x00, 0x00, 0x00, 0x00, 0x00, 0x08, 0x00, 0x45, 0x00, 0x00, 0x33, 0x00,
      0x01, 0x00, 0x00, 0x40, 0x06, 0x7c, 0xc2, 0x7f, 0x00, 0x00, 0x01, 0x7f, 0x00, 0x00, 0x01, 0x00, 0x14, 0x00, 0x50,
      0x00, 0x00, 0x00, 0x00, 0x00, 0x00, 0x00, 0x00, 0x50, 0x02, 0x20, 0x00, 0xff, 0xa2, 0x00, 0x00, 0x47, 0x45, 0x54,
      0x20, 0x2f, 0x65, 0x78, 0x61, 0x6d, 0x70, 0x6c, 0x65, 0x20, 0x48, 0x54, 0x54, 0x50, 0x2f, 0x31, 0x2e, 0x31]"

definition custom_layer_main :: "Http env \<Rightarrow> (unit, Http Packet) outcome" where
  "custom_layer_main env =
     obind (unwrap (of_run (parse_packet env (Ether_t env) (custom_parser env) test_data))) (\<lambda>(rest, p). Ok p)"

section \<open>The frame\<close>

lemma utf8_ascii: "list_all (\<lambda>b. b < 0x80) xs \<Longrightarrow> utf8 xs"
proof (induction xs)
  case (Cons b xs)
  then have "utf8_chunk (b # xs) = (1, True)"
    by (simp add: utf8_chunk_def safe_get_def)
  with Cons show ?case by (subst utf8.simps) simp
qed (simp add: utf8.simps)

definition main_ether :: Ether where
  "main_ether = \<lparr>ether_dst = MacAddress 0xff 0xff 0xff 0xff 0xff 0xff, ether_src = MacAddress 0 0 0 0 0 0,
     ether_type = EtherType.IPv4\<rparr>"

definition main_ipv4 :: Ipv4 where
  "main_ipv4 = Ipv4_default\<lparr>ip4_length := 51, ip4_identification := 1, ip4_ttl := 64, ip4_protocol := TCP,
     ip4_checksum := 0x7cc2\<rparr>"

definition main_tcp :: Tcp where
  "main_tcp = Tcp_default\<lparr>tcp_sport := 20, tcp_dport := 80, tcp_flags := TcpFlags_default\<lparr>fl_syn := 1\<rparr>,
     tcp_window := 0x2000, tcp_checksum := 0xffa2\<rparr>"

lemma main_wf: "list_all layer_wf [LEther main_ether, LIpv4 main_ipv4, LTcp main_tcp]"
  by (simp add: main_ether_def main_ipv4_def main_tcp_def Ether_wf_def EtherType_wf_def Ipv4_wf_def Ipv4_parsed_def
      Ipv4_default_def IpProtocol_wf_def Tcp_wf_def Tcp_parsed_def Tcp_default_def TcpFlags_wf_def TcpFlags_default_def)

context deku_laws
begin

lemma main_bytes:
  "Ether_to_bytes D main_ether = Ok (take 14 test_data)"
  "Ipv4_to_bytes D main_ipv4 = Ok (take 20 (drop 14 test_data))"
  "Tcp_to_bytes D main_tcp = Ok (take 20 (drop 34 test_data))"
  subgoal unfolding Ether_to_bytes_def
    by (rule to_bytes_all) (simp add: Ether_write_def MacAddress_write_def EtherType_write_def main_ether_def
        wapp_def eval_writers write_fits test_data_def)
  subgoal unfolding Ipv4_to_bytes_def
    by (rule to_bytes_all) (simp add: Ipv4_write_def main_ipv4_def Ipv4_default_def IpProtocol_write_def
        wapp_def eval_writers write_fits test_data_def)
  subgoal unfolding Tcp_to_bytes_def
    by (rule to_bytes_all) (simp add: Tcp_write_def TcpFlags_write_def main_tcp_def Tcp_default_def TcpFlags_default_def
        wapp_def eval_writers write_fits test_data_def)
  done

end

text \<open>The example prints Ethernet, IPv4, TCP and the request as a layer of its own.\<close>

lemma custom_layer_main_prints:
  assumes "packet_env (http_env D pf)"
  shows "custom_layer_main (http_env D pf) = Ok (Packet_from_layers
    [LEther main_ether, LIpv4 main_ipv4, LTcp main_tcp, LCustom \<lparr>http_data = ascii ''GET /example HTTP/1.1''\<rparr>])"
proof -
  have D: "deku_laws D"
    using packet_env.env_deku [OF assms] by (simp add: http_env_def)
  have hdr: "layers_to_bytes (http_env D pf) [LEther main_ether, LIpv4 main_ipv4, LTcp main_tcp] = Ok (take 54 test_data)"
    using deku_laws.main_bytes [OF D] by (simp add: layers_to_bytes_def http_env_def test_data_def)
  have payload: "drop 54 test_data = ascii ''GET /example HTTP/1.1''" "ascii ''GET /example HTTP/1.1'' \<noteq> []"
    by (simp_all add: test_data_def ascii_def)
  moreover have "list_all (\<lambda>b. b < 0x80) (drop 54 test_data)"
    by (simp add: test_data_def)
  ultimately have decoded: "from_utf8_lossy (drop 54 test_data) = ascii ''GET /example HTTP/1.1''"
    by (simp add: lossy_utf8 [OF utf8_ascii])
  have "tcp_dport main_tcp = 80" by (simp add: main_tcp_def)
  from custom_request [OF assms main_wf this _ hdr, of "drop 54 test_data"] show ?thesis
    using payload decoded append_take_drop_id [of 54 test_data] by (simp add: custom_layer_main_def)
qed

end
