(* ===== verification/Http_Server.thy ===== *)
theory Http_Server
  imports Packet_Finalize Live_Capture Packet_Loop
begin

text \<open>
  \<open>examples/spoof_http_server.rs\<close>: a minimal HTTP server that answers captured packets with injected ones.
  The loop of \<open>main\<close> is \<open>serve_loop\<close> with \<open>handle_packet\<close> as its body; \<open>Http_Main\<close> holds \<open>main\<close> itself.
\<close>

section \<open>Constants and helpers\<close>

definition crlf :: bytes where
  "crlf = [13, 10]"

definition SERVER_INITIAL_SEQUENCE :: u32 where
  "SERVER_INITIAL_SEQUENCE = 0x48415443"

definition HTTP_BODY :: bytes where
  "HTTP_BODY = ascii ''Hello from Nata!'' @ [10]"

definition HTTP_RESPONSE :: bytes where
  "HTTP_RESPONSE = ascii ''HTTP/1.1 200 OK'' @ crlf @ ascii ''Content-Type: text/plain'' @ crlf @
     ascii ''Content-Length: 17'' @ crlf @ ascii ''Connection: close'' @ crlf @ crlf @ HTTP_BODY"

record Reply =
  rp_sequence :: u32
  rp_acknowledgment :: u32
  rp_flags :: TcpFlags
  rp_payload :: bytes

text \<open>The functions of the example return no error; a panic is the only failure, and \<open>unit\<close> the error type.\<close>

definition tcp_payload :: "Ipv4 \<Rightarrow> Tcp \<Rightarrow> Raw option \<Rightarrow> (unit, bytes) outcome" where
  "tcp_payload ipv4 tcp raw =
     (let ip_header_length = unat (ip4_ihl ipv4) * 4;
          tcp_header_length = unat (tcp_offset tcp) * 4;
          payload_length = unat (ip4_length ipv4) - ip_header_length - tcp_header_length;
          captured = (case raw of None \<Rightarrow> [] | Some raw \<Rightarrow> raw_data raw) in
      slice_to captured (min payload_length (length captured)))"

definition next_client_sequence :: "Tcp \<Rightarrow> nat \<Rightarrow> u32" where
  "next_client_sequence tcp payload_length =
     tcp_seq tcp + (case u32_try_from payload_length of Some n \<Rightarrow> n | None \<Rightarrow> 0xFFFFFFFF) +
       ucast (fl_syn (tcp_flags tcp)) + ucast (fl_fin (tcp_flags tcp))"

section \<open>Replies\<close>

definition reply_layers :: "Ether \<Rightarrow> MacAddress \<Rightarrow> Ipv4 \<Rightarrow> Tcp \<Rightarrow> Reply \<Rightarrow> 'c LayerOwned list" where
  "reply_layers request_ether server_mac request_ipv4 request_tcp reply =
     [LEther \<lparr>ether_dst = ether_src request_ether, ether_src = server_mac, ether_type = IPv4\<rparr>,
      LIpv4 (Ipv4_default\<lparr>ip4_src := ip4_dst request_ipv4, ip4_dst := ip4_src request_ipv4, ip4_ttl := 64,
        ip4_protocol := TCP, ip4_identification := ip4_identification request_ipv4 + 1, ip4_flags := 2\<rparr>),
      LTcp (Tcp_default\<lparr>tcp_sport := tcp_dport request_tcp, tcp_dport := tcp_sport request_tcp,
        tcp_seq := rp_sequence reply, tcp_ack := rp_acknowledgment reply, tcp_flags := rp_flags reply,
        tcp_window := 64240\<rparr>)] @
     (if rp_payload reply \<noteq> [] then [LRaw (Raw_default\<lparr>raw_data := rp_payload reply\<rparr>)] else [])"

definition build_reply ::
    "'c env \<Rightarrow> Ether \<Rightarrow> MacAddress \<Rightarrow> Ipv4 \<Rightarrow> Tcp \<Rightarrow> Reply \<Rightarrow> (unit, 'c Packet) outcome" where
  "build_reply env request_ether server_mac request_ipv4 request_tcp reply =
     (case Packet_finalize env (Packet_from_layers
         (reply_layers request_ether server_mac request_ipv4 request_tcp reply)) of (reply, r) \<Rightarrow>
      omap (\<lambda>_. reply) (expect_ok ''failed to finalize reply packet'' r))"

section \<open>The server\<close>

text \<open>The body of the loop: the packet to inject, if any, with the message of the \<open>expect\<close> of its \<open>write\<close>.\<close>

definition handle_packet ::
    "'c env \<Rightarrow> u32 \<Rightarrow> u16 \<Rightarrow> MacAddress \<Rightarrow> 'c Packet \<Rightarrow> (unit, ('c Packet \<times> string) option) outcome" where
  "handle_packet env server_ip port server_mac packet =
     (let ether = find_map get_ether (Packet_layers packet);
          ipv4 = find_map get_ipv4 (Packet_layers packet);
          tcp = find_map get_tcp (Packet_layers packet);
          raw = find_map get_raw (Packet_layers packet) in
      case (ether, ipv4, tcp) of
        (Some ether, Some ipv4, Some tcp) \<Rightarrow>
          if ip4_dst ipv4 \<noteq> server_ip \<or> tcp_dport tcp \<noteq> port then Ok None
          else obind (tcp_payload ipv4 tcp raw) (\<lambda>payload.
            if fl_syn (tcp_flags tcp) = 1 \<and> fl_ack (tcp_flags tcp) = 0
            then omap (\<lambda>syn_ack. Some (syn_ack, ''failed to inject SYN-ACK''))
              (build_reply env ether server_mac ipv4 tcp
                \<lparr>rp_sequence = SERVER_INITIAL_SEQUENCE,
                 rp_acknowledgment = next_client_sequence tcp (length payload),
                 rp_flags = TcpFlags_default\<lparr>fl_syn := 1, fl_ack := 1\<rparr>, rp_payload = []\<rparr>)
            else if fl_ack (tcp_flags tcp) = 1 \<and> take 4 payload = ascii ''GET ''
            then omap (\<lambda>response. Some (response, ''failed to inject HTTP response''))
              (build_reply env ether server_mac ipv4 tcp
                \<lparr>rp_sequence = tcp_ack tcp,
                 rp_acknowledgment = next_client_sequence tcp (length payload),
                 rp_flags = TcpFlags_default\<lparr>fl_ack := 1, fl_push := 1, fl_fin := 1\<rparr>, rp_payload = HTTP_RESPONSE\<rparr>)
            else Ok None)
      | _ \<Rightarrow> Ok None)"

section \<open>Replies are valid frames\<close>

lemma reply_tcp_wf:
  assumes "TcpFlags_wf flags"
  shows "Tcp_wf (Tcp_default\<lparr>tcp_sport := a, tcp_dport := b, tcp_seq := c, tcp_ack := d, tcp_flags := flags, tcp_window := w\<rparr>)"
  using assms by (simp add: Tcp_wf_def Tcp_parsed_def Tcp_default_def)

lemma reply_ipv4_wf:
  "Ipv4_wf (Ipv4_default\<lparr>ip4_src := a, ip4_dst := b, ip4_ttl := c, ip4_protocol := TCP, ip4_identification := d, ip4_flags := 2\<rparr>)"
  by (simp add: Ipv4_wf_def Ipv4_parsed_def Ipv4_default_def IpProtocol_wf_def)

lemma length_default_ipv4:
  assumes "deku_laws D" and "Ipv4_to_bytes D v = Ok hdr" and "ip4_options v = []"
  shows "length hdr = 20"
  using deku_laws.Ipv4_to_bytes_length [OF assms(1,2)] assms(3) by (simp add: Ipv4_bits_def)

definition reply_rest :: "bytes \<Rightarrow> 'c LayerOwned list" where
  "reply_rest payload = (if payload \<noteq> [] then [LRaw (Raw_default\<lparr>raw_data := payload\<rparr>)] else [])"

lemma reply_rest:
  "list_all is_raw (reply_rest payload)" "list_all layer_wf (reply_rest payload)"
  by (simp_all add: reply_rest_def is_raw_def Raw_wf_def Raw_default_def)

lemma reply_rest_bytes: "packet_env env \<Longrightarrow> layers_to_bytes env (reply_rest payload) = Ok payload"
  by (simp add: reply_rest_def layers_to_bytes_eq deku_laws.Raw_to_bytes_eq [OF packet_env.env_deku])

text \<open>What a reply is: addressed back to the sender, valid, and parsed back.\<close>

definition valid_reply :: "'c env \<Rightarrow> Ether \<Rightarrow> MacAddress \<Rightarrow> Ipv4 \<Rightarrow> Tcp \<Rightarrow> Reply \<Rightarrow> 'c Packet \<Rightarrow> bool" where
  "valid_reply env request_ether server_mac request_ipv4 request_tcp reply p \<longleftrightarrow>
     (\<exists>v t hdr seg ph bs.
       pkt_layers p = LEther \<lparr>ether_dst = ether_src request_ether, ether_src = server_mac, ether_type = IPv4\<rparr> #
         LIpv4 v # LTcp t # reply_rest (rp_payload reply) \<and>
       ip4_src v = ip4_dst request_ipv4 \<and> ip4_dst v = ip4_src request_ipv4 \<and>
       tcp_sport t = tcp_dport request_tcp \<and> tcp_dport t = tcp_sport request_tcp \<and>
       tcp_seq t = rp_sequence reply \<and> tcp_ack t = rp_acknowledgment reply \<and> tcp_flags t = rp_flags reply \<and>
       Ipv4_to_bytes (env_dk env) v = Ok hdr \<and> Tcp_to_bytes (env_dk env) t = Ok seg \<and>
       unat (ip4_length v) = length hdr + length seg + length (rp_payload reply) \<and>
       checksum (env_pf env) hdr = (Ok 0 :: (LayerError, u16) outcome) \<and>
       ip_pseudo_header ''tcp_length'' env (LIpv4 v) (length seg + length (rp_payload reply)) = Ok (Some ph) \<and>
       checksum (env_pf env) (ph @ seg @ rp_payload reply) = (Ok 0 :: (LayerError, u16) outcome) \<and>
       Packet_to_bytes env p = Ok bs \<and>
       parse_packet env (Ether_t env) (PacketParser_new env) bs = Some (Ok ([], p)))"

text \<open>The headers of a reply before \<open>finalize\<close>, and what \<open>finalize\<close> makes of them.\<close>

definition reply_ipv4 :: "Ipv4 \<Rightarrow> Ipv4" where
  "reply_ipv4 request = Ipv4_default\<lparr>ip4_src := ip4_dst request, ip4_dst := ip4_src request, ip4_ttl := 64,
     ip4_protocol := TCP, ip4_identification := ip4_identification request + 1, ip4_flags := 2\<rparr>"

definition reply_tcp :: "Tcp \<Rightarrow> Reply \<Rightarrow> Tcp" where
  "reply_tcp request reply = Tcp_default\<lparr>tcp_sport := tcp_dport request, tcp_dport := tcp_sport request,
     tcp_seq := rp_sequence reply, tcp_ack := rp_acknowledgment reply, tcp_flags := rp_flags reply, tcp_window := 64240\<rparr>"

lemma build_reply_run:
  assumes env: "packet_env env" and flags: "TcpFlags_wf (rp_flags reply)" and fits: "length (rp_payload reply) \<le> 65495"
  obtains n c c' v' t' hdr seg ph where "v' = reply_ipv4 rv\<lparr>ip4_length := n, ip4_checksum := c\<rparr>"
    "t' = reply_tcp rt reply\<lparr>tcp_checksum := c'\<rparr>"
    "build_reply env re mac rv rt reply = Ok (Packet_from_layers
      (LEther \<lparr>ether_dst = ether_src re, ether_src = mac, ether_type = IPv4\<rparr> # LIpv4 v' # LTcp t' # reply_rest (rp_payload reply)))"
    "Ipv4_to_bytes (env_dk env) v' = Ok hdr" "Tcp_to_bytes (env_dk env) t' = Ok seg"
    "unat (ip4_length v') = length hdr + length seg + length (rp_payload reply)"
    "checksum (env_pf env) hdr = (Ok 0 :: (LayerError, u16) outcome)"
    "ip_pseudo_header ''tcp_length'' env (LIpv4 v') (length seg + length (rp_payload reply)) = Ok (Some ph)"
    "checksum (env_pf env) (ph @ seg @ rp_payload reply) = (Ok 0 :: (LayerError, u16) outcome)"
proof -
  let ?e = "\<lparr>ether_dst = ether_src re, ether_src = mac, ether_type = IPv4\<rparr>"
  have wf: "Ipv4_wf (reply_ipv4 rv)" "Tcp_wf (reply_tcp rt reply)"
    using reply_ipv4_wf reply_tcp_wf [OF flags] by (simp_all add: reply_ipv4_def reply_tcp_def)
  obtain hdr where hdr: "Ipv4_to_bytes (env_dk env) (reply_ipv4 rv) = Ok hdr"
    using packet_env.wf_Ipv4_bytes [OF env wf(1)] by blast
  have "length hdr = 20"
    using length_default_ipv4 [OF packet_env.env_deku [OF env] hdr] by (simp add: reply_ipv4_def Ipv4_default_def)
  then have "length hdr + 4 * unat (tcp_offset (reply_tcp rt reply)) + length (rp_payload reply) \<le> 65535"
    using fits by (simp add: reply_tcp_def Tcp_default_def)
  from tcp_frame_valid [OF env wf reply_rest(1) reply_rest_bytes [OF env] hdr this, of ?e] obtain n c c' v' t' hdr' seg ph where
      run: "Packet_finalize env (Packet_from_layers
          (LEther ?e # LIpv4 (reply_ipv4 rv) # LTcp (reply_tcp rt reply) # reply_rest (rp_payload reply)))
        = (Packet_from_layers (LEther ?e # LIpv4 v' # LTcp t' # reply_rest (rp_payload reply)), Ok ())"
      and facts: "v' = reply_ipv4 rv\<lparr>ip4_length := n, ip4_checksum := c\<rparr>" "t' = reply_tcp rt reply\<lparr>tcp_checksum := c'\<rparr>"
        "Ipv4_to_bytes (env_dk env) v' = Ok hdr'" "Tcp_to_bytes (env_dk env) t' = Ok seg"
        "unat (ip4_length v') = length hdr' + length seg + length (rp_payload reply)"
        "checksum (env_pf env) hdr' = (Ok 0 :: (LayerError, u16) outcome)"
        "ip_pseudo_header ''tcp_length'' env (LIpv4 v') (length seg + length (rp_payload reply)) = Ok (Some ph)"
        "checksum (env_pf env) (ph @ seg @ rp_payload reply) = (Ok 0 :: (LayerError, u16) outcome)"
    by blast
  have "build_reply env re mac rv rt reply = (case Packet_finalize env (Packet_from_layers
      (LEther ?e # LIpv4 (reply_ipv4 rv) # LTcp (reply_tcp rt reply) # reply_rest (rp_payload reply))) of
      (p, r) \<Rightarrow> omap (\<lambda>_. p) (expect_ok ''failed to finalize reply packet'' r))"
    by (simp add: build_reply_def reply_layers_def reply_rest_def reply_ipv4_def reply_tcp_def)
  with run have "build_reply env re mac rv rt reply
      = Ok (Packet_from_layers (LEther ?e # LIpv4 v' # LTcp t' # reply_rest (rp_payload reply)))"
    by simp
  from that [OF facts(1,2) this facts(3-)] show thesis .
qed

lemma build_reply_ok:
  assumes env: "packet_env env" and flags: "TcpFlags_wf (rp_flags reply)" and fits: "length (rp_payload reply) \<le> 65495"
  shows "\<exists>p. build_reply env re mac rv rt reply = Ok p \<and> valid_reply env re mac rv rt reply p"
proof -
  let ?e = "\<lparr>ether_dst = ether_src re, ether_src = mac, ether_type = IPv4\<rparr>"
  let ?rest = "reply_rest (rp_payload reply)"
  obtain n c c' v' t' hdr seg ph where
      v': "v' = reply_ipv4 rv\<lparr>ip4_length := n, ip4_checksum := c\<rparr>" and t': "t' = reply_tcp rt reply\<lparr>tcp_checksum := c'\<rparr>"
      and run: "build_reply env re mac rv rt reply = Ok (Packet_from_layers (LEther ?e # LIpv4 v' # LTcp t' # ?rest))"
      and facts: "Ipv4_to_bytes (env_dk env) v' = Ok hdr" "Tcp_to_bytes (env_dk env) t' = Ok seg"
        "unat (ip4_length v') = length hdr + length seg + length (rp_payload reply)"
        "checksum (env_pf env) hdr = (Ok 0 :: (LayerError, u16) outcome)"
        "ip_pseudo_header ''tcp_length'' env (LIpv4 v') (length seg + length (rp_payload reply)) = Ok (Some ph)"
        "checksum (env_pf env) (ph @ seg @ rp_payload reply) = (Ok 0 :: (LayerError, u16) outcome)"
    by (rule build_reply_run [OF assms])
  let ?p = "Packet_from_layers (LEther ?e # LIpv4 v' # LTcp t' # ?rest)"
  have "Ipv4_wf v'" "Tcp_wf t'"
    using reply_ipv4_wf reply_tcp_wf [OF flags]
    by (simp_all add: v' t' reply_ipv4_def reply_tcp_def Ipv4_wf_def Ipv4_parsed_def Tcp_wf_def Tcp_parsed_def)
  moreover have "linked env (LEther ?e # LIpv4 v' # LTcp t' # ?rest)"
    by (simp add: v' reply_ipv4_def reply_rest_def)
  ultimately have "frame_wf env ?p"
    using reply_rest(2) by (simp add: frame_wf_def Packet_from_layers_def Ether_wf_def EtherType_wf_def)
  from frame_wf_reparse [OF env this] facts have "valid_reply env re mac rv rt reply ?p"
    by (simp add: valid_reply_def Packet_from_layers_def v' t' reply_ipv4_def reply_tcp_def Ipv4_default_def)
  with run show ?thesis by blast
qed

lemma tcp_payload_eq:
  "tcp_payload v t raw = Ok (take (unat (ip4_length v) - unat (ip4_ihl v) * 4 - unat (tcp_offset t) * 4)
     (case raw of None \<Rightarrow> [] | Some raw \<Rightarrow> raw_data raw))"
  by (auto simp: tcp_payload_def slice_to_def Let_def min_def)

lemma length_HTTP_RESPONSE: "length HTTP_RESPONSE = 101"
  by (simp add: HTTP_RESPONSE_def HTTP_BODY_def ascii_def crlf_def)

lemma reply_flags_wf:
  "TcpFlags_wf (TcpFlags_default\<lparr>fl_ack := 1, fl_push := 1, fl_fin := 1\<rparr>)"
  "TcpFlags_wf (TcpFlags_default\<lparr>fl_syn := 1, fl_ack := 1\<rparr>)"
  by (simp_all add: TcpFlags_wf_def TcpFlags_default_def)

lemma next_client_sequence_eq:
  assumes "n < 2 ^ 32"
  shows "next_client_sequence t n =
    word_of_nat (unat (tcp_seq t) + n + unat (fl_syn (tcp_flags t)) + unat (fl_fin (tcp_flags t)))"
  using assms by (simp add: next_client_sequence_def u32_try_from_def)

text \<open>
  What the server is to answer, in terms of the first layer of each type: the payload of the request, the
  SYN-ACK and the HTTP response to a segment with \<open>n\<close> bytes of payload.  The sums of \<open>acknowledged\<close> are those of
  natural numbers, taken modulo \<open>2^32\<close> at the end.
\<close>

definition request_payload :: "'c Packet \<Rightarrow> Ipv4 \<Rightarrow> Tcp \<Rightarrow> bytes" where
  "request_payload packet v t = take (unat (ip4_length v) - unat (ip4_ihl v) * 4 - unat (tcp_offset t) * 4)
     (case find_map get_raw (pkt_layers packet) of None \<Rightarrow> [] | Some raw \<Rightarrow> raw_data raw)"

definition acknowledged :: "Tcp \<Rightarrow> nat \<Rightarrow> u32" where
  "acknowledged t n = word_of_nat
     ((unat (tcp_seq t) + n + unat (fl_syn (tcp_flags t)) + unat (fl_fin (tcp_flags t))) mod 2 ^ 32)"

definition syn_ack_answer :: "Tcp \<Rightarrow> nat \<Rightarrow> Reply" where
  "syn_ack_answer t n = \<lparr>rp_sequence = SERVER_INITIAL_SEQUENCE, rp_acknowledgment = acknowledged t n,
     rp_flags = TcpFlags_default\<lparr>fl_syn := 1, fl_ack := 1\<rparr>, rp_payload = []\<rparr>"

definition http_answer :: "Tcp \<Rightarrow> nat \<Rightarrow> Reply" where
  "http_answer t n = \<lparr>rp_sequence = tcp_ack t, rp_acknowledgment = acknowledged t n,
     rp_flags = TcpFlags_default\<lparr>fl_ack := 1, fl_push := 1, fl_fin := 1\<rparr>, rp_payload = HTTP_RESPONSE\<rparr>"

lemma acknowledged_eq:
  assumes "n < 2 ^ 32"
  shows "next_client_sequence t n = acknowledged t n"
  by (simp only: next_client_sequence_eq [OF assms] acknowledged_def word_of_nat_eq_iff) (simp add: take_bit_eq_mod)

lemma length_request_payload: "length (request_payload packet v t) < 2 ^ 32"
proof -
  have "length (request_payload packet v t) \<le> unat (ip4_length v)"
    by (simp add: request_payload_def)
  also have "\<dots> < 2 ^ 16"
    using unsigned_less [of "ip4_length v"] by simp
  also have "\<dots> < (2 :: nat) ^ 32" by simp
  finally show ?thesis .
qed

lemma answers_built:
  assumes "packet_env env"
  shows "\<exists>p. build_reply env e mac v t (syn_ack_answer t n) = Ok p \<and> valid_reply env e mac v t (syn_ack_answer t n) p"
    "\<exists>p. build_reply env e mac v t (http_answer t n) = Ok p \<and> valid_reply env e mac v t (http_answer t n) p"
  using reply_flags_wf length_HTTP_RESPONSE
  by (intro build_reply_ok [OF assms]; simp add: syn_ack_answer_def http_answer_def)+

lemma handle_packet_found:
  assumes "find_map get_ether (pkt_layers packet) = Some e" "find_map get_ipv4 (pkt_layers packet) = Some v"
    "find_map get_tcp (pkt_layers packet) = Some t"
  shows "handle_packet env server_ip port server_mac packet =
    (let payload = request_payload packet v t in
     if ip4_dst v \<noteq> server_ip \<or> tcp_dport t \<noteq> port then Ok None
     else if fl_syn (tcp_flags t) = 1 \<and> fl_ack (tcp_flags t) = 0
     then omap (\<lambda>p. Some (p, ''failed to inject SYN-ACK''))
       (build_reply env e server_mac v t (syn_ack_answer t (length payload)))
     else if fl_ack (tcp_flags t) = 1 \<and> take 4 payload = ascii ''GET ''
     then omap (\<lambda>p. Some (p, ''failed to inject HTTP response''))
       (build_reply env e server_mac v t (http_answer t (length payload)))
     else Ok None)"
proof -
  have "tcp_payload v t (find_map get_raw (pkt_layers packet)) = Ok (request_payload packet v t)"
    by (simp only: tcp_payload_eq request_payload_def)
  moreover note acknowledged_eq [OF length_request_payload, of t packet v]
  ultimately show ?thesis
    by (simp add: handle_packet_def Packet_layers_def assms Let_def syn_ack_answer_def http_answer_def)
qed

lemma handle_packet_missing:
  assumes "find_map get_ether (pkt_layers packet) = None \<or> find_map get_ipv4 (pkt_layers packet) = None \<or>
    find_map get_tcp (pkt_layers packet) = None"
  shows "handle_packet env server_ip port server_mac packet = Ok None"
  using assms by (auto simp: handle_packet_def Packet_layers_def split: option.splits)

text \<open>The answer to a request, when there is one.\<close>

lemma handle_packet_Some:
  assumes env: "packet_env env" and run: "handle_packet env server_ip port server_mac packet = Ok (Some (p, msg))"
  obtains e v t where "find_map get_ether (pkt_layers packet) = Some e" "find_map get_ipv4 (pkt_layers packet) = Some v"
    "find_map get_tcp (pkt_layers packet) = Some t" "ip4_dst v = server_ip" "tcp_dport t = port"
    "valid_reply env e server_mac v t
       ((if fl_syn (tcp_flags t) = 1 \<and> fl_ack (tcp_flags t) = 0 then syn_ack_answer t else http_answer t)
          (length (request_payload packet v t))) p"
proof -
  from run handle_packet_missing obtain e v t where found: "find_map get_ether (pkt_layers packet) = Some e"
      "find_map get_ipv4 (pkt_layers packet) = Some v" "find_map get_tcp (pkt_layers packet) = Some t"
    by (metis not_Some_eq option.distinct(1) outcome.inject(1))
  let ?n = "length (request_payload packet v t)"
  obtain p1 p2 where replies: "build_reply env e server_mac v t (syn_ack_answer t ?n) = Ok p1"
      "valid_reply env e server_mac v t (syn_ack_answer t ?n) p1"
      "build_reply env e server_mac v t (http_answer t ?n) = Ok p2" "valid_reply env e server_mac v t (http_answer t ?n) p2"
    using answers_built [OF env, of e server_mac v t ?n] by blast
  have "ip4_dst v = server_ip" "tcp_dport t = port"
    "valid_reply env e server_mac v t
       ((if fl_syn (tcp_flags t) = 1 \<and> fl_ack (tcp_flags t) = 0 then syn_ack_answer t else http_answer t) ?n) p"
    using run replies by (auto simp: handle_packet_found [OF found] Let_def split: if_splits)
  from that [OF found this] show thesis .
qed

lemma handle_packet_returns:
  assumes "packet_env env"
  shows "\<exists>r. handle_packet env server_ip port server_mac packet = Ok r"
proof (cases "find_map get_ether (pkt_layers packet) = None \<or> find_map get_ipv4 (pkt_layers packet) = None \<or>
    find_map get_tcp (pkt_layers packet) = None")
  case False
  then obtain e v t where found: "find_map get_ether (pkt_layers packet) = Some e"
      "find_map get_ipv4 (pkt_layers packet) = Some v" "find_map get_tcp (pkt_layers packet) = Some t"
    by auto
  show ?thesis
    using answers_built [OF assms, of e server_mac v t "length (request_payload packet v t)"]
    by (auto simp: handle_packet_found [OF found] Let_def)
qed (simp add: handle_packet_missing)

section \<open>Properties\<close>

text \<open>
  \<open>build_reply\<close> never panics for a payload of at most 65495 bytes and flags of one bit each.  The packet it
  builds goes back to the sender (MAC and IP addresses and ports swapped), has the sequence numbers, flags and
  payload of the reply, an IPv4 length that is right, an IPv4 header and a TCP segment that verify, and is what
  the default parser gives back from its bytes.
\<close>

lemma build_reply_valid:
  assumes "packet_env env" and "TcpFlags_wf (rp_flags reply)" and "length (rp_payload reply) \<le> 65495"
  shows "\<exists>p. build_reply env request_ether server_mac request_ipv4 request_tcp reply = Ok p \<and>
    valid_reply env request_ether server_mac request_ipv4 request_tcp reply p"
  using assms by (rule build_reply_ok)

text \<open>
  The payload of a captured segment is what the IPv4 length says: bytes that pad the frame are cut off, and
  a capture that is shorter than the length is used as far as it goes; slicing never panics.
\<close>

lemma tcp_payload_strips_padding:
  assumes "unat (ip4_length v) = unat (ip4_ihl v) * 4 + unat (tcp_offset t) * 4 + n"
  shows "tcp_payload v t (Some \<lparr>raw_data = data, raw_bit_offset = b\<rparr>) = Ok (take n data) \<and>
    tcp_payload v t None = Ok []"
  using assms by (simp add: tcp_payload_eq)

text \<open>
  (C18) Handling a captured packet never panics and answers exactly what it is to answer.  A packet without an
  Ethernet, an IPv4 or a TCP layer, or not addressed to the server's IP address and port, gets no answer.  A SYN
  without ACK gets a SYN-ACK with the server's initial sequence number, an ACK whose payload starts with a GET the
  HTTP response at the sequence number the client expects, anything else no answer.  The payload is what the IPv4
  length leaves of the raw data; the acknowledgment is the client's sequence number plus the payload, plus one for
  SYN and one for FIN, modulo \<open>2^32\<close>; and the answer is a valid reply to the packet's first layers of each type.
\<close>

theorem handle_packet_answers:
  assumes "packet_env env"
  shows "case (find_map get_ether (pkt_layers packet), find_map get_ipv4 (pkt_layers packet), find_map get_tcp (pkt_layers packet)) of
     (Some e, Some v, Some t) \<Rightarrow>
       (let payload = take (unat (ip4_length v) - unat (ip4_ihl v) * 4 - unat (tcp_offset t) * 4)
              (case find_map get_raw (pkt_layers packet) of None \<Rightarrow> [] | Some raw \<Rightarrow> raw_data raw);
            acknowledgment = word_of_nat ((unat (tcp_seq t) + length payload + unat (fl_syn (tcp_flags t)) +
              unat (fl_fin (tcp_flags t))) mod 2 ^ 32) in
        if ip4_dst v \<noteq> server_ip \<or> tcp_dport t \<noteq> port
        then handle_packet env server_ip port server_mac packet = Ok None
        else if fl_syn (tcp_flags t) = 1 \<and> fl_ack (tcp_flags t) = 0
        then \<exists>p. handle_packet env server_ip port server_mac packet = Ok (Some (p, ''failed to inject SYN-ACK'')) \<and>
          valid_reply env e server_mac v t \<lparr>rp_sequence = SERVER_INITIAL_SEQUENCE, rp_acknowledgment = acknowledgment,
            rp_flags = TcpFlags_default\<lparr>fl_syn := 1, fl_ack := 1\<rparr>, rp_payload = []\<rparr> p
        else if fl_ack (tcp_flags t) = 1 \<and> take 4 payload = ascii ''GET ''
        then \<exists>p. handle_packet env server_ip port server_mac packet = Ok (Some (p, ''failed to inject HTTP response'')) \<and>
          valid_reply env e server_mac v t \<lparr>rp_sequence = tcp_ack t, rp_acknowledgment = acknowledgment,
            rp_flags = TcpFlags_default\<lparr>fl_ack := 1, fl_push := 1, fl_fin := 1\<rparr>, rp_payload = HTTP_RESPONSE\<rparr> p
        else handle_packet env server_ip port server_mac packet = Ok None)
   | _ \<Rightarrow> handle_packet env server_ip port server_mac packet = Ok None"
proof (cases "find_map get_ether (pkt_layers packet) = None \<or> find_map get_ipv4 (pkt_layers packet) = None \<or>
    find_map get_tcp (pkt_layers packet) = None")
  case False
  then obtain e v t where found: "find_map get_ether (pkt_layers packet) = Some e"
      "find_map get_ipv4 (pkt_layers packet) = Some v" "find_map get_tcp (pkt_layers packet) = Some t"
    by auto
  show ?thesis
    unfolding found prod.case option.case Let_def
    unfolding request_payload_def [symmetric]
    unfolding acknowledged_def [symmetric]
    unfolding syn_ack_answer_def [symmetric] http_answer_def [symmetric]
    using answers_built [OF assms, of e server_mac v t "length (request_payload packet v t)"]
    by (auto simp: handle_packet_found [OF found] Let_def)
qed (auto simp: handle_packet_missing split: option.splits)

definition syn_packet :: "unit Packet" where
  "syn_packet = Packet_from_layers [LEther Ether_default, LIpv4 (Ipv4_default\<lparr>ip4_protocol := TCP\<rparr>),
     LTcp (Tcp_default\<lparr>tcp_dport := 8080, tcp_flags := TcpFlags_default\<lparr>fl_syn := 1\<rparr>\<rparr>)]"

lemma syn_packet_answered:
  "\<exists>p msg bs. handle_packet dev_env 0x7F000001 8080 mac syn_packet = Ok (Some (p, msg)) \<and> Packet_to_bytes dev_env p = Ok bs"
proof -
  let ?t = "Tcp_default\<lparr>tcp_dport := 8080, tcp_flags := TcpFlags_default\<lparr>fl_syn := 1\<rparr>\<rparr>"
  let ?reply = "\<lparr>rp_sequence = SERVER_INITIAL_SEQUENCE, rp_acknowledgment = next_client_sequence ?t 0,
      rp_flags = TcpFlags_default\<lparr>fl_syn := 1, fl_ack := 1\<rparr>, rp_payload = []\<rparr>"
  obtain p bs where "build_reply dev_env Ether_default mac (Ipv4_default\<lparr>ip4_protocol := TCP\<rparr>) ?t ?reply = Ok p"
      "Packet_to_bytes dev_env p = Ok bs"
    using build_reply_ok [OF dev_packets.packet_env_axioms, of ?reply Ether_default mac "Ipv4_default\<lparr>ip4_protocol := TCP\<rparr>" ?t]
      reply_flags_wf by (auto simp: valid_reply_def)
  then show ?thesis
    by (simp add: handle_packet_def syn_packet_def Packet_layers_def Packet_from_layers_def tcp_payload_eq
        Ipv4_default_def Tcp_default_def TcpFlags_default_def)
qed

theorem handle_packet_answers_witness:
  "\<exists>p. handle_packet dev_env 0x7F000001 8080 MacAddress_default syn_packet = Ok (Some (p, ''failed to inject SYN-ACK'')) \<and>
     valid_reply dev_env Ether_default MacAddress_default (Ipv4_default\<lparr>ip4_protocol := TCP\<rparr>)
       (Tcp_default\<lparr>tcp_dport := 8080, tcp_flags := TcpFlags_default\<lparr>fl_syn := 1\<rparr>\<rparr>)
       \<lparr>rp_sequence = SERVER_INITIAL_SEQUENCE, rp_acknowledgment = 1,
        rp_flags = TcpFlags_default\<lparr>fl_syn := 1, fl_ack := 1\<rparr>, rp_payload = []\<rparr> p"
  using handle_packet_answers [OF dev_packets.packet_env_axioms, where server_ip = "0x7F000001" and port = 8080 and
      server_mac = MacAddress_default and packet = syn_packet]
  by (simp add: syn_packet_def Packet_from_layers_def Ipv4_default_def Tcp_default_def TcpFlags_default_def)

end
