(* ===== verification/Http_Main.thy ===== *)
theory Http_Main
  imports Http_Server Command_Line
begin

text \<open>
  \<open>main\<close> of \<open>examples/spoof_http_server.rs\<close>: the command line, the interface, and the loop over it.  The messages
  printed are not modelled; the panic message for an interface that cannot be opened leaves the rendering of
  the error out.
\<close>

section \<open>The program\<close>

definition DEFAULT_PORT :: u16 where
  "DEFAULT_PORT = 8080"

text \<open>\<open>None\<close> is a call of \<open>usage\<close>, which exits with code 2.\<close>

definition server_args :: "string list \<Rightarrow> (string \<times> u32 \<times> u16) option" where
  "server_args args =
     (case args of
        program # interface_name # ip # rest \<Rightarrow>
          Option.bind (Ipv4Addr_from_str ip) (\<lambda>server_ip.
          Option.bind (case rest of [] \<Rightarrow> Some DEFAULT_PORT | port # _ \<Rightarrow> u16_from_str port) (\<lambda>port.
          if 1 < length rest then None else Some (interface_name, server_ip, port)))
      | _ \<Rightarrow> None)"

definition spoof_http_server ::
    "('tx, 'rx, 'io) pnet_lib \<Rightarrow> 'c env \<Rightarrow> nat \<Rightarrow> string list \<Rightarrow>
      (unit, (('c, 'rx) PcapReader InterfaceReaderRef \<times> 'tx PcapWriter InterfaceWriterRef) exit) outcome" where
  "spoof_http_server lib env rounds args =
     (case server_args args of
        None \<Rightarrow> Ok (Exit 2)
      | Some (interface_name, server_ip, port) \<Rightarrow>
          obind (expect_ok (''failed to open '' @ interface_name) (Interface_init (Pcap_init lib env) interface_name)) (\<lambda>interface.
          obind (expect_ok ''interface does not have a MAC address'' (ok_or () (Interface_mac_address interface))) (\<lambda>server_mac.
          (case Interface_split interface of (reader, writer) \<Rightarrow>
           (case serve_loop (InterfaceReaderRef_next (PcapReader_read lib env))
               (InterfaceWriterRef_write (PcapWriter_write lib env)) (handle_packet env server_ip port server_mac)
               rounds reader writer of (rw, res) \<Rightarrow> omap (\<lambda>_. Done rw) res)))))"

section \<open>The command line\<close>

lemma server_args_iff:
  "server_args args = Some (name, ip, port) \<longleftrightarrow>
   (\<exists>program ip_text rest. args = program # name # ip_text # rest \<and> Ipv4Addr_from_str ip_text = Some ip \<and>
      (rest = [] \<and> port = DEFAULT_PORT \<or> (\<exists>p. rest = [p] \<and> u16_from_str p = Some port)))"
  by (auto simp: server_args_def bind_eq_Some_conv Suc_less_eq2 split: list.splits)

section \<open>The loop over the interface\<close>

text \<open>Handling returns, and an answer has bytes.\<close>

lemma handle_packet_total:
  assumes "packet_env env"
  shows "handle_packet env ip port mac p = Ok None \<or>
    (\<exists>reply msg bs. handle_packet env ip port mac p = Ok (Some (reply, msg)) \<and> Packet_to_bytes env reply = Ok bs)"
proof (cases "handle_packet env ip port mac p = Ok None")
  case False
  with handle_packet_returns [OF assms, of ip port mac p] obtain reply msg
    where "handle_packet env ip port mac p = Ok (Some (reply, msg))" by (metis not_None_eq surj_pair)
  with handle_packet_Some [OF assms this] show ?thesis by (auto simp: valid_reply_def)
qed simp

lemma http_server:
  fixes lib :: "('tx, 'rx, 'io) pnet_lib" and env :: "'c env"
  assumes "packet_env env" and "pnet_laws lib sent arriving"
    and "\<And>tx b dst. \<exists>tx'. pn_send_to lib tx b dst = (tx', Some (Inr ()))"
  shows "packet_server (InterfaceReaderRef_next (PcapReader_read lib env))
    (\<lambda>r. map (frame_result env (pcr_packet_parser (rr_reader r)) :: bytes \<Rightarrow> ('io DataLinkError, 'c Packet) outcome)
      (arriving (pcr_reader (rr_reader r))))
    (InterfaceWriterRef_write (PcapWriter_write lib env)) env (\<lambda>w. sent (pcw_writer (wr_writer w)))
    (handle_packet env ip port mac)"
proof (intro packet_server.intro packet_server_axioms.intro)
  show "packet_stream (InterfaceReaderRef_next (PcapReader_read lib env))
      (\<lambda>r. map (frame_result env (pcr_packet_parser (rr_reader r)) :: bytes \<Rightarrow> ('io DataLinkError, 'c Packet) outcome)
        (arriving (pcr_reader (rr_reader r))))"
    using packet_source.ref_stream [OF pnet_laws.pcap_source [OF assms(2), of env]] .
qed (use handle_packet_total [OF assms(1)] pnet_laws.ref_sends [OF assms(2,3)] in blast)+

interpretation mem_server: packet_server "InterfaceReaderRef_next (PcapReader_read (mem_pnet wire) dev_env)"
  "\<lambda>r. map (frame_result dev_env (pcr_packet_parser (rr_reader r)) :: bytes \<Rightarrow> (string DataLinkError, unit Packet) outcome)
     (pcr_reader (rr_reader r))"
  "InterfaceWriterRef_write (PcapWriter_write (mem_pnet wire) dev_env)" dev_env "\<lambda>w. pcw_writer (wr_writer w)"
  "handle_packet dev_env ip port mac" for wire ip port mac
  by (rule http_server [OF dev_packets.packet_env_axioms mem_net.pnet_laws_axioms]) (simp add: mem_pnet_def)

section \<open>Properties\<close>

text \<open>
  The server exits with code 2 exactly when its arguments are not an interface name, an IPv4 address in dotted
  decimal notation without leading zeros, and optionally a port that fits 16 bits.
\<close>

lemma spoof_http_server_usage:
  "spoof_http_server lib env rounds args = Ok (Exit 2) \<longleftrightarrow>
   \<not> (\<exists>program name a b c d rest. args = program # name # dotted a b c d # rest \<and>
       a < 256 \<and> b < 256 \<and> c < 256 \<and> d < 256 \<and> (rest = [] \<or> (\<exists>p port. rest = [p] \<and> u16_from_str p = Some port)))"
proof -
  have "spoof_http_server lib env rounds args = Ok (Exit 2) \<longleftrightarrow> server_args args = None"
    by (auto simp: spoof_http_server_def outcome_simps split: option.splits prod.splits)
  moreover have "server_args args \<noteq> None \<longleftrightarrow> (\<exists>name ip port. server_args args = Some (name, ip, port))" by auto
  ultimately show ?thesis unfolding server_args_iff Ipv4Addr_from_str_iff by blast
qed

text \<open>
  (C19) Started with well-formed arguments on an interface with a MAC address, over a network library that sends what it
  is given and delivers what arrives, the server handles the arriving packets without a panic and sends exactly
  its answers to them: one frame for each packet it answers, in the order the packets arrive, and no other.
\<close>

theorem spoof_http_server_answers:
  assumes env: "packet_env env" and laws: "pnet_laws lib sent arriving"
    and sends: "\<And>tx b dst. \<exists>tx'. pn_send_to lib tx b dst = (tx', Some (Inr ()))"
    and ip: "a < 256" "b < 256" "c < 256" "d < 256" and port: "port < 65536"
    and start: "Pcap_init lib env name = Ok i" and mac: "Interface_mac_address i = Some mac"
    and frames: "arriving (pcr_reader (if_reader i)) = frames @ later"
      "map (parse_packet env (Ether_t env) (PacketParser_new env)) frames = map (\<lambda>p. Some (Ok ([], p))) ps"
  shows "\<exists>r w replies. spoof_http_server lib env (length ps) [program, name, dotted a b c d, show_nat port] = Ok (Done (r, w)) \<and>
    map (Packet_to_bytes env) (answers (handle_packet env (word_of_nat (((a * 256 + b) * 256 + c) * 256 + d)) (word_of_nat port) mac) ps)
      = map Ok replies \<and>
    sent (pcw_writer (wr_writer w)) = sent (pcw_writer (if_writer i)) @ replies"
proof -
  let ?ip = "word_of_nat (((a * 256 + b) * 256 + c) * 256 + d)"
  have "Ipv4Addr_from_str (dotted a b c d) = Some ?ip" using ip Ipv4Addr_from_str_iff by blast
  then have args: "server_args [program, name, dotted a b c d, show_nat port] = Some (name, ?ip, word_of_nat port)"
    using u16_from_show [OF port] by (simp add: server_args_def)
  obtain r w where rw: "Interface_split i = (r, w)" "rr_reader r = if_reader i" "wr_writer w = if_writer i"
    by (simp add: Interface_split_def)
  from pnet_laws.opened_pending [OF laws start frames] rw(2) have
      pending: "map (frame_result env (pcr_packet_parser (rr_reader r))) (arriving (pcr_reader (rr_reader r)))
        = map Ok ps @ map (frame_result env (PacketParser_new env)) later"
    by simp
  from packet_server.serve_stream [OF http_server [OF env laws sends] pending, of ?ip "word_of_nat port" mac w]
  show ?thesis
    using start mac rw args by (fastforce simp: spoof_http_server_def Interface_init_def)
qed

lemma syn_packet_wf: "frame_wf dev_env syn_packet"
  by (simp add: frame_wf_def syn_packet_def Packet_from_layers_def Ether_wf_def Ether_default_def EtherType_default_def
      EtherType_wf_def Ipv4_wf_def Ipv4_parsed_def Ipv4_default_def IpProtocol_wf_def Tcp_wf_def Tcp_parsed_def
      Tcp_default_def TcpFlags_wf_def TcpFlags_default_def)

theorem spoof_http_server_answers_witness:
  "\<exists>syn r w reply. spoof_http_server (mem_pnet [syn]) dev_env 1 [''http_server'', ''eth0'', dotted 127 0 0 1, show_nat 8080]
      = Ok (Done (r, w)) \<and> pcw_writer (wr_writer w) = [reply]"
proof -
  let ?mac = "MacAddress 1 2 3 4 5 6"
  obtain syn where syn: "parse_packet dev_env (Ether_t dev_env) (PacketParser_new dev_env) syn = Some (Ok ([], syn_packet))"
    using frame_wf_reparse [OF dev_packets.packet_env_axioms syn_packet_wf] by blast
  have "\<exists>i. Pcap_init (mem_pnet [syn]) dev_env ''eth0'' = Ok i \<and> pcr_reader (if_reader i) = [syn] @ [] \<and>
      pcw_writer (if_writer i) = [] \<and> Interface_mac_address i = Some ?mac"
    by (simp add: Pcap_init_def Pcap_init_with_parser_def mem_pnet_def mem_nic_def Interface_mac_address_def)
  then obtain i where i: "Pcap_init (mem_pnet [syn]) dev_env ''eth0'' = Ok i" "pcr_reader (if_reader i) = [syn] @ []"
      "pcw_writer (if_writer i) = []" "Interface_mac_address i = Some ?mac" by blast
  have sends: "\<exists>tx'. pn_send_to (mem_pnet [syn]) tx b dst = (tx', Some (Inr ()))" for tx b dst
    by (simp add: mem_pnet_def)
  have frames: "map (parse_packet dev_env (Ether_t dev_env) (PacketParser_new dev_env)) [syn]
      = map (\<lambda>p. Some (Ok ([], p))) [syn_packet]" using syn by simp
  obtain p msg where "handle_packet dev_env 0x7F000001 8080 ?mac syn_packet = Ok (Some (p, msg))"
    using syn_packet_answered by blast
  then have "answers (handle_packet dev_env 0x7F000001 8080 ?mac) [syn_packet] = [p]" by simp
  moreover from spoof_http_server_answers [where program = "''http_server''" and a = 127 and b = 0 and c = 0 and d = 1 and
      port = 8080, OF dev_packets.packet_env_axioms mem_net.pnet_laws_axioms sends _ _ _ _ _ i(1,4,2) frames]
  obtain r w replies where
      "spoof_http_server (mem_pnet [syn]) dev_env 1 [''http_server'', ''eth0'', dotted 127 0 0 1, show_nat 8080] = Ok (Done (r, w))"
      "map (Packet_to_bytes dev_env) (answers (handle_packet dev_env 0x7F000001 8080 ?mac) [syn_packet]) = map Ok replies"
      "pcw_writer (wr_writer w) = replies"
    using i(3) by auto
  ultimately show ?thesis by auto
qed

end
