(* ===== verification/Doc_Tests.thy ===== *)
theory Doc_Tests
  imports Packet_Tests Finalize_Tests Custom_Main Http_Main Hello_Loop Udp_Inspect
begin

text \<open>
  The examples of the documentation, which the test runner runs as tests (\<open>src/lib.rs\<close>, \<open>PacketParser::bind_layer\<close>), and
  the unit tests of \<open>src/packet/error.rs\<close>, \<open>examples/spoof_http_server.rs\<close> and \<open>example_no_std\<close>, and what the
  benchmarks compute, on the model.
\<close>

section \<open>The documentation of the crate\<close>

subsection \<open>Layers\<close>

definition doc_ether_data :: bytes where
  "doc_ether_data = [0xfe, 0xff, 0x20, 0x00, 0x01, 0x00, 0x00, 0x00, 0x01, 0x00, 0x00, 0x00, 0x08, 0x00]"

definition doc_ether :: Ether where
  "doc_ether = \<lparr>ether_dst = MacAddress 0xfe 0xff 0x20 0x00 0x01 0x00, ether_src = MacAddress 0x00 0x00 0x01 0x00 0x00 0x00,
     ether_type = EtherType.IPv4\<rparr>"

definition doc_layer_example :: "platform \<Rightarrow> deku \<Rightarrow> (unit, unit) outcome" where
  "doc_layer_example pf D =
     obind (unwrap (Ether_parse pf D doc_ether_data)) (\<lambda>(rest, ether).
     obind (assert_eq doc_ether ether) (\<lambda>_.
     obind (unwrap (Ether_to_bytes D ether)) (\<lambda>ether_bytes.
     assert_eq doc_ether_data ether_bytes)))"

subsection \<open>Packets\<close>

definition doc_packet_example :: "'c env \<Rightarrow> (unit, 'c Packet) outcome" where
  "doc_packet_example env =
     obind (unwrap (Raw_parse (env_pf env) (env_dk env) (ascii ''hello world''))) (\<lambda>(rest, raw).
     case Packet_finalize env (Packet_from_layers
         [LEther Ether_default, LIpv4 Ipv4_default, LTcp Tcp_default, LRaw raw]) of (packet, finalized) \<Rightarrow>
     omap (\<lambda>_. packet) (unwrap finalized))"

subsection \<open>The packet parser\<close>

text \<open>A layer without data, whose parser takes all of the input.\<close>

datatype DocHttp = DocHttp

definition DocHttp_finalize ::
    "DocHttp \<Rightarrow> DocHttp LayerOwned list \<Rightarrow> DocHttp LayerOwned list \<Rightarrow> DocHttp \<times> (LayerError, unit) outcome" where
  "DocHttp_finalize self prev next = (self, Ok ())"

definition DocHttp_parse :: "bytes \<Rightarrow> (LayerError, bytes \<times> DocHttp) outcome" where
  "DocHttp_parse input = Ok ([], DocHttp)"

definition DocHttp_to_bytes :: "DocHttp \<Rightarrow> (LayerError, bytes) outcome" where
  "DocHttp_to_bytes self = unimplemented"

definition doc_http_env :: "deku \<Rightarrow> platform \<Rightarrow> DocHttp env" where
  "doc_http_env D pf = \<lparr>env_dk = D, env_pf = pf, env_vt =
     \<lparr>vt_type_id = (\<lambda>_. 0), vt_finalize = DocHttp_finalize, vt_to_bytes = DocHttp_to_bytes,
      vt_length = (\<lambda>self. omap length (DocHttp_to_bytes self))\<rparr>\<rparr>"

definition DocHttp_t :: "(DocHttp, DocHttp) layer_type" where
  "DocHttp_t = \<lparr>lt_id = TCustom 0, lt_cast = (\<lambda>x. case x of LCustom h \<Rightarrow> Some h | _ \<Rightarrow> None), lt_box = LCustom,
     lt_parse = DocHttp_parse\<rparr>"

definition doc_http_parser :: "DocHttp env \<Rightarrow> DocHttp PacketParser" where
  "doc_http_parser env = bind_layer (Tcp_t env)
     (\<lambda>tcp _. if tcp_dport tcp = 80 then Some (parse_layer DocHttp_t) else None) (PacketParser_new env)"

text \<open>The frame of the documentation is the frame of \<open>custom_layer.rs\<close>.\<close>

definition doc_parser_example :: "DocHttp env \<Rightarrow> (unit, unit) outcome" where
  "doc_parser_example env =
     obind (unwrap (of_run (parse_packet env (Ether_t env) (doc_http_parser env) test_data))) (\<lambda>(rest, packet).
     for_each [(0, TEther), (1, TIpv4), (2, TTcp), (3, TCustom 0)] (\<lambda>(i, t).
       obind (index_list (Packet_layers packet) i) (\<lambda>layer. assert_that (is_layer env layer t))))"

subsection \<open>Interfaces\<close>

text \<open>
  The loops of the documentation of the crate and of \<open>src/datalink\<close>, for a number of rounds: the packets they print.
  The first is only compiled by the test runner, the second is not compiled at all.
\<close>

definition doc_interface_example :: "('tx, 'rx, 'io) pnet_lib \<Rightarrow> 'c env \<Rightarrow> nat \<Rightarrow> (unit, 'c Packet list) outcome" where
  "doc_interface_example lib env rounds =
     obind (unwrap (Interface_init (Pcap_init lib env) ''lo'')) (\<lambda>int.
     case Interface_into_split int of (rx, tx) \<Rightarrow>
       snd (collect_packets (InterfaceReader_next (PcapReader_read lib env)) rounds rx))"

definition doc_datalink_example :: "('tx, 'rx, 'io) pnet_lib \<Rightarrow> 'c env \<Rightarrow> nat \<Rightarrow> (unit, 'c Packet list) outcome" where
  "doc_datalink_example lib env rounds =
     obind (unwrap (Interface_init (Pnet_init lib env) ''lo'')) (\<lambda>interface.
     case Interface_into_split interface of (rx, tx) \<Rightarrow>
       snd (collect_packets (InterfaceReader_next (PnetReader_read lib env)) rounds rx))"

section \<open>The documentation of \<open>get_layer!\<close> and \<open>is_layer!\<close>\<close>

text \<open>Two types without data, \<open>Ether\<close> and \<open>Ipv4\<close> of the example, numbered.\<close>

definition doc_get_layer_example :: "nat env \<Rightarrow> (unit, unit) outcome" where
  "doc_get_layer_example env =
     (let layer = LCustom 0 in
      obind (assert_that (get_custom env 0 layer \<noteq> None)) (\<lambda>_.
      assert_that (get_custom env 1 layer = None)))"

definition doc_is_layer_example :: "nat env \<Rightarrow> (unit, unit) outcome" where
  "doc_is_layer_example env =
     (let layer = LCustom 0 in
      obind (assert_that (is_layer env layer (TCustom 0))) (\<lambda>_.
      assert_that (\<not> is_layer env layer (TCustom 1))))"

section \<open>The documentation of \<open>bind_layer\<close>\<close>

text \<open>Two types of the example, in one datatype; their parsers consume nothing.\<close>

datatype DocEtherType = DocIpv4Type

record DocEther =
  de_ether_type :: DocEtherType

datatype doc_layer = DocEtherLayer DocEther | DocIpv4Layer

fun doc_layer_id :: "doc_layer \<Rightarrow> nat" where
  "doc_layer_id (DocEtherLayer e) = 0"
| "doc_layer_id DocIpv4Layer = 1"

definition doc_layer_to_bytes :: "doc_layer \<Rightarrow> (LayerError, bytes) outcome" where
  "doc_layer_to_bytes self = unimplemented"

definition doc_layer_finalize ::
    "doc_layer \<Rightarrow> doc_layer LayerOwned list \<Rightarrow> doc_layer LayerOwned list \<Rightarrow> doc_layer \<times> (LayerError, unit) outcome" where
  "doc_layer_finalize self prev next = (self, unimplemented)"

definition doc_layer_env :: "deku \<Rightarrow> platform \<Rightarrow> doc_layer env" where
  "doc_layer_env D pf = \<lparr>env_dk = D, env_pf = pf, env_vt =
     \<lparr>vt_type_id = doc_layer_id, vt_finalize = doc_layer_finalize, vt_to_bytes = doc_layer_to_bytes,
      vt_length = (\<lambda>self. omap length (doc_layer_to_bytes self))\<rparr>\<rparr>"

definition DocEther_t :: "(DocEther, doc_layer) layer_type" where
  "DocEther_t = \<lparr>lt_id = TCustom 0, lt_cast = (\<lambda>x. case x of LCustom (DocEtherLayer e) \<Rightarrow> Some e | _ \<Rightarrow> None),
     lt_box = (\<lambda>e. LCustom (DocEtherLayer e)), lt_parse = (\<lambda>input. Ok (input, \<lparr>de_ether_type = DocIpv4Type\<rparr>))\<rparr>"

definition DocIpv4_t :: "(unit, doc_layer) layer_type" where
  "DocIpv4_t = \<lparr>lt_id = TCustom 1, lt_cast = (\<lambda>x. case x of LCustom DocIpv4Layer \<Rightarrow> Some () | _ \<Rightarrow> None),
     lt_box = (\<lambda>_. LCustom DocIpv4Layer), lt_parse = (\<lambda>input. Ok (input, ()))\<rparr>"

definition doc_bind_layer_example :: "doc_layer env \<Rightarrow> (unit, unit) outcome" where
  "doc_bind_layer_example env =
     (let packet_parser = bind_layer DocEther_t (\<lambda>ether _. case de_ether_type ether of
            DocIpv4Type \<Rightarrow> Some (parse_layer DocIpv4_t)) without_bindings in
      obind (unwrap (of_run (parse_packet env DocEther_t packet_parser (ascii ''input'')))) (\<lambda>(rest, packet).
      obind (assert_eq 2 (length (Packet_layers packet))) (\<lambda>_.
      for_each [(0, TCustom 0), (1, TCustom 1)] (\<lambda>(i, t).
        obind (index_list (Packet_layers packet) i) (\<lambda>layer. assert_that (is_layer env layer t))))))"

section \<open>Unit tests\<close>

definition test_from :: "(unit, unit) outcome" where
  "test_from =
     (let layer_error = LayerError.Incomplete 8; packet_error = PacketError_from layer_error in
      obind (assert_eq (PacketError.Incomplete 8) packet_error) (\<lambda>_.
      let layer_error = Parse ''some error''; packet_error = PacketError_from layer_error in
      assert_eq (PacketError.LayerError layer_error) packet_error))"

definition request_ether :: Ether where
  "request_ether = \<lparr>ether_dst = MacAddress 2 0 0 0 0 2, ether_src = MacAddress 2 0 0 0 0 1, ether_type = EtherType.IPv4\<rparr>"

definition request_ipv4 :: Ipv4 where
  "request_ipv4 = Ipv4_default\<lparr>ip4_src := 0xc0000201, ip4_dst := 0xc6336402, ip4_protocol := TCP\<rparr>"

definition request_tcp :: Tcp where
  "request_tcp = Tcp_default\<lparr>tcp_sport := 50000, tcp_dport := DEFAULT_PORT, tcp_seq := 100, tcp_ack := 200\<rparr>"

definition request_reply :: Reply where
  "request_reply = \<lparr>rp_sequence = tcp_ack request_tcp, rp_acknowledgment = 118,
     rp_flags = TcpFlags_default\<lparr>fl_ack := 1, fl_push := 1, fl_fin := 1\<rparr>, rp_payload = HTTP_RESPONSE\<rparr>"

definition builds_parseable_http_response :: "'c env \<Rightarrow> (unit, unit) outcome" where
  "builds_parseable_http_response env =
     obind (build_reply env request_ether (ether_dst request_ether) request_ipv4 request_tcp request_reply) (\<lambda>reply.
     obind (unwrap (Packet_to_bytes env reply)) (\<lambda>bytes.
     obind (unwrap (of_run (parse_packet env (Ether_t env) (PacketParser_new env) bytes))) (\<lambda>(rest, parsed).
     obind (assert_that (rest = [])) (\<lambda>_.
     obind (index_list (Packet_layers parsed) 2) (\<lambda>layer.
     obind (unwrap_some (get_tcp layer)) (\<lambda>tcp.
     obind (index_list (Packet_layers parsed) 3) (\<lambda>layer.
     obind (unwrap_some (get_raw layer)) (\<lambda>raw.
     obind (assert_eq (tcp_sport tcp) DEFAULT_PORT) (\<lambda>_.
     obind (assert_eq (tcp_dport tcp) 50000) (\<lambda>_.
     obind (assert_eq (fl_ack (tcp_flags tcp)) 1) (\<lambda>_.
     obind (assert_eq (fl_push (tcp_flags tcp)) 1) (\<lambda>_.
     obind (assert_eq (fl_fin (tcp_flags tcp)) 1) (\<lambda>_.
     obind (assert_ne (tcp_checksum tcp) 0) (\<lambda>_.
     assert_eq (raw_data raw) HTTP_RESPONSE))))))))))))))"

definition packet_round_trip :: "'c env \<Rightarrow> (unit, unit) outcome" where
  "packet_round_trip env = obind (build_and_inspect_udp env) (\<lambda>summary.
     assert_eq (Some \<lparr>us_source_address = 0xc0000201, us_destination_address = 0xc6336402, us_source_port = 40000,
       us_destination_port = 53, us_payload_length = length PAYLOAD\<rparr>) summary)"

section \<open>Benchmarks\<close>

text \<open>
  \<open>benches/bench_layers.rs\<close> parses and serialises the default headers; what is modelled is what an iteration
  computes, not its time.
\<close>

definition header_bench ::
    "(bytes \<Rightarrow> (LayerError, bytes \<times> 'l) outcome) \<Rightarrow> ('l \<Rightarrow> (LayerError, bytes) outcome) \<Rightarrow> 'l \<Rightarrow> (unit, unit) outcome" where
  "header_bench parse ser init =
     obind (unwrap (ser init)) (\<lambda>data.
     obind (expect_ok ''expected Ok'' (parse data)) (\<lambda>_.
     obind (unwrap (parse data)) (\<lambda>(rest, layer).
     obind (expect_ok ''expected Ok'' (ser layer)) (\<lambda>_. Ok ()))))"

definition criterion_benchmark :: "platform \<Rightarrow> deku \<Rightarrow> (unit, unit) outcome" where
  "criterion_benchmark pf D =
     obind (header_bench (Raw_parse pf D) (Raw_to_bytes D) Raw_default) (\<lambda>_.
     obind (header_bench (Ether_parse pf D) (Ether_to_bytes D) Ether_default) (\<lambda>_.
     obind (header_bench (Ipv4_parse pf D) (Ipv4_to_bytes D) Ipv4_default) (\<lambda>_.
     obind (header_bench (Ipv6_parse pf D) (Ipv6_to_bytes D) Ipv6_default) (\<lambda>_.
     obind (header_bench (Tcp_parse pf D) (Tcp_to_bytes D) Tcp_default) (\<lambda>_.
     header_bench (Udp_parse pf D) (Udp_to_bytes D) Udp_default)))))"

section \<open>They pass\<close>

lemma header_bench_passes:
  assumes "layer_codec parse ser ok tail" and "ok init" and "tail []"
  shows "header_bench parse ser init = Ok ()"
proof -
  obtain data where data: "ser init = Ok data"
    using layer_codec.reparse [OF assms(1,2)] by auto
  from layer_codec.reparse_Ok [OF assms(1,2) this assms(3)] data show ?thesis
    by (simp add: header_bench_def)
qed

lemma criterion_benchmark_passes:
  assumes D: "deku_laws D"
  shows "criterion_benchmark pf D = Ok ()"
proof -
  have wf: "Raw_wf Raw_default" "Ether_wf Ether_default" "Ipv4_wf Ipv4_default" "Ipv6_wf Ipv6_default" "Tcp_wf Tcp_default"
    by (simp_all add: Raw_wf_def Raw_default_def Ether_wf_def Ether_default_def EtherType_wf_def EtherType_default_def
        Ipv4_wf_def Ipv4_parsed_def Ipv4_default_def IpProtocol_wf_def IpProtocol_default_def Ipv6_wf_def Ipv6_default_def
        Tcp_wf_def Tcp_parsed_def Tcp_default_def TcpFlags_wf_def TcpFlags_default_def)
  note codecs = header_bench_passes [OF deku_laws.raw_codec [OF D] wf(1)]
    header_bench_passes [OF fixed_header.axioms(1) [OF deku_laws.ether_header [OF D]] wf(2) TrueI]
    header_bench_passes [OF deku_laws.ipv4_codec [OF D] wf(3) TrueI]
    header_bench_passes [OF fixed_header.axioms(1) [OF deku_laws.ipv6_header [OF D]] wf(4) TrueI]
    header_bench_passes [OF deku_laws.tcp_codec [OF D] wf(5) TrueI]
    header_bench_passes [OF fixed_header.axioms(1) [OF deku_laws.udp_header [OF D]] TrueI TrueI]
  show ?thesis
    by (simp add: criterion_benchmark_def codecs)
qed

lemma doc_layer_example_passes:
  assumes "deku_laws D"
  shows "doc_layer_example pf D = Ok ()"
proof -
  have bytes: "Ether_to_bytes D doc_ether = Ok doc_ether_data"
    unfolding Ether_to_bytes_def by (rule deku_laws.to_bytes_all [OF assms])
      (simp add: Ether_write_def MacAddress_write_def EtherType_write_def doc_ether_def doc_ether_data_def wapp_def
        eval_writers deku_laws.write_fits [OF assms])
  have "Ether_wf doc_ether"
    by (simp add: doc_ether_def Ether_wf_def EtherType_wf_def)
  from layer_codec.reparse_Ok [OF fixed_header.axioms(1) [OF deku_laws.ether_header [OF assms]] this bytes TrueI, of pf "[]"]
  show ?thesis by (simp add: doc_layer_example_def bytes)
qed

lemma doc_packet_example_passes:
  assumes env: "packet_env env"
  shows "\<exists>p. doc_packet_example env = Ok p"
proof -
  let ?raw = "\<lparr>raw_data = ascii ''hello world'', raw_bit_offset = 0\<rparr>"
  have wf: "Ipv4_wf Ipv4_default" "Tcp_wf Tcp_default"
    by (simp_all add: Ipv4_wf_def Ipv4_parsed_def Ipv4_default_def IpProtocol_wf_def IpProtocol_default_def
        Tcp_wf_def Tcp_parsed_def Tcp_default_def TcpFlags_wf_def TcpFlags_default_def)
  note D = packet_env.env_deku [OF env]
  have raw: "list_all is_raw [LRaw ?raw]" "layers_to_bytes env [LRaw ?raw] = Ok (ascii ''hello world'')"
    by (simp_all add: is_raw_def layers_to_bytes_eq deku_laws.Raw_to_bytes_eq [OF D])
  have "4 * unat (tcp_offset Tcp_default) + length (ascii ''hello world'') \<le> 65515"
    by (simp add: Tcp_default_def ascii_def)
  then show ?thesis
    using tcp_frame_valid [OF env wf raw deku_laws.Ipv4_default_bytes(2) [OF D], where e = Ether_default]
    by (auto simp: doc_packet_example_def deku_laws.Raw_parse_eq [OF D])
qed

lemma DocHttp_parse_layer: "parse_layer DocHttp_t input = Ok ([], LCustom DocHttp)"
  by (simp add: parse_layer_def DocHttp_t_def DocHttp_parse_def)

interpretation doc_http_k: layer_kind "doc_http_env D pf" DocHttp_t for D pf
  by unfold_locales (auto simp: DocHttp_t_def doc_http_env_def elim: type_id.elims split: LayerOwned.splits)

lemma doc_http_parser_resolves:
  "resolves env (doc_http_parser env) (override (Tcp_t env)
     (\<lambda>tcp _. if tcp_dport tcp = 80 then Some (parse_layer DocHttp_t) else None) (default_policy env))"
  unfolding doc_http_parser_def PacketParser_new_def PacketParser_default_def
  by (intro resolves_bind [OF tcp_k.layer_kind_axioms] create_packetparser_resolves)

lemma doc_parser_example_passes:
  assumes D: "deku_laws D"
  shows "doc_parser_example (doc_http_env D pf) = Ok ()"
proof -
  let ?env = "doc_http_env D pf" and ?d = test_data
  let ?self = "doc_http_parser ?env"
  have wf: "Ether_wf main_ether" "Ipv4_wf main_ipv4" "Tcp_wf main_tcp"
    using main_wf by simp_all
  note bytes = deku_laws.main_bytes [OF D]
  note reparse = layer_codec.reparse_Ok [OF fixed_header.axioms(1) [OF deku_laws.ether_header [OF D]] wf(1) bytes(1) TrueI]
    layer_codec.reparse_Ok [OF deku_laws.ipv4_codec [OF D] wf(2) bytes(2) TrueI]
    layer_codec.reparse_Ok [OF deku_laws.tcp_codec [OF D] wf(3) bytes(3) TrueI]
  have "Ether_parse pf D ?d = Ok (drop 14 ?d, main_ether)"
    using reparse(1) [of pf "drop 14 ?d"] by simp
  then have first: "lt_parse (Ether_t ?env) ?d = Ok (drop 14 ?d, main_ether)" "lt_box (Ether_t ?env) = LEther"
    by (simp_all add: Ether_t_def doc_http_env_def)
  have "Ipv4_parse pf D (drop 14 ?d) = Ok (drop 34 ?d, main_ipv4)" "Tcp_parse pf D (drop 34 ?d) = Ok (drop 54 ?d, main_tcp)"
    using reparse(2) [of pf "drop 34 ?d"] reparse(3) [of pf "drop 54 ?d"]
      append_take_drop_id [of 20 "drop 14 ?d"] append_take_drop_id [of 20 "drop 34 ?d"] by simp_all
  then have ip: "parse_layer (Ipv4_t ?env) (drop 14 ?d) = Ok (drop 34 ?d, LIpv4 main_ipv4)"
      and tcp: "parse_layer (Tcp_t ?env) (drop 34 ?d) = Ok (drop 54 ?d, LTcp main_tcp)"
    by (simp_all add: parse_layer_def Ipv4_t_def Tcp_t_def doc_http_env_def)
  have rest: "drop 14 ?d \<noteq> []" "drop 34 ?d \<noteq> []" "drop 54 ?d \<noteq> []"
    by (simp_all add: test_data_def)
  have pol: "override (Tcp_t ?env) f (default_policy ?env) (LEther main_ether) r = Some (parse_layer (Ipv4_t ?env))"
      "override (Tcp_t ?env) f (default_policy ?env) (LIpv4 main_ipv4) r = Some (parse_layer (Tcp_t ?env))" for f r
    by (simp_all add: override_def default_policy_def layer_type_defs main_ether_def main_ipv4_def)
  have http: "override (Tcp_t ?env) (\<lambda>tcp _. if tcp_dport tcp = 80 then Some (parse_layer DocHttp_t) else None) p (LTcp main_tcp) r
      = Some (parse_layer DocHttp_t)" for p r
    by (simp add: override_def Tcp_t_def main_tcp_def)
  note step = resolved_step [OF doc_http_parser_resolves]
  have "parse_packet ?env (Ether_t ?env) ?self ?d
      = Some (Ok ([], Packet_from_layers [LEther main_ether, LIpv4 main_ipv4, LTcp main_tcp, LCustom DocHttp]))"
    using step [OF pol(1) ip rest(1)] step [OF pol(2) tcp rest(2)] step [OF http DocHttp_parse_layer rest(3)] first
    by (simp add: parse_packet_def loop_end)
  then show ?thesis
    by (simp add: doc_parser_example_def Packet_from_layers_def Packet_layers_def index_list_def is_layer_def doc_http_env_def)
qed

lemma doc_bind_layer_example_passes: "doc_bind_layer_example (doc_layer_env D pf) = Ok ()"
proof -
  let ?env = "doc_layer_env D pf"
  let ?pb = "bind_layer DocEther_t (\<lambda>ether _. case de_ether_type ether of DocIpv4Type \<Rightarrow> Some (parse_layer DocIpv4_t)) without_bindings"
  have "next_layer_parser ?env ?pb (LCustom (DocEtherLayer \<lparr>de_ether_type = DocIpv4Type\<rparr>)) rest = Ok (Some (parse_layer DocIpv4_t))"
      "next_layer_parser ?env ?pb (LCustom DocIpv4Layer) rest = Ok None" for rest
    by (simp_all add: next_layer_parser_def bind_layer_def binding_of_def without_bindings_def doc_layer_env_def DocEther_t_def)
  then have "parse_packet ?env DocEther_t ?pb input = Some (Ok (input, Packet_from_layers
      [LCustom (DocEtherLayer \<lparr>de_ether_type = DocIpv4Type\<rparr>), LCustom DocIpv4Layer]))" if "input \<noteq> []" for input
    using that by (simp add: parse_packet_def parse_loop.simps parse_layer_def DocEther_t_def DocIpv4_t_def)
  moreover have "ascii ''input'' \<noteq> []" by (simp add: ascii_def)
  ultimately show ?thesis
    by (simp add: doc_bind_layer_example_def Packet_from_layers_def Packet_layers_def index_list_def is_layer_def
        doc_layer_env_def assert_simps)
qed

text \<open>The segment and the pseudo header of the reply, if its checksum were zero: they would not verify.\<close>

context deku_laws
begin

lemma request_reply_segment:
  "Tcp_to_bytes D (reply_tcp request_tcp request_reply\<lparr>tcp_checksum := 0\<rparr>)
    = Ok [0x1f, 0x90, 0xc3, 0x50, 0, 0, 0, 0xc8, 0, 0, 0, 0x76, 0x50, 0x19, 0xfa, 0xf0, 0, 0, 0, 0]"
  unfolding Tcp_to_bytes_def
  by (rule to_bytes_all) (simp add: Tcp_write_def TcpFlags_write_def reply_tcp_def request_tcp_def request_reply_def
      DEFAULT_PORT_def Tcp_default_def TcpFlags_default_def wapp_def eval_writers write_fits)

lemma request_reply_pseudo_header:
  "to_bytes_with D (Ipv4PseudoHeader_write D)
      (Ipv4PseudoHeader_new (reply_ipv4 request_ipv4\<lparr>ip4_length := n, ip4_checksum := c\<rparr>) 121)
    = Ok [0xc6, 0x33, 0x64, 0x02, 0xc0, 0, 0x02, 0x01, 0, 6, 0, 121]"
  by (rule to_bytes_all) (simp add: Ipv4PseudoHeader_write_def Ipv4PseudoHeader_new_def reply_ipv4_def request_ipv4_def
      Ipv4_default_def IpProtocol_write_def wapp_def eval_writers write_fits)

end

lemma request_reply_unverified:
  "checksum pf ([0xc6, 0x33, 0x64, 0x02, 0xc0, 0, 0x02, 0x01, 0, 6, 0, 121] @ [0x1f, 0x90, 0xc3, 0x50, 0, 0, 0, 0xc8, 0, 0, 0,
     0x76, 0x50, 0x19, 0xfa, 0xf0, 0, 0, 0, 0] @ HTTP_RESPONSE) \<noteq> (Ok 0 :: (LayerError, u16) outcome)"
  by (simp add: HTTP_RESPONSE_def HTTP_BODY_def crlf_def ascii_def checksum_eq ones_norm_def be_sum_append word_uint_eq_iff)

lemma unit_tests_pass:
  shows "test_from = Ok ()" "packet_env env \<Longrightarrow> packet_round_trip env = Ok ()"
  subgoal by (simp add: test_from_def)
  subgoal using build_and_inspect_udp_result [of env] by (simp add: packet_round_trip_def)
  done

lemma builds_parseable_http_response_passes:
  assumes env: "packet_env env"
  shows "builds_parseable_http_response env = Ok ()"
proof -
  have flags: "TcpFlags_wf (rp_flags request_reply)" and payload: "rp_payload request_reply = HTTP_RESPONSE"
      and fits: "length (rp_payload request_reply) \<le> 65495"
    using reply_flags_wf(1) by (simp_all add: request_reply_def length_HTTP_RESPONSE)
  note D = packet_env.env_deku [OF env]
  obtain n c c' v' t' hdr seg ph where
      v': "v' = reply_ipv4 request_ipv4\<lparr>ip4_length := n, ip4_checksum := c\<rparr>"
      and t': "t' = reply_tcp request_tcp request_reply\<lparr>tcp_checksum := c'\<rparr>"
      and run: "build_reply env request_ether (ether_dst request_ether) request_ipv4 request_tcp request_reply = Ok (Packet_from_layers
        (LEther \<lparr>ether_dst = ether_src request_ether, ether_src = ether_dst request_ether, ether_type = EtherType.IPv4\<rparr> #
         LIpv4 v' # LTcp t' # reply_rest (rp_payload request_reply)))" (is "_ = Ok ?p")
      and seg: "Tcp_to_bytes (env_dk env) t' = Ok seg"
      and ph: "ip_pseudo_header ''tcp_length'' env (LIpv4 v') (length seg + length (rp_payload request_reply)) = Ok (Some ph)"
      and sum: "checksum (env_pf env) (ph @ seg @ rp_payload request_reply) = (Ok 0 :: (LayerError, u16) outcome)"
    by (rule build_reply_run [OF env flags fits])
  have "c' \<noteq> 0"
  proof
    assume "c' = 0"
    with seg t' have seg0: "seg = [0x1f, 0x90, 0xc3, 0x50, 0, 0, 0, 0xc8, 0, 0, 0, 0x76, 0x50, 0x19, 0xfa, 0xf0, 0, 0, 0, 0]"
      by (simp add: deku_laws.request_reply_segment [OF D])
    with ph have "ph = [0xc6, 0x33, 0x64, 0x02, 0xc0, 0, 0x02, 0x01, 0, 6, 0, 121]"
      by (simp add: ip_pseudo_header_def u16_try_from_def payload length_HTTP_RESPONSE v'
          deku_laws.request_reply_pseudo_header [OF D])
    with sum seg0 show False
      using request_reply_unverified [of "env_pf env"] by (simp add: payload)
  qed
  moreover obtain bs where "Packet_to_bytes env ?p = Ok bs"
      "parse_packet env (Ether_t env) (PacketParser_new env) bs = Some (Ok ([], ?p))"
    using build_reply_ok [OF env flags fits, of request_ether "ether_dst request_ether" request_ipv4 request_tcp] run
    by (auto simp: valid_reply_def)
  moreover have raw: "reply_rest HTTP_RESPONSE = [LRaw (Raw_default\<lparr>raw_data := HTTP_RESPONSE\<rparr>)]"
    using length_HTTP_RESPONSE by (auto simp: reply_rest_def)
  ultimately show ?thesis
    by (simp add: builds_parseable_http_response_def run Packet_layers_def Packet_from_layers_def index_list_def)
      (simp add: raw t' reply_tcp_def request_tcp_def request_reply_def TcpFlags_default_def Tcp_default_def assert_simps)
qed

lemma doc_macro_examples_pass:
  assumes "vt_type_id (env_vt env) = (\<lambda>n. n)"
  shows "doc_get_layer_example env = Ok ()" "doc_is_layer_example env = Ok ()"
  using assms by (simp_all add: doc_get_layer_example_def doc_is_layer_example_def get_custom_def is_layer_def)

text \<open>The loop over an interface sees the packets that arrive, in order; it ends at the first that cannot be read.\<close>

lemma doc_interface_example_prints:
  assumes laws: "pnet_laws lib sent arriving" and start: "Pcap_init lib env ''lo'' = Ok i"
    and frames: "arriving (pcr_reader (if_reader i)) = frames @ later"
      "map (parse_packet env (Ether_t env) (PacketParser_new env)) frames = map (\<lambda>p. Some (Ok ([], p))) ps"
  shows "doc_interface_example lib env (length ps) = Ok ps"
proof -
  obtain rx tx where split: "Interface_into_split i = (rx, tx)" "ir_reader rx = if_reader i"
    by (simp add: Interface_into_split_def)
  from pnet_laws.opened_pending [OF laws start frames] split(2) have
      "map (frame_result env (pcr_packet_parser (ir_reader rx))) (arriving (pcr_reader (ir_reader rx)))
        = map Ok ps @ map (frame_result env (PacketParser_new env)) later"
    by simp
  from packet_source.collect_take [OF pnet_laws.pcap_source [OF laws, of env] this] split start show ?thesis
    by (auto simp: doc_interface_example_def Interface_init_def)
qed

text \<open>Both backends print the same packets.\<close>

lemma collect_packets_simulates:
  assumes "\<And>s. nxt' (f s) = map_prod f id (nxt s)"
  shows "collect_packets nxt' n (f s) = map_prod f id (collect_packets nxt n s)"
proof (induction n arbitrary: s)
  case (Suc n)
  obtain s' res where nxt: "nxt s = (s', res)" by fastforce
  show ?case
  proof (cases res)
    case (Ok item)
    with nxt Suc [of s'] assms [of s] show ?thesis
      by (cases "collect_packets nxt n s'") (auto split: option.splits)
  qed (use nxt assms [of s] in simp_all)
qed simp

lemma doc_datalink_example_agrees:
  fixes lib :: "('tx, 'rx, 'io) pnet_lib" and env :: "'c env"
  shows "doc_datalink_example lib env n = doc_interface_example lib env n"
proof -
  define f where "f = (\<lambda>rx :: ('c, 'rx) PnetReader InterfaceReader.
    \<lparr>ir_reader = as_pcap_reader (ir_reader rx), ir_metadata = ir_metadata rx\<rparr>)"
  have "InterfaceReader_next (PcapReader_read lib env) (f rx)
      = map_prod f id (InterfaceReader_next (PnetReader_read lib env) rx)" for rx
    by (cases "PnetReader_read lib env (ir_reader rx)")
      (simp add: InterfaceReader_next_def PcapReader_read_simulates f_def)
  note collect = collect_packets_simulates [where f = f and nxt' = "InterfaceReader_next (PcapReader_read lib env)" and
      nxt = "InterfaceReader_next (PnetReader_read lib env)", OF this]
  show ?thesis
  proof (cases "Pnet_init lib env ''lo''")
    case (Ok i)
    have "fst (Interface_into_split (as_pcap_interface i)) = f (fst (Interface_into_split i))"
      by (simp add: Interface_into_split_def as_pcap_interface_def f_def)
    with Ok show ?thesis
      by (simp add: doc_datalink_example_def doc_interface_example_def Interface_init_def Pcap_behaves_like_Pnet collect
          split_beta)
  qed (simp_all add: doc_datalink_example_def doc_interface_example_def Interface_init_def Pcap_behaves_like_Pnet)
qed

end
