(* ===== verification/Spec2Isabelle.thy ===== *)
theory Spec2Isabelle
  imports Build_Packet Firmware Frame_Fixpoint Fuzz_Targets Parse_Steps Dump_Text Ping Hello_Loop Datalink_Tests Doc_Tests
begin

text \<open>
  A verification library for the Rust crate \<open>nata\<close>, which parses, builds, reads and writes network packets.

  \<^bold>\<open>The program.\<close>  A packet is a list of boxed layers (\<open>src/packet/mod.rs\<close>, \<open>src/layer/mod.rs\<close>).  Each layer type (Ethernet,
  IPv4, IPv6, ICMP, UDP, TCP, raw data, or one that a client defines) has a parser, a serialiser and a \<open>finalize\<close> that sees
  the layers before and after it.  \<open>PacketParser::parse_packet\<close> parses the first layer and then asks the bindings
  registered for the type of the current layer, the last one first, for the parser of the next layer, until the
  input is used up or no binding names a parser; \<open>src/packet/bindings.rs\<close> registers the default bindings.
  \<open>Packet::finalize\<close> runs the \<open>finalize\<close> of the layers front to back: IPv4 and IPv6 set their lengths, IPv4, ICMP, UDP and
  TCP their checksums, TCP pads its options.  The data link layer (\<open>src/datalink\<close>) reads packets from and writes packets to
  capture files and network interfaces.  The examples are clients of all of this.

  \<^bold>\<open>Values, errors and panics.\<close>  Theory \<open>Nata_Prelude\<close>.  \<open>u8\<close>, \<open>u16\<close>, \<open>u32\<close>, \<open>u128\<close> are words of their width.  A function returns an
  \<open>outcome\<close>: \<open>Ok\<close> a value, \<open>Err\<close> an error, \<open>Panic\<close> a message, or \<open>Diverge\<close>; \<open>obind\<close> is the \<open>?\<close> operator.  A method on \<open>&mut self\<close>
  returns the new state beside its outcome, also when it fails (\<open>try_in\<close>).  Arithmetic on \<open>usize\<close> and \<open>u32\<close> is
  checked or wraps as the build profile (\<open>platform\<close> in \<open>Layer_Core\<close>) says, and every index, slice and conversion that can
  panic is a branch.

  \<^bold>\<open>Parameters.\<close>  Code outside the repository is a record of functions and the documented behaviour that is used of it a
  locale, with an instance in memory that satisfies it:
  \<^item> \<open>deku\<close>, locale \<open>deku_laws\<close> (\<open>Deku_Interface\<close>), instance \<open>ref_deku\<close> (\<open>Deku_Codec\<close>): bit-level readers and writers;
  \<^item> the client's own layers: \<open>vtable\<close>, locale \<open>client_layers\<close> (\<open>Layers\<close>), instances for a client without layers and for the
    HTTP layer of the example (\<open>Custom_Layer\<close>);
  \<^item> \<open>pcap_file\<close>, the file system and the clock: \<open>pcap_lib\<close>, \<open>pcap_file_laws\<close> (\<open>Pcap_File\<close>), instances \<open>mem_pcap\<close> and, for a
    damaged file, \<open>torn_pcap\<close>; its slice parser:
    \<open>parser_lib\<close>, \<open>pcap_parser_laws\<close> (\<open>Capture_Dump\<close>), instance \<open>mem_parser\<close>;
  \<^item> \<open>Self::try_from\<close>, which deku derives and only the tests call: a function, \<open>try_from_agrees\<close> (\<open>Codec_Tests\<close>);
  \<^item> \<open>pnet\<close>: \<open>pnet_lib\<close>, \<open>pnet_laws\<close> (\<open>Live_Capture\<close>), instances \<open>mem_pnet\<close> and \<open>lo_pnet\<close>;
  \<^item> the allocator of the firmware: \<open>allocator\<close> (\<open>Firmware\<close>), of which nothing is assumed.
  \<open>env\<close> collects deku, the platform and the client's methods; \<open>packet_env env\<close> says that they satisfy their laws.

  \<^bold>\<open>Theories, in the order they build on each other.\<close>
  \<^item> \<open>Nata_Prelude\<close>, \<open>Deku_Interface\<close>, \<open>Deku_Codec\<close>, \<open>Id_Table\<close>, \<open>Layer_Core\<close>: outcomes, bits and bytes; deku and its codecs; enumerations
    with a catch-all variant; \<open>layer_codec\<close>, the contract of a layer's parser and serialiser (parsing returns and loses
    nothing, a well-formed layer is parsed back), and \<open>fixed_header\<close> for headers of a fixed size.
  \<^item> \<open>Ether_Type\<close>, \<open>Ether\<close>, \<open>Raw\<close>, \<open>Ip_Protocol\<close>, \<open>Ipv4\<close>, \<open>Ipv6\<close>, \<open>Icmp_Type\<close>, \<open>Icmp\<close>, \<open>Udp\<close>, \<open>Tcp\<close>: one record per \<open>struct\<close>, its derived codec,
    \<open>parse\<close>, \<open>to_bytes\<close>, the \<open>update\<close> functions, and the instance of \<open>layer_codec\<close> (\<open>src/layer/*\<close>).
  \<^item> \<open>Ip_Checksum\<close>: \<open>checksum\<close> of \<open>src/layer/ip/mod.rs\<close>, equal to the sum of RFC 1071 on inputs of at most 131074 bytes, the bound
    up to which its \<open>u32\<close> accumulator cannot overflow, and what happens above it.
  \<^item> \<open>Layers\<close>: \<open>LayerOwned\<close>, \<open>get_layer!\<close>, \<open>is_layer!\<close>, the trait's functions by dispatch, \<open>length_of_layers\<close>, \<open>layers_to_bytes\<close>.
  \<^item> \<open>Finalize\<close>, \<open>Udp_Finalize\<close>, \<open>Tcp_Finalize\<close>, \<open>Packet_Finalize\<close>: \<open>finalize\<close> of the layers, on every branch, and of whole frames.
  \<^item> \<open>Frame_Stable\<close>, \<open>Frame_Fixpoint\<close>: repeated \<open>Packet::finalize\<close> on TCP and UDP frames, and the frames it leaves alone;
    \<open>ip_carrier\<close> is what the transport layers need of the IP layer below them, \<open>ip_fixpoint\<close> adds which of its headers
    \<open>finalize\<close> leaves alone, and IPv4 and IPv6 are the instances of both.
  \<^item> \<open>Packet\<close>, \<open>Bindings\<close>, \<open>Parse_Steps\<close>: packets, the packet parser and its bindings, the default table, and the parse loop as a
    step relation with its invariants.  \<open>layer_kind\<close> is what a layer type needs so that a downcast never fails,
    \<open>parser_policy\<close> what bindings need so that parsing ends and loses nothing.
  \<^item> \<open>Datalink\<close>, \<open>Pcap_File\<close>, \<open>Packet_Loop\<close>, \<open>Live_Capture\<close>: interfaces and their halves, capture files, loops over an interface,
    and the two backends for network interfaces.  \<open>packet_sink\<close>, \<open>packet_source\<close>, \<open>finite_source\<close>, \<open>packet_stream\<close> and
    \<open>packet_server\<close> are the contracts of writers, readers, iterators and loops that answer packets.
  \<^item> The clients: \<open>Udp_Inspect\<close> and \<open>Firmware\<close> (\<open>example_no_std\<close>: the library, and the entry point as a step relation and the
    build script on a file system), \<open>Build_Packet\<close>, \<open>Command_Line\<close>, \<open>Pcap_Copy\<close> (\<open>read_write_pcap.rs\<close>), \<open>Http_Server\<close>
    and \<open>Http_Main\<close> (\<open>spoof_http_server.rs\<close>), \<open>Ping\<close> (\<open>icmp_ping.rs\<close>), \<open>Hello_Loop\<close> (\<open>read_write_interface.rs\<close>),
    \<open>Custom_Layer\<close> and \<open>Custom_Main\<close> (\<open>custom_layer.rs\<close>), \<open>Capture_Dump\<close> and \<open>Dump_Text\<close> (\<open>example_wasm\<close>), \<open>Fuzz_Targets\<close>.
  \<^item> The tests of the crate: \<open>Assertions\<close> (\<open>assert!\<close>, \<open>assert_eq!\<close>, \<open>unwrap\<close>, indexing), \<open>Packet_Tests\<close> (\<open>src/packet/mod.rs\<close>), \<open>Codec_Tests\<close>
    and \<open>Finalize_Tests\<close> (\<open>src/layer\<close>), \<open>Datalink_Tests\<close> (\<open>src/datalink/mod.rs\<close> and \<open>tests/test_pcaps.rs\<close>) and \<open>Doc_Tests\<close>
    (the examples of the documentation, the tests of the examples and the benchmarks).  A test is an outcome and passes
    when it is \<open>Ok ()\<close>; where a panic with a certain message is expected, that is a condition on the error unwrapped.
  \<^item> This theory composes the server's handler, a network writer, a network reader and the parser.

  \<^bold>\<open>What is shown.\<close>  Safety: parsing any bytes returns, with a value or an error.  Losslessness and round trips: what is parsed
  serialises to the input, and well-formed packets are parsed back, from bytes, from a capture file and over a
  network interface.  Functional correctness of \<open>finalize\<close> on every branch: of each layer, of the loop of
  \<open>Packet::finalize\<close> over them, layer by layer, and validity of the finalised frame; the
  cases where one \<open>finalize\<close> is not enough (a stale UDP length or TCP data offset), where the IPv4 length ends up wrong
  (padded TCP options) and where the header no longer fits are theorems too, and for every TCP or UDP frame that fits its
  length fields two runs of \<open>Packet::finalize\<close> reach a valid frame that further runs leave alone, over IPv4 and
  over IPv6; the TCP and UDP frames over IPv4 it leaves alone are the valid ones.  A UDP checksum that comes out as zero is stored as zero,
  which means none.  Refinement: the default bindings are
  the table, a new binding overrides the old ones, the parse loop is its step relation.  Termination: of parsing
  under bindings that consume input, with a theorem for the bindings that do not; of copying and describing captures.
  Invariants of loops: of the parse loop and of the servers.  The clients: what they send, for every packet that arrives, which
  frames the UDP inspection describes, what copying and describing a capture gives, also when a write fails or a record is
  bad, and that the firmware never panics.  Iterating over a capture file drops errors, also that of a damaged file.
  Tests: the unit tests and the examples of the documentation pass on the model, with the bytes, lengths and checksums
  they expect, so the model agrees with the program where the program says what it computes; for the tests that read
  a capture file, on which captures they pass; and what two of the tests do not check.

  \<^bold>\<open>Bounds and fuel.\<close>  \<open>usize\<close> has at least 16 bits.  The parse loop and the loop over a capture in memory are partial
  functions whose value \<open>None\<close> is not returning; that they return is proved, by the length of the input.  \<open>copy_loop\<close> and \<open>rw_loop\<close>
  have fuel, and one more than the number of records is enough.  A loop over a live interface, which need not end, runs
  for a number of rounds, and the theorems hold for as many rounds as packets arrive.

  \<^bold>\<open>Not modelled.\<close>  Printing to a terminal, and the derived \<open>Debug\<close> and \<open>PartialEq\<close>; the text of panic messages that render an error;
  allocation, and running out of memory; the panic hook of JavaScript; a binding closure that panics,
  except in the test that has one (\<open>bind_closure\<close>); what deku does with values that do not fit their declared width; the
  contents of the capture files under \<open>tests/pcaps\<close>; the time a benchmark takes; the text of the documentation.
\<close>

section \<open>From the wire to the wire\<close>

text \<open>
  (C17) An answer of the HTTP server reaches the client.  When the server's write of it succeeds, over any network
  library that sends and delivers frames as documented, exactly one frame has gone out, the bytes of the answer; a
  client to which it is delivered reads from its own interface, with the default parser, exactly the packet the
  handler built.  That packet is a valid reply to the request's Ethernet, IPv4 and TCP layers, which are
  addressed to the server: the SYN-ACK for a SYN without ACK, the HTTP response otherwise, acknowledging the
  client's sequence number plus the payload, plus one for SYN and one for FIN.
\<close>

theorem answer_reaches_client:
  assumes env: "packet_env env" and laws: "pnet_laws lib sent arriving" "pnet_laws lib' sent' arriving'"
    and answer: "handle_packet env server_ip port server_mac packet = Ok (Some (reply, msg))"
    and written: "InterfaceWriterRef_write (PcapWriter_write lib env) w reply = (w', Ok ())"
    and client: "Pnet_init lib' env name = Ok i"
    and link: "sent (pcw_writer (wr_writer w')) = sent (pcw_writer (wr_writer w)) @ arriving' (pnr_reader (if_reader i))"
  shows "\<exists>bs e v t. Packet_to_bytes env reply = Ok bs \<and>
    sent (pcw_writer (wr_writer w')) = sent (pcw_writer (wr_writer w)) @ [bs] \<and>
    snd (PnetReader_read lib' env (if_reader i)) = Ok reply \<and>
    find_map get_ether (pkt_layers packet) = Some e \<and> find_map get_ipv4 (pkt_layers packet) = Some v \<and>
    find_map get_tcp (pkt_layers packet) = Some t \<and> ip4_dst v = server_ip \<and> tcp_dport t = port \<and>
    valid_reply env e server_mac v t
      ((if fl_syn (tcp_flags t) = 1 \<and> fl_ack (tcp_flags t) = 0 then syn_ack_answer t else http_answer t)
         (length (request_payload packet v t))) reply"
proof -
  obtain e v t where found: "find_map get_ether (pkt_layers packet) = Some e" "find_map get_ipv4 (pkt_layers packet) = Some v"
      "find_map get_tcp (pkt_layers packet) = Some t" "ip4_dst v = server_ip" "tcp_dport t = port"
      and reply: "valid_reply env e server_mac v t
        ((if fl_syn (tcp_flags t) = 1 \<and> fl_ack (tcp_flags t) = 0 then syn_ack_answer t else http_answer t)
           (length (request_payload packet v t))) reply"
    by (rule handle_packet_Some [OF env answer])
  then obtain bs where bs: "Packet_to_bytes env reply = Ok bs"
      "parse_packet env (Ether_t env) (PacketParser_new env) bs = Some (Ok ([], reply))"
    by (auto simp: valid_reply_def)
  have sent: "sent (pcw_writer (wr_writer w')) = sent (pcw_writer (wr_writer w)) @ [bs]"
    using packet_sink.write_Ok [OF packet_sink.ref_sink [OF pnet_laws.pcap_sink [OF laws(1)]] written] bs by auto
  with link have "arriving' (pnr_reader (if_reader i)) = [bs]" by simp
  moreover have "pnr_packet_parser (if_reader i) = PacketParser_new env"
    using client by (auto simp: Pnet_init_def Pnet_init_with_parser_def outcome_simps Let_def)
  ultimately have "snd (PnetReader_read lib' env (if_reader i)) = frame_result env (PacketParser_new env) bs"
    using packet_source.read_next [OF pnet_laws.pnet_source [OF laws(2), of env], of "if_reader i"] by simp
  with bs have "snd (PnetReader_read lib' env (if_reader i)) = Ok reply" by (simp add: frame_result_def)
  with bs(1) sent found reply show ?thesis by blast
qed

theorem answer_reaches_client_witness:
  "\<exists>i w reply bs. Pnet_init (mem_pnet [bs]) dev_env ''eth0'' = Ok i \<and>
     InterfaceWriterRef_write (PcapWriter_write (mem_pnet []) dev_env) \<lparr>wr_writer = \<lparr>pcw_writer = []\<rparr>, wr_metadata = \<lparr>md_mac_address = None\<rparr>\<rparr> reply = (w, Ok ()) \<and>
     pcw_writer (wr_writer w) = [bs] \<and> snd (PnetReader_read (mem_pnet [bs]) dev_env (if_reader i)) = Ok reply"
proof -
  obtain p msg bs where p: "handle_packet dev_env 0x7F000001 8080 MacAddress_default syn_packet = Ok (Some (p, msg))"
      and bs: "Packet_to_bytes dev_env p = Ok bs"
    using syn_packet_answered by blast
  let ?w = "\<lambda>sent. \<lparr>wr_writer = \<lparr>pcw_writer = sent\<rparr>, wr_metadata = \<lparr>md_mac_address = None\<rparr>\<rparr>"
  from bs have w: "InterfaceWriterRef_write (PcapWriter_write (mem_pnet []) dev_env) (?w []) p = (?w [bs], Ok ())"
    by (simp add: InterfaceWriterRef_write_def PcapWriter_write_def mem_pnet_def)
  have "\<exists>i. Pnet_init (mem_pnet [bs]) dev_env ''eth0'' = Ok i \<and> pnr_reader (if_reader i) = [bs]"
    by (simp add: Pnet_init_def Pnet_init_with_parser_def mem_pnet_def mem_nic_def)
  then obtain i where i: "Pnet_init (mem_pnet [bs]) dev_env ''eth0'' = Ok i" "pnr_reader (if_reader i) = [bs]" by blast
  from answer_reaches_client [OF dev_packets.packet_env_axioms mem_net.pnet_laws_axioms mem_net.pnet_laws_axioms p w i(1)]
  have "snd (PnetReader_read (mem_pnet [bs]) dev_env (if_reader i)) = Ok p" by (auto simp: i(2))
  with i(1) w show ?thesis by fastforce
qed

end
